(* ===== verification/Go_Prelude.thy ===== *)
theory Go_Prelude
  imports Main
begin

text \<open>
  What every component shares: Go's 64-bit \<open>int\<close> written out on the integers, Go's
  maps as partial functions together with the order in which a \<open>range\<close> loop meets the
  keys, the value of a Go call that may panic, and the collections of rewrite rules that
  the component theories fill and use.
\<close>

section \<open>Rewrite collections\<close>

named_theorems status_simps \<open>node statuses are pairwise different\<close>
named_theorems reg_simps \<open>what a registry operation leaves in each field\<close>
named_theorems eval_simps \<open>defining equations used to evaluate closed terms\<close>

section \<open>Machine integers\<close>

text \<open>
  Go's \<open>int\<close> and \<open>int64\<close> on the 64-bit platforms: values are integers between
  \<open>min_int64\<close> and \<open>max_int64\<close>; arithmetic that leaves the range wraps around.
\<close>

definition max_int64 :: int where "max_int64 = 9223372036854775807"
definition min_int64 :: int where "min_int64 = -9223372036854775808"

definition in_int64 :: "int \<Rightarrow> bool" where
  "in_int64 x \<longleftrightarrow> min_int64 \<le> x \<and> x \<le> max_int64"

definition wrap64 :: "int \<Rightarrow> int" where
  "wrap64 x = (x + 9223372036854775808) mod 18446744073709551616 - 9223372036854775808"

lemma wrap64_id [simp]: "in_int64 x \<Longrightarrow> wrap64 x = x"
  by (simp add: in_int64_def wrap64_def min_int64_def max_int64_def)

lemma wrap64_range [simp]: "in_int64 (wrap64 x)"
proof -
  have "0 \<le> (x + 9223372036854775808) mod 18446744073709551616"
    and "(x + 9223372036854775808) mod 18446744073709551616 < 18446744073709551616"
    by simp_all
  then show ?thesis
    by (simp add: in_int64_def wrap64_def min_int64_def max_int64_def)
qed

lemma wrap64_max: "wrap64 (max_int64 + 1) = min_int64"
  by (simp add: wrap64_def max_int64_def min_int64_def)

text \<open>\<open>time.Duration\<close> arithmetic of \<open>Time.Sub\<close> saturates instead of wrapping.\<close>

definition sat64 :: "int \<Rightarrow> int" where
  "sat64 x = max min_int64 (min max_int64 x)"

lemma sat64_range [simp]: "in_int64 (sat64 x)"
  by (auto simp: sat64_def in_int64_def min_int64_def max_int64_def)

lemma sat64_id [simp]: "in_int64 x \<Longrightarrow> sat64 x = x"
  by (simp add: sat64_def in_int64_def)

text \<open>Go's integer division truncates towards zero.\<close>

definition quot :: "int \<Rightarrow> int \<Rightarrow> int" where
  "quot a b = sgn a * sgn b * (\<bar>a\<bar> div \<bar>b\<bar>)"

lemma quot_nonneg: "0 \<le> a \<Longrightarrow> 0 < b \<Longrightarrow> quot a b = a div b"
  by (cases "a = 0") (simp_all add: quot_def)

section \<open>Calls that may panic\<close>

datatype panic =
    NilDereference
  | IndexOutOfRange
  | SliceOutOfRange
  | MakeSliceCapacity
  | RandIntnArgument
  | InvalidWriteHeaderCode int

datatype 'a call = Return 'a | Panic panic

fun returns :: "'a call \<Rightarrow> bool" where
  "returns (Return _) = True"
| "returns (Panic _) = False"

section \<open>Go maps and the order of a range loop\<close>

text \<open>
  A Go map is a partial function. A \<open>range\<close> loop visits each key once in an order the
  language leaves open; a model of such a loop takes the order as a list \<open>ks\<close>, and
  \<open>range_order m ks\<close> says that \<open>ks\<close> is one of the orders Go may choose. A key that is
  no longer in the map when its turn comes is skipped, as in Go.
\<close>

definition range_order :: "('k \<rightharpoonup> 'v) \<Rightarrow> 'k list \<Rightarrow> bool" where
  "range_order m ks \<longleftrightarrow> distinct ks \<and> set ks = dom m"

fun range_vals :: "('k \<rightharpoonup> 'v) \<Rightarrow> 'k list \<Rightarrow> 'v list" where
  "range_vals m [] = []"
| "range_vals m (k # ks) =
     (case m k of None \<Rightarrow> range_vals m ks | Some v \<Rightarrow> v # range_vals m ks)"

fun range_items :: "('k \<rightharpoonup> 'v) \<Rightarrow> 'k list \<Rightarrow> ('k \<times> 'v) list" where
  "range_items m [] = []"
| "range_items m (k # ks) =
     (case m k of None \<Rightarrow> range_items m ks | Some v \<Rightarrow> (k, v) # range_items m ks)"

lemma range_vals_items: "range_vals m ks = map snd (range_items m ks)"
  by (induction ks) (auto split: option.splits)

lemma set_range_items: "set (range_items m ks) = {(k, v). k \<in> set ks \<and> m k = Some v}"
  by (induction ks) (auto split: option.splits)

lemma set_range_vals: "set (range_vals m ks) = {v. \<exists>k \<in> set ks. m k = Some v}"
  by (auto simp: range_vals_items set_range_items image_iff)

lemma range_order_set: "range_order m ks \<Longrightarrow> set ks = dom m"
  by (simp add: range_order_def)

lemma range_order_distinct: "range_order m ks \<Longrightarrow> distinct ks"
  by (simp add: range_order_def)

lemma range_items_order:
  "range_order m ks \<Longrightarrow> set (range_items m ks) = {(k, v). m k = Some v}"
  by (auto simp: set_range_items range_order_def)

lemma range_vals_order: "range_order m ks \<Longrightarrow> set (range_vals m ks) = ran m"
  by (auto simp: set_range_vals range_order_def ran_def)

lemma range_items_keys: "map fst (range_items m ks) = filter (\<lambda>k. m k \<noteq> None) ks"
  by (induction ks) (auto split: option.splits)

lemma distinct_range_items: "distinct ks \<Longrightarrow> distinct (map fst (range_items m ks))"
  by (simp add: range_items_keys)

lemma range_items_map_of: "range_order m ks \<Longrightarrow> map_of (range_items m ks) = m"
proof
  fix k
  assume order: "range_order m ks"
  then have "distinct (map fst (range_items m ks))"
    by (simp add: range_order_def distinct_range_items)
  then show "map_of (range_items m ks) k = m k"
    using range_items_order [OF order]
    by (cases "m k") (auto simp: map_of_eq_None_iff image_iff)
qed

lemma range_order_dom: "dom m = dom m' \<Longrightarrow> range_order m ks \<longleftrightarrow> range_order m' ks"
  by (simp add: range_order_def)

section \<open>Lists\<close>

lemma map_of_rev_distinct: "distinct (map fst xs) \<Longrightarrow> map_of (rev xs) = map_of xs"
  by (intro ext) (metis map_of_eq_None_iff map_of_eq_Some_iff distinct_rev rev_map set_rev not_None_eq)

text \<open>The number of elements with a property, and how one update changes it.\<close>

definition count_if :: "('a \<Rightarrow> bool) \<Rightarrow> 'a list \<Rightarrow> int" where
  "count_if P xs = int (length (filter P xs))"

lemma count_if_Nil [simp]: "count_if P [] = 0"
  by (simp add: count_if_def)

lemma count_if_Cons [simp]: "count_if P (x # xs) = (if P x then 1 else 0) + count_if P xs"
  by (simp add: count_if_def)

lemma count_if_nonneg [simp]: "0 \<le> count_if P xs"
  by (simp add: count_if_def)

lemma count_if_append [simp]: "count_if P (xs @ ys) = count_if P xs + count_if P ys"
  by (simp add: count_if_def)

lemma count_if_pos: "x \<in> set xs \<Longrightarrow> P x \<Longrightarrow> 0 < count_if P xs"
  by (auto simp: count_if_def filter_empty_conv)

lemma foldl_invariant:
  assumes "P s" and "\<And>s x. P s \<Longrightarrow> x \<in> set xs \<Longrightarrow> P (f s x)"
  shows "P (foldl f s xs)"
  using assms by (induction xs arbitrary: s) simp_all

end
