(* ===== verification/Go_Std.thy ===== *)
theory Go_Std
  imports Go_Prelude
begin

text \<open>
  What the program uses of Go's standard library: \<open>strconv.Atoi\<close> and \<open>ParseBool\<close>,
  \<open>time.ParseDuration\<close> with its double-precision step for fractions, \<open>Time.Sub\<close>, and
  \<open>strings.Cut\<close>. Strings are byte strings, as in Go. Where the callers only test an
  error for \<open>nil\<close>, a failing parser is \<open>None\<close>.
\<close>

section \<open>Characters and strings\<close>

definition is_digit :: "char \<Rightarrow> bool" where
  "is_digit c \<longleftrightarrow> 48 \<le> (of_char c :: int) \<and> (of_char c :: int) \<le> 57"

definition digit_val :: "char \<Rightarrow> int" where
  "digit_val c = of_char c - 48"

text \<open>\<open>strings.Cut\<close> for a one-byte separator: before, after, found.\<close>

fun Cut :: "char \<Rightarrow> string \<Rightarrow> string \<times> string \<times> bool" where
  "Cut sep [] = ([], [], False)"
| "Cut sep (c # cs) =
     (if c = sep then ([], cs, True)
      else case Cut sep cs of (before, after, ok) \<Rightarrow> (c # before, if ok then after else [], ok))"

lemma Cut_join: "sep \<notin> set k \<Longrightarrow> Cut sep (k @ sep # v) = (k, v, True)"
  by (induction k) auto

lemma Cut_before: "Cut sep s = (b, a, ok) \<Longrightarrow> sep \<notin> set b"
  by (induction s arbitrary: b a ok) (auto split: if_splits prod.splits)

lemma Cut_found: "Cut sep s = (b, a, ok) \<Longrightarrow> ok = (sep \<in> set s)"
  by (induction s arbitrary: b a ok) (auto split: if_splits prod.splits)

section \<open>strconv\<close>

fun digits_val :: "int \<Rightarrow> string \<Rightarrow> int option" where
  "digits_val acc [] = Some acc"
| "digits_val acc (c # cs) =
     (if is_digit c then digits_val (acc * 10 + digit_val c) cs else None)"

text \<open>\<open>strconv.Atoi\<close>: an optional sign, at least one decimal digit, in range.\<close>

fun sign_split :: "string \<Rightarrow> bool \<times> string" where
  "sign_split [] = (False, [])"
| "sign_split (c # cs) =
     (if c = CHR ''-'' then (True, cs) else if c = CHR ''+'' then (False, cs)
      else (False, c # cs))"

definition Atoi :: "string \<Rightarrow> int option" where
  "Atoi s =
     (case sign_split s of (neg, ds) \<Rightarrow>
        if ds = [] then None
        else case digits_val 0 ds of
               None \<Rightarrow> None
             | Some n \<Rightarrow>
                 let x = (if neg then - n else n)
                 in if in_int64 x then Some x else None)"

lemma Atoi_range: "Atoi s = Some x \<Longrightarrow> in_int64 x"
  by (auto simp: Atoi_def Let_def split: prod.splits option.splits if_splits)

definition ParseBool :: "string \<Rightarrow> bool option" where
  "ParseBool s =
     (if s \<in> set [''1'', ''t'', ''T'', ''true'', ''TRUE'', ''True''] then Some True
      else if s \<in> set [''0'', ''f'', ''F'', ''false'', ''FALSE'', ''False''] then Some False
      else None)"

section \<open>Double precision\<close>

text \<open>
  A finite non-negative double is \<open>(m, e)\<close>, standing for \<open>m * 2 ^ e\<close>.
  \<open>to_double n d\<close> is the double nearest to \<open>n / d\<close>, ties to even, with a 53-bit
  significand; the values met here are far from the exponent limits.
\<close>

function bit_len :: "int \<Rightarrow> int" where
  "bit_len n = (if n \<le> 0 then 0 else 1 + bit_len (n div 2))"
  by pat_completeness auto
termination
  by (relation "measure nat") auto

declare bit_len.simps [simp del]

definition round_even :: "int \<Rightarrow> int \<Rightarrow> int" where
  "round_even n d =
     (let q = n div d; r = n mod d
      in if 2 * r < d then q else if d < 2 * r then q + 1
         else if even q then q else q + 1)"

definition scaled :: "int \<Rightarrow> int \<Rightarrow> int \<Rightarrow> int \<times> int" where
  "scaled n d e = (if 0 \<le> e then (n, d * 2 ^ nat e) else (n * 2 ^ nat (- e), d))"

definition to_double :: "int \<Rightarrow> int \<Rightarrow> int \<times> int" where
  "to_double n d =
     (if n = 0 then (0, 0)
      else let e0 = bit_len n - bit_len d - 53;
               e = (case scaled n d e0 of (n', d') \<Rightarrow>
                      if 9007199254740992 * d' \<le> n' then e0 + 1 else e0)
           in case scaled n d e of (n', d') \<Rightarrow> (round_even n' d', e))"

definition double_mult :: "int \<times> int \<Rightarrow> int \<times> int \<Rightarrow> int \<times> int" where
  "double_mult a b =
     (case a of (m1, e1) \<Rightarrow> case b of (m2, e2) \<Rightarrow>
        let e = e1 + e2
        in if 0 \<le> e then to_double (m1 * m2 * 2 ^ nat e) 1
           else to_double (m1 * m2) (2 ^ nat (- e)))"

definition double_trunc :: "int \<times> int \<Rightarrow> int" where
  "double_trunc a =
     (case a of (m, e) \<Rightarrow> if 0 \<le> e then m * 2 ^ nat e else m div 2 ^ nat (- e))"

section \<open>time\<close>

text \<open>
  An instant is a number of nanoseconds after Go's zero \<open>time.Time\<close>, which is 0.
\<close>

type_synonym time = int
type_synonym duration = int

definition Nanosecond :: duration where "Nanosecond = 1"
definition Second :: duration where "Second = 1000000000"
definition Minute :: duration where "Minute = 60000000000"

definition time_sub :: "time \<Rightarrow> time \<Rightarrow> duration" where
  "time_sub t u = sat64 (t - u)"

definition p63 :: int where "p63 = 9223372036854775808"

fun leading_int :: "int \<Rightarrow> string \<Rightarrow> (int \<times> string) option" where
  "leading_int x [] = Some (x, [])"
| "leading_int x (c # cs) =
     (if \<not> is_digit c then Some (x, c # cs)
      else if x > p63 div 10 then None
      else let x' = x * 10 + digit_val c
           in if x' > p63 then None else leading_int x' cs)"

fun leading_fraction :: "int \<Rightarrow> int \<Rightarrow> bool \<Rightarrow> string \<Rightarrow> int \<times> int \<times> string" where
  "leading_fraction x scale over [] = (x, scale, [])"
| "leading_fraction x scale over (c # cs) =
     (if \<not> is_digit c then (x, scale, c # cs)
      else if over then leading_fraction x scale True cs
      else if x > (p63 - 1) div 10 then leading_fraction x scale True cs
      else let y = x * 10 + digit_val c
           in if y > p63 then leading_fraction x scale True cs
              else leading_fraction y (scale * 10) False cs)"

definition unit_map :: "string \<Rightarrow> int option" where
  "unit_map u =
     (if u = ''ns'' then Some 1
      else if u = ''us'' \<or> u = [char_of (194 :: nat), char_of (181 :: nat), CHR ''s'']
           \<or> u = [char_of (206 :: nat), char_of (188 :: nat), CHR ''s''] then Some 1000
      else if u = ''ms'' then Some 1000000
      else if u = ''s'' then Some 1000000000
      else if u = ''m'' then Some 60000000000
      else if u = ''h'' then Some 3600000000000
      else None)"

definition unit_char :: "char \<Rightarrow> bool" where
  "unit_char c \<longleftrightarrow> c \<noteq> CHR ''.'' \<and> \<not> is_digit c"

text \<open>One round of the loop of \<open>ParseDuration\<close>: a number, its unit, what is left.\<close>

definition parse_unit :: "string \<Rightarrow> (int \<times> string) option" where
  "parse_unit s =
     (case leading_int 0 s of
        None \<Rightarrow> None
      | Some (v, s1) \<Rightarrow>
          let pre = (length s1 \<noteq> length s);
              dot = (s1 \<noteq> [] \<and> hd s1 = CHR ''.'');
              (f, scale, s2) = (if dot then leading_fraction 0 1 False (tl s1) else (0, 1, s1));
              post = (dot \<and> length s2 \<noteq> length (tl s1));
              u = takeWhile unit_char s2;
              rest = dropWhile unit_char s2
          in if \<not> pre \<and> \<not> post then None
             else if u = [] then None
             else case unit_map u of
                    None \<Rightarrow> None
                  | Some unit \<Rightarrow>
                      if v > p63 div unit then None
                      else let v1 = v * unit;
                               v2 = (if f > 0
                                     then v1 + double_trunc (double_mult (to_double f 1)
                                                               (to_double unit scale))
                                     else v1)
                           in if v2 > p63 then None else Some (v2, rest))"

lemma leading_int_length: "leading_int x s = Some (y, r) \<Longrightarrow> length r \<le> length s"
  by (induction x s rule: leading_int.induct) (auto simp: Let_def split: if_splits)

lemma leading_fraction_length:
  "leading_fraction x sc ov s = (y, sc', r) \<Longrightarrow> length r \<le> length s"
  by (induction x sc ov s rule: leading_fraction.induct) (auto simp: Let_def split: if_splits)

lemma dropWhile_shorter: "takeWhile P xs \<noteq> [] \<Longrightarrow> length (dropWhile P xs) < length xs"
  by (cases xs) (auto simp: le_imp_less_Suc length_dropWhile_le split: if_splits)

lemma parse_unit_shorter:
  assumes "parse_unit s = Some (v, rest)"
  shows "length rest < length s"
proof -
  obtain w s1 where li: "leading_int 0 s = Some (w, s1)"
    using assms by (auto simp: parse_unit_def split: option.splits)
  obtain f sc s2 where
    s2: "(if s1 \<noteq> [] \<and> hd s1 = CHR ''.'' then leading_fraction 0 1 False (tl s1)
          else (0, 1, s1)) = (f, sc, s2)"
    using prod_cases3 by blast
  have "length s2 \<le> length s1"
    using s2 leading_fraction_length [of 0 1 False "tl s1"] by (auto split: if_splits)
  moreover have "length s1 \<le> length s"
    using li by (rule leading_int_length)
  moreover have "length (dropWhile unit_char s2) < length s2 \<and> rest = dropWhile unit_char s2"
    using assms li s2
    by (auto simp: parse_unit_def Let_def dropWhile_shorter split: if_splits option.splits)
  ultimately show ?thesis by simp
qed

function parse_units :: "int \<Rightarrow> string \<Rightarrow> int option" where
  "parse_units d s =
     (if s = [] then Some d
      else if \<not> (hd s = CHR ''.'' \<or> is_digit (hd s)) then None
      else case parse_unit s of
             None \<Rightarrow> None
           | Some (v, rest) \<Rightarrow>
               let d' = (d + v) mod 18446744073709551616
               in if d' > p63 then None else parse_units d' rest)"
  by pat_completeness auto
termination
  by (relation "measure (\<lambda>(d, s). length s)") (auto simp: parse_unit_shorter)

declare parse_units.simps [simp del]

definition ParseDuration :: "string \<Rightarrow> duration option" where
  "ParseDuration s =
     (case sign_split s of (neg, r) \<Rightarrow>
        if r = ''0'' then Some 0
        else if r = [] then None
        else case parse_units 0 r of
               None \<Rightarrow> None
             | Some d \<Rightarrow>
                 if neg then Some (- d)
                 else if d > p63 - 1 then None else Some d)"

lemma parse_units_bound:
  "parse_units d s = Some r \<Longrightarrow> 0 \<le> d \<Longrightarrow> d \<le> p63 \<Longrightarrow> 0 \<le> r \<and> r \<le> p63"
proof (induction d s rule: parse_units.induct)
  case (1 d s)
  show ?case
  proof (cases "s = []")
    case True
    with "1.prems" show ?thesis by (simp add: parse_units.simps [of d "[]"])
  next
    case False
    with "1.prems" obtain v rest where u: "parse_unit s = Some (v, rest)"
      and ok: "hd s = CHR ''.'' \<or> is_digit (hd s)"
      and le: "(d + v) mod 18446744073709551616 \<le> p63"
      and rec: "parse_units ((d + v) mod 18446744073709551616) rest = Some r"
      by (auto simp: parse_units.simps [of d s] Let_def split: if_splits option.splits)
    show ?thesis
      using "1.IH" [OF False _ u] ok le rec by simp
  qed
qed

lemma ParseDuration_range: "ParseDuration s = Some d \<Longrightarrow> in_int64 d"
  by (auto simp: ParseDuration_def in_int64_def min_int64_def max_int64_def p63_def
      dest!: parse_units_bound split: prod.splits if_splits option.splits)

lemmas parse_eval =
  ParseDuration_def parse_units.simps parse_unit_def p63_def is_digit_def digit_val_def
  unit_char_def unit_map_def

end
