(* ===== verification/Cluster_Types.thy ===== *)
theory Cluster_Types
  imports Go_Std
begin

text \<open>
  \<^verbatim>\<open>pkg/cluster/types.go\<close>: the node record and its life-cycle statuses, and the
  world outside the leader process (relay hardware, HTTP peers, clock) as a record of
  operations over an arbitrary world state.
\<close>

section \<open>Node statuses\<close>

text \<open>
  \<open>NodeStatus\<close> is a Go string type: the four constants are the life cycle, but a
  topology file may hold any other string.
\<close>

type_synonym node_status = string

definition NodeSleeping :: node_status where "NodeSleeping = ''sleeping''"
definition NodeWaking :: node_status where "NodeWaking = ''waking''"
definition NodeActive :: node_status where "NodeActive = ''active''"
definition NodeDead :: node_status where "NodeDead = ''dead''"

lemmas status_defs = NodeSleeping_def NodeWaking_def NodeActive_def NodeDead_def

lemma status_distinct [simp, status_simps]:
  "NodeSleeping \<noteq> NodeWaking" "NodeSleeping \<noteq> NodeActive" "NodeSleeping \<noteq> NodeDead"
  "NodeWaking \<noteq> NodeSleeping" "NodeWaking \<noteq> NodeActive" "NodeWaking \<noteq> NodeDead"
  "NodeActive \<noteq> NodeSleeping" "NodeActive \<noteq> NodeWaking" "NodeActive \<noteq> NodeDead"
  "NodeDead \<noteq> NodeSleeping" "NodeDead \<noteq> NodeWaking" "NodeDead \<noteq> NodeActive"
  by (simp_all add: status_defs)

lemma status_nonempty [simp, status_simps]:
  "NodeSleeping \<noteq> []" "NodeWaking \<noteq> []" "NodeActive \<noteq> []" "NodeDead \<noteq> []"
  by (simp_all add: status_defs)

section \<open>Nodes\<close>

record node =
  ID :: string
  Address :: string
  ManagerAddress :: string
  RelayUID :: string
  Channel :: int
  Status :: node_status
  Load :: int
  LastUsed :: time
  DeadSince :: time
  Local :: bool
  DispatchOnly :: bool

text \<open>Go's zero value \<open>Node{}\<close>, the base of every composite literal.\<close>

definition zero_node :: node where
  "zero_node = \<lparr>ID = [], Address = [], ManagerAddress = [], RelayUID = [], Channel = 0,
     Status = [], Load = 0, LastUsed = 0, DeadSince = 0, Local = False,
     DispatchOnly = False\<rparr>"

text \<open>A node that may run functions now or after a wake: alive and not dispatch-only.\<close>

definition executor :: "node \<Rightarrow> bool" where
  "executor n \<longleftrightarrow> \<not> DispatchOnly n"

definition executing :: "node \<Rightarrow> bool" where
  "executing n \<longleftrightarrow> Status n = NodeActive \<and> \<not> DispatchOnly n"

section \<open>The world outside the process\<close>

text \<open>
  Errors of the relay controller, as the source wraps them, and of an HTTP exchange.
  \<open>Inl e\<close> of an exchange is a transport error, \<open>Inr (status, body)\<close> a response;
  the body is \<open>None\<close> when reading it to its end fails.
\<close>

datatype relay_error =
    InvalidChannel int string
  | ConnectFailed string int string
  | OpenFailed string string
  | ReadFailed string string
  | SetFailed string bool bool string

datatype http_error = EOF | Transport string

type_synonym http_result = "http_error + int \<times> string option"

abbreviation HTTP_OK :: int where "HTTP_OK \<equiv> 200"
abbreviation HTTP_Accepted :: int where "HTTP_Accepted \<equiv> 202"
abbreviation HTTP_BadRequest :: int where "HTTP_BadRequest \<equiv> 400"
abbreviation HTTP_NotFound :: int where "HTTP_NotFound \<equiv> 404"
abbreviation HTTP_MethodNotAllowed :: int where "HTTP_MethodNotAllowed \<equiv> 405"
abbreviation HTTP_InternalServerError :: int where "HTTP_InternalServerError \<equiv> 500"
abbreviation HTTP_BadGateway :: int where "HTTP_BadGateway \<equiv> 502"
abbreviation HTTP_ServiceUnavailable :: int where "HTTP_ServiceUnavailable \<equiv> 503"

text \<open>
  The JSON bodies and raw bodies the program posts. A JSON body is the struct the source
  marshals: encoding it and decoding it on the other side gives the struct back.
\<close>

record upload_request =
  up_name :: string
  up_env :: string
  up_threads :: int
  up_zip :: string
  up_envs :: "string list"

record rproxy_config =
  rc_name :: string
  rc_ips :: "string list"
  rc_env :: string
  rc_threads :: int
  rc_envs :: "string \<rightharpoonup> string"
  rc_zip :: string

datatype http_body =
    UploadBody upload_request
  | DeleteBody string
  | ConfigBody rproxy_config
  | CallBody string "string \<rightharpoonup> string"

text \<open>
  The operations of the world: the two of the \<open>PowerController\<close> interface, HTTP GET and
  POST, whether \<open>http.NewRequest\<close> accepts a URL, the clock and \<open>time.Sleep\<close>.
\<close>

record 'w ext =
  PowerOn :: "string \<Rightarrow> int \<Rightarrow> 'w \<Rightarrow> relay_error option \<times> 'w"
  PowerOff :: "string \<Rightarrow> int \<Rightarrow> 'w \<Rightarrow> relay_error option \<times> 'w"
  HttpGet :: "string \<Rightarrow> 'w \<Rightarrow> http_result \<times> 'w"
  HttpPost :: "string \<Rightarrow> http_body \<Rightarrow> 'w \<Rightarrow> http_result \<times> 'w"
  ValidURL :: "string \<Rightarrow> bool"
  Now :: "'w \<Rightarrow> time"
  Sleep :: "duration \<Rightarrow> 'w \<Rightarrow> 'w"

end
