(* ===== verification/Go_Http.thy ===== *)
theory Go_Http
  imports Cluster_Types
begin

text \<open>
  What the program uses of \<^verbatim>\<open>net/http\<close> on the server side: requests, responses, the
  status codes a handler may write, and the canonical form of header keys.
\<close>

section \<open>Header keys\<close>

definition code_of :: "char \<Rightarrow> int" where
  "code_of c = of_char c"

definition is_upper :: "char \<Rightarrow> bool" where
  "is_upper c \<longleftrightarrow> 65 \<le> code_of c \<and> code_of c \<le> 90"

definition is_lower :: "char \<Rightarrow> bool" where
  "is_lower c \<longleftrightarrow> 97 \<le> code_of c \<and> code_of c \<le> 122"

definition to_lower :: "char \<Rightarrow> char" where
  "to_lower c = (if is_upper c then char_of (code_of c + 32) else c)"

definition to_upper :: "char \<Rightarrow> char" where
  "to_upper c = (if is_lower c then char_of (code_of c - 32) else c)"

definition validHeaderFieldByte :: "char \<Rightarrow> bool" where
  "validHeaderFieldByte c \<longleftrightarrow> is_upper c \<or> is_lower c \<or> is_digit c \<or>
     c \<in> set (''!#$%&*+-.^_|~'' @ [CHR 0x27, CHR 0x60])"

fun canon_from :: "bool \<Rightarrow> string \<Rightarrow> string" where
  "canon_from upper [] = []"
| "canon_from upper (c # cs) =
     (let c' = (if upper then to_upper c else to_lower c) in c' # canon_from (c' = CHR ''-'') cs)"

definition CanonicalHeaderKey :: "string \<Rightarrow> string" where
  "CanonicalHeaderKey s = (if list_all validHeaderFieldByte s then canon_from True s else s)"

text \<open>\<open>Header.Set\<close> replaces whatever the canonical key had.\<close>

definition header_set :: "string \<Rightarrow> string \<Rightarrow> (string \<rightharpoonup> string) \<Rightarrow> (string \<rightharpoonup> string)" where
  "header_set k v h = h(CanonicalHeaderKey k \<mapsto> v)"

section \<open>Requests and responses\<close>

text \<open>A body that cannot be read to its end is \<open>None\<close>.\<close>

record http_request =
  Method :: string
  URLPath :: string
  Header :: "string \<rightharpoonup> string list"
  Body :: "string option"

record http_response =
  Code :: int
  RespHeader :: "string \<rightharpoonup> string"
  RespBody :: string

abbreviation MethodGet :: string where "MethodGet \<equiv> ''GET''"
abbreviation MethodPost :: string where "MethodPost \<equiv> ''POST''"

text \<open>\<open>WriteHeader\<close> panics on a code that has not three digits.\<close>

definition respond :: "int \<Rightarrow> (string \<rightharpoonup> string) \<Rightarrow> string \<Rightarrow> http_response call" where
  "respond c h b =
     (if 100 \<le> c \<and> c \<le> 999 then Return \<lparr>Code = c, RespHeader = h, RespBody = b\<rparr>
      else Panic (InvalidWriteHeaderCode c))"

lemma respond_ok [simp]:
  "100 \<le> c \<Longrightarrow> c \<le> 999 \<Longrightarrow> respond c h b = Return \<lparr>Code = c, RespHeader = h, RespBody = b\<rparr>"
  by (simp add: respond_def)

text \<open>A loop that drops the leading slashes of a path.\<close>

fun strip_slashes :: "string \<Rightarrow> string" where
  "strip_slashes [] = []"
| "strip_slashes (c # cs) = (if c = CHR ''/'' then strip_slashes cs else c # cs)"

lemma strip_slashes_head: "strip_slashes p = [] \<or> hd (strip_slashes p) \<noteq> CHR ''/''"
  by (induction p) auto

lemma strip_slashes_split: "\<exists>k. p = replicate k (CHR ''/'') @ strip_slashes p"
proof (induction p)
  case Nil
  then show ?case by simp
next
  case (Cons c cs)
  then obtain k where k: "cs = replicate k (CHR ''/'') @ strip_slashes cs" by blast
  show ?case
  proof (cases "c = CHR ''/''")
    case True
    then have "c # cs = replicate (Suc k) (CHR ''/'') @ strip_slashes (c # cs)"
      using k by simp
    then show ?thesis by blast
  next
    case False
    then show ?thesis by (intro exI [of _ 0]) simp
  qed
qed

end
