(* ===== verification/Function_Store.thy ===== *)
theory Function_Store
  imports Cluster_Types
begin

text \<open>
  \<^verbatim>\<open>pkg/cluster/functions.go\<close>: the definitions needed to redeploy a function, and the
  store that mirrors what the management service knows. The locale \<open>keyed_store\<close> is the
  contract of a store with one value per key; the function store provides it here, the
  registry's node table in its own theory.
\<close>

section \<open>The contract of a keyed store\<close>

text \<open>\<open>ok k v\<close> says which values may be stored under a key.\<close>

locale keyed_store =
  fixes lookup :: "'s \<Rightarrow> 'k \<Rightarrow> 'v option"
    and put :: "'k \<Rightarrow> 'v \<Rightarrow> 's \<Rightarrow> 's"
    and del :: "'k \<Rightarrow> 's \<Rightarrow> 's"
    and ok :: "'k \<Rightarrow> 'v \<Rightarrow> bool"
  assumes lookup_put: "ok k v \<Longrightarrow> lookup (put k v s) j = (if j = k then Some v else lookup s j)"
    and lookup_del: "lookup (del k s) j = (if j = k then None else lookup s j)"
begin

lemma lookup_puts:
  "\<forall>(k, v) \<in> set kvs. ok k v \<Longrightarrow>
     lookup (foldl (\<lambda>s (k, v). put k v s) s kvs) = lookup s ++ map_of (rev kvs)"
proof (induction kvs arbitrary: s)
  case Nil
  then show ?case by simp
next
  case (Cons kv kvs)
  obtain k v where kv: "kv = (k, v)" by (cases kv)
  have "lookup (put k v s) = (lookup s)(k \<mapsto> v)"
    using Cons.prems kv by (auto simp: lookup_put)
  with Cons.IH [of "put k v s"] Cons.prems kv show ?case
    by (auto simp: map_add_def fun_eq_iff split: option.splits)
qed

lemma lookup_puts_distinct:
  assumes "\<forall>(k, v) \<in> set kvs. ok k v" and "distinct (map fst kvs)" and "(k, v) \<in> set kvs"
  shows "lookup (foldl (\<lambda>s (k, v). put k v s) s kvs) k = Some v"
proof -
  have "map_of (rev kvs) k = Some v"
    using assms(2,3) by (simp add: map_of_rev_distinct)
  then show ?thesis using lookup_puts [OF assms(1)] by (simp add: map_add_def)
qed

lemma lookup_puts_dom:
  assumes "\<forall>(k, v) \<in> set kvs. ok k v"
  shows "dom (lookup (foldl (\<lambda>s (k, v). put k v s) s kvs)) = dom (lookup s) \<union> fst ` set kvs"
  by (simp add: lookup_puts [OF assms] dom_map_of_conv_image_fst Un_commute)

lemma lookup_del_put: "ok k v \<Longrightarrow> lookup (del k (put k v s)) = lookup (del k s)"
  by (auto simp: lookup_put lookup_del)

end

section \<open>The function store\<close>

record function_def =
  fd_env :: string
  fd_threads :: int
  fd_envs :: "string \<rightharpoonup> string"
  fd_zip :: string

record function_store =
  funcs :: "string \<rightharpoonup> function_def"

definition NewFunctionStore :: function_store where
  "NewFunctionStore = \<lparr>funcs = Map.empty\<rparr>"

definition store_Set :: "string \<Rightarrow> function_def \<Rightarrow> function_store \<Rightarrow> function_store" where
  "store_Set name def s = s\<lparr>funcs := (funcs s)(name \<mapsto> def)\<rparr>"

definition store_Remove :: "string \<Rightarrow> function_store \<Rightarrow> function_store" where
  "store_Remove name s = s\<lparr>funcs := (funcs s)(name := None)\<rparr>"

text \<open>
  \<open>All\<close> copies every pair of \<open>s.funcs\<close> into a new map, in the order \<open>ks\<close> in which the
  range loop meets the keys.
\<close>

definition store_All :: "string list \<Rightarrow> function_store \<Rightarrow> (string \<rightharpoonup> function_def)" where
  "store_All ks s = foldl (\<lambda>out (k, v). out(k \<mapsto> v)) Map.empty (range_items (funcs s) ks)"

interpretation fstore: keyed_store funcs store_Set store_Remove "\<lambda>_ _. True"
  by unfold_locales (simp_all add: store_Set_def store_Remove_def)

interpretation gomap: keyed_store
  "\<lambda>m :: 'k \<rightharpoonup> 'v. m" "\<lambda>k v (m :: 'k \<rightharpoonup> 'v). m(k \<mapsto> v)" "\<lambda>k (m :: 'k \<rightharpoonup> 'v). m(k := None)"
  "\<lambda>_ _. True"
  by unfold_locales simp_all

text \<open>A range loop that copies a map gives the map back.\<close>

lemma gomap_copy:
  assumes "range_order m ks"
  shows "foldl (\<lambda>out (k, v). out(k \<mapsto> v)) Map.empty (range_items m ks) = m"
proof -
  have d: "distinct (map fst (range_items m ks))"
    using assms by (simp add: range_order_def distinct_range_items)
  then have "map_of (rev (range_items m ks)) = map_of (range_items m ks)"
    by (rule map_of_rev_distinct)
  then show ?thesis
    using gomap.lookup_puts [where s = Map.empty and kvs = "range_items m ks"]
      range_items_map_of [OF assms]
    by simp
qed

lemma store_All_copy: "range_order (funcs s) ks \<Longrightarrow> store_All ks s = funcs s"
  by (simp add: store_All_def gomap_copy)

end
