(* ===== verification/RProxy.thy ===== *)
theory RProxy
  imports Go_Http Function_Store
begin

text \<open>
  \<^verbatim>\<open>pkg/rproxy/rproxy.go\<close>: the table of function handlers on this node, and the call
  of a function through it. Every list of handlers in the table is non-empty, which is
  what keeps the choice of a random handler from panicking.
\<close>

section \<open>State and operations\<close>

datatype status = StatusOK | StatusAccepted | StatusNotFound | StatusError

record rproxy =
  hosts :: "string \<rightharpoonup> string list"
  functionLastUsed :: "string \<rightharpoonup> time"

definition New :: rproxy where
  "New = \<lparr>hosts = Map.empty, functionLastUsed = Map.empty\<rparr>"

datatype rproxy_error = NoIPs | NotFound

definition Add :: "string \<Rightarrow> string list \<Rightarrow> rproxy \<Rightarrow> rproxy_error option \<times> rproxy" where
  "Add name ips r =
     (if ips = [] then (Some NoIPs, r) else (None, r\<lparr>hosts := (hosts r)(name \<mapsto> ips)\<rparr>))"

definition Del :: "string \<Rightarrow> rproxy \<Rightarrow> rproxy_error option \<times> rproxy" where
  "Del name r =
     (case hosts r name of
        None \<Rightarrow> (Some NotFound, r)
      | Some _ \<Rightarrow> (None, r\<lparr>hosts := (hosts r)(name := None)\<rparr>))"

text \<open>\<open>cleanHeaderKey\<close> removes every character of the regular expression's class.\<close>

definition special_chars :: string where
  "special_chars = '':()<>@,;/[]?={} '' @ [CHR 0x5C, CHR 0x22, CHR 0x09]"

definition cleanHeaderKey :: "string \<Rightarrow> string" where
  "cleanHeaderKey key = filter (\<lambda>c. c \<notin> set special_chars) key"

text \<open>\<open>ho\<close> is the order in which the range loop meets the headers.\<close>

definition call_headers :: "(string \<rightharpoonup> string) \<Rightarrow> string list \<Rightarrow> (string \<rightharpoonup> string)" where
  "call_headers headers ho =
     foldl (\<lambda>h (k, v). header_set (cleanHeaderKey k) v h) Map.empty (range_items headers ho)"

definition handler_url :: "string \<Rightarrow> string" where
  "handler_url h = ''http://'' @ h @ '':8000/fn''"

text \<open>
  \<open>rnd\<close> is the random number: any handler of the list is chosen by some \<open>rnd\<close>. An
  asynchronous call runs its request in a goroutine whose result nobody reads; here the
  request is made before the call returns.
\<close>

definition Call ::
  "'w ext \<Rightarrow> nat \<Rightarrow> string list \<Rightarrow> string \<Rightarrow> string \<Rightarrow> bool \<Rightarrow> (string \<rightharpoonup> string) \<Rightarrow> rproxy \<times> 'w \<Rightarrow>
   (status \<times> string) call \<times> rproxy \<times> 'w" where
  "Call e rnd ho name payload async headers rw =
     (case rw of (r, w) \<Rightarrow>
      case hosts r name of
        None \<Rightarrow> (Return (StatusNotFound, []), r, w)
      | Some handler \<Rightarrow>
          if handler = [] then (Panic RandIntnArgument, r, w)
          else let url = handler_url (handler ! (rnd mod length handler))
          in if \<not> ValidURL e url then (Return (StatusError, []), r, w)
          else case HttpPost e url (CallBody payload (call_headers headers ho)) w of (res, w1) \<Rightarrow>
            if async then (Return (StatusAccepted, []), r, w1)
            else (case res of
                    Inl _ \<Rightarrow> (Return (StatusError, []), r, w1)
                  | Inr (_, None) \<Rightarrow> (Return (StatusError, []), r, w1)
                  | Inr (_, Some res_body) \<Rightarrow>
                      (Return (StatusOK, res_body),
                       r\<lparr>functionLastUsed := (functionLastUsed r)(name \<mapsto> Now e w1)\<rparr>, w1)))"

definition GetFunctionLastUsed :: "string list \<Rightarrow> rproxy \<Rightarrow> (string \<rightharpoonup> time)" where
  "GetFunctionLastUsed ks r =
     foldl (\<lambda>c (k, v). c(k \<mapsto> v)) Map.empty (range_items (functionLastUsed r) ks)"

section \<open>The handler table as a keyed store\<close>

interpretation handlers: keyed_store hosts "\<lambda>k v s. snd (Add k v s)" "\<lambda>k s. snd (Del k s)"
  "\<lambda>_ ips. ips \<noteq> []"
  by unfold_locales (auto simp: Add_def Del_def split: option.splits)

lemma Add_lastUsed [simp]: "functionLastUsed (snd (Add k v s)) = functionLastUsed s"
  by (simp add: Add_def)

lemma Del_lastUsed [simp]: "functionLastUsed (snd (Del k s)) = functionLastUsed s"
  by (simp add: Del_def split: option.splits)

section \<open>No call panics\<close>

definition hosts_ok :: "rproxy \<Rightarrow> bool" where
  "hosts_ok r \<longleftrightarrow> (\<forall>name. hosts r name \<noteq> Some [])"

lemma hosts_ok_New: "hosts_ok New"
  by (simp add: hosts_ok_def New_def)

lemma hosts_ok_Add: "hosts_ok r \<Longrightarrow> hosts_ok (snd (Add k v r))"
  by (simp add: hosts_ok_def Add_def)

lemma hosts_ok_Del: "hosts_ok r \<Longrightarrow> hosts_ok (snd (Del k r))"
  by (simp add: hosts_ok_def Del_def split: option.splits)

lemma Call_hosts: "Call e rnd ho name b a h (r, w) = (x, r', w') \<Longrightarrow> hosts r' = hosts r"
  by (auto simp: Call_def Let_def split: option.splits if_splits prod.splits sum.splits)

lemma Call_returns: "hosts_ok r \<Longrightarrow> returns (fst (Call e rnd ho name b a h (r, w)))"
  by (auto simp: Call_def hosts_ok_def Let_def split: option.splits prod.splits sum.splits)

lemma Call_handler:
  assumes "hosts_ok r" and "hosts r name = Some hs"
  shows "hs ! (rnd mod length hs) \<in> set hs"
  using assms by (auto simp: hosts_ok_def intro!: nth_mem mod_less_divisor)

section \<open>What a call leaves behind\<close>

lemma Call_result:
  assumes "Call e rnd ho name b a h (r, w) = (Return (st, res), r', w')"
  shows
    "st = StatusOK \<Longrightarrow> \<not> a \<and> functionLastUsed r' = (functionLastUsed r)(name \<mapsto> Now e w')"
    "st \<noteq> StatusOK \<Longrightarrow> r' = r \<and> res = []"
    "st = StatusNotFound \<longleftrightarrow> hosts r name = None"
    "st = StatusAccepted \<Longrightarrow> a"
  using assms
  by (auto simp: Call_def Let_def split: option.splits if_splits prod.splits sum.splits)

text \<open>Go's map copy.\<close>

lemma GetFunctionLastUsed_copy:
  "range_order (functionLastUsed r) ks \<Longrightarrow> GetFunctionLastUsed ks r = functionLastUsed r"
  by (simp add: GetFunctionLastUsed_def gomap_copy)

text \<open>A cleaned key has none of the removed characters, and cleaning again does nothing.\<close>

lemma cleanHeaderKey_clean: "set (cleanHeaderKey k) \<inter> set special_chars = {}"
  by (auto simp: cleanHeaderKey_def)

lemma cleanHeaderKey_idem: "cleanHeaderKey (cleanHeaderKey k) = cleanHeaderKey k"
  by (simp add: cleanHeaderKey_def)

end
