(* ===== verification/Cluster_Config.thy ===== *)
theory Cluster_Config
  imports Cluster_Types
begin

text \<open>
  \<^verbatim>\<open>pkg/cluster/config.go\<close> and the two time-outs that \<^verbatim>\<open>pkg/cluster/registry.go\<close>
  reads from the environment: the controller's policy and the cluster topology. The
  environment is a function from names to values, where an unset variable is empty, as
  \<open>os.Getenv\<close> has it.
\<close>

type_synonym environment = "string \<Rightarrow> string"

section \<open>The scale-down policy\<close>

record controller_config =
  Enabled :: bool
  IdleTimeout :: duration
  CheckInterval :: duration
  MinActiveNodes :: int
  LoadThreshold :: int
  DeadRetry :: duration

definition DefaultControllerConfig :: controller_config where
  "DefaultControllerConfig =
     \<lparr>Enabled = True, IdleTimeout = 60 * Second, CheckInterval = 10 * Second,
      MinActiveNodes = 1, LoadThreshold = 10, DeadRetry = 5 * Minute\<rparr>"

definition envBool :: "environment \<Rightarrow> string \<Rightarrow> bool \<Rightarrow> bool" where
  "envBool getenv key fb =
     (let v = getenv key
      in if v = [] then fb else case ParseBool v of None \<Rightarrow> fb | Some parsed \<Rightarrow> parsed)"

definition envInt :: "environment \<Rightarrow> string \<Rightarrow> int \<Rightarrow> int" where
  "envInt getenv key fb =
     (let v = getenv key
      in if v = [] then fb else case Atoi v of None \<Rightarrow> fb | Some parsed \<Rightarrow> parsed)"

definition envDuration :: "environment \<Rightarrow> string \<Rightarrow> duration \<Rightarrow> duration" where
  "envDuration getenv key fb =
     (let v = getenv key
      in if v = [] then fb else case ParseDuration v of None \<Rightarrow> fb | Some parsed \<Rightarrow> parsed)"

definition ControllerConfigFromEnv :: "environment \<Rightarrow> controller_config" where
  "ControllerConfigFromEnv getenv =
     (let cfg = DefaultControllerConfig;
          cfg = cfg\<lparr>Enabled := envBool getenv ''POWER_AWARE'' (Enabled cfg)\<rparr>;
          cfg = cfg\<lparr>IdleTimeout := envDuration getenv ''NODE_IDLE_TIMEOUT'' (IdleTimeout cfg)\<rparr>;
          cfg = cfg\<lparr>CheckInterval := envDuration getenv ''CONTROLLER_INTERVAL'' (CheckInterval cfg)\<rparr>;
          cfg = cfg\<lparr>MinActiveNodes := envInt getenv ''MIN_ACTIVE_NODES'' (MinActiveNodes cfg)\<rparr>;
          cfg = cfg\<lparr>LoadThreshold := envInt getenv ''LOAD_THRESHOLD'' (LoadThreshold cfg)\<rparr>;
          cfg = cfg\<lparr>DeadRetry := envDuration getenv ''DEAD_RETRY'' (DeadRetry cfg)\<rparr>
      in cfg)"

section \<open>The time-outs of the registry\<close>

definition activationSafetyTimeout :: duration where
  "activationSafetyTimeout = 5 * Minute"

definition timeout_from :: "environment \<Rightarrow> string \<Rightarrow> duration \<Rightarrow> duration" where
  "timeout_from getenv key fb =
     (let v = getenv key
      in if v = [] then fb
         else case ParseDuration v of None \<Rightarrow> fb | Some d \<Rightarrow> if d \<le> 0 then fb else d)"

definition deployTimeoutFromEnv :: "environment \<Rightarrow> duration" where
  "deployTimeoutFromEnv getenv = timeout_from getenv ''DEPLOY_TIMEOUT'' (5 * Minute)"

definition bootTimeoutFromEnv :: "environment \<Rightarrow> duration" where
  "bootTimeoutFromEnv getenv = timeout_from getenv ''NODE_BOOT_TIMEOUT'' (3 * Minute)"

definition healthCheckInterval :: duration where "healthCheckInterval = Second"

definition healthCheckAttempts :: "environment \<Rightarrow> int" where
  "healthCheckAttempts getenv = quot (bootTimeoutFromEnv getenv) Second"

lemma envInt_range:
  "in_int64 fb \<Longrightarrow> in_int64 (envInt getenv key fb)"
  by (auto simp: envInt_def Let_def dest: Atoi_range split: option.splits)

lemma envDuration_range:
  "in_int64 fb \<Longrightarrow> in_int64 (envDuration getenv key fb)"
  by (auto simp: envDuration_def Let_def dest: ParseDuration_range split: option.splits)

lemma env_fallbacks:
  "getenv key = [] \<Longrightarrow> envBool getenv key b = b"
  "getenv key = [] \<Longrightarrow> envInt getenv key i = i"
  "getenv key = [] \<Longrightarrow> envDuration getenv key d = d"
  "ParseBool (getenv key) = None \<Longrightarrow> envBool getenv key b = b"
  "Atoi (getenv key) = None \<Longrightarrow> envInt getenv key i = i"
  "ParseDuration (getenv key) = None \<Longrightarrow> envDuration getenv key d = d"
  by (simp_all add: envBool_def envInt_def envDuration_def Let_def)

lemma timeout_from_pos: "0 < fb \<Longrightarrow> 0 < timeout_from getenv key fb"
  by (auto simp: timeout_from_def Let_def split: option.splits)

lemma boot_timeout_pos: "0 < bootTimeoutFromEnv getenv"
  by (simp add: bootTimeoutFromEnv_def timeout_from_pos Minute_def)

lemma healthCheckAttempts_div: "healthCheckAttempts getenv = bootTimeoutFromEnv getenv div Second"
  using boot_timeout_pos [of getenv]
  by (simp add: healthCheckAttempts_def quot_nonneg Second_def)

section \<open>The topology\<close>

definition ChannelsPerRelay :: int where "ChannelsPerRelay = 2"

datatype topology_error =
    NoNodes
  | EmptyID
  | DuplicateID string
  | NoAddress string
  | NoManagerAddress string
  | ChannelRange string int
  | SharedOutlet string string string int
  | LocalCount int
  | NoExecutor

definition relayLabel :: "string \<Rightarrow> string" where
  "relayLabel uid = (if uid = [] then ''<default>'' else uid)"

text \<open>The map \<open>seenID\<close> only ever holds \<open>true\<close>: it is the set of its keys.\<close>

fun check_nodes ::
  "string set \<Rightarrow> (string \<times> int \<rightharpoonup> string) \<Rightarrow> int \<Rightarrow> node list \<Rightarrow> topology_error + int" where
  "check_nodes seenID seenChannel locals [] = Inr locals"
| "check_nodes seenID seenChannel locals (n # ns) =
     (if ID n = [] then Inl EmptyID
      else if ID n \<in> seenID then Inl (DuplicateID (ID n))
      else
        let seenID' = insert (ID n) seenID
        in if Local n then check_nodes seenID' seenChannel (locals + 1) ns
           else if Address n = [] then Inl (NoAddress (ID n))
           else if ManagerAddress n = [] then Inl (NoManagerAddress (ID n))
           else if Channel n < 0 \<or> Channel n \<ge> ChannelsPerRelay
             then Inl (ChannelRange (ID n) (Channel n))
           else
             let rc = (RelayUID n, Channel n)
             in case seenChannel rc of
                  Some other \<Rightarrow> Inl (SharedOutlet other (ID n) (relayLabel (RelayUID n)) (Channel n))
                | None \<Rightarrow> check_nodes seenID' (seenChannel(rc \<mapsto> ID n)) locals ns)"

definition ValidateNodes :: "node list \<Rightarrow> topology_error option" where
  "ValidateNodes nodes =
     (if nodes = [] then Some NoNodes
      else case check_nodes {} Map.empty 0 nodes of
             Inl e \<Rightarrow> Some e
           | Inr locals \<Rightarrow>
               if locals \<noteq> 1 then Some (LocalCount locals)
               else let executors = count_if (\<lambda>n. \<not> DispatchOnly n) nodes
                    in if executors = 0 then Some NoExecutor else None)"

text \<open>
  \<open>LoadNodes\<close>: \<open>data\<close> is what reading the file gives and \<open>unmarshal\<close> is
  \<open>json.Unmarshal\<close> into the list of nodes, with zero values for absent fields.
\<close>

datatype load_error = ReadError string | ParseError string | InvalidTopology topology_error

definition default_status :: "node \<Rightarrow> node" where
  "default_status n =
     (if Status n \<noteq> [] then n
      else if Local n then n\<lparr>Status := NodeActive\<rparr> else n\<lparr>Status := NodeSleeping\<rparr>)"

definition LoadNodes ::
  "string + string \<Rightarrow> (string \<Rightarrow> string + node list) \<Rightarrow> load_error + node list" where
  "LoadNodes data unmarshal =
     (case data of
        Inl e \<Rightarrow> Inl (ReadError e)
      | Inr bytes \<Rightarrow>
          (case unmarshal bytes of
             Inl e \<Rightarrow> Inl (ParseError e)
           | Inr parsed \<Rightarrow>
               let nodes = map default_status parsed
               in case ValidateNodes nodes of
                    Some e \<Rightarrow> Inl (InvalidTopology e)
                  | None \<Rightarrow> Inr nodes))"

section \<open>What a valid topology is\<close>

definition worker_ok :: "node \<Rightarrow> bool" where
  "worker_ok n \<longleftrightarrow> Address n \<noteq> [] \<and> ManagerAddress n \<noteq> [] \<and> Channel n \<in> {0, 1}"

definition workers :: "node list \<Rightarrow> node list" where
  "workers ns = filter (\<lambda>n. \<not> Local n) ns"

definition outlet :: "node \<Rightarrow> string \<times> int" where
  "outlet n = (RelayUID n, Channel n)"

definition valid_topology :: "node list \<Rightarrow> bool" where
  "valid_topology ns \<longleftrightarrow>
     distinct (map ID ns) \<and> [] \<notin> set (map ID ns) \<and>
     list_all worker_ok (workers ns) \<and>
     distinct (map outlet (workers ns)) \<and>
     count_if Local ns = 1 \<and>
     list_ex (\<lambda>n. \<not> DispatchOnly n) ns"

lemma workers_simps [simp]:
  "workers [] = []" "workers (n # ns) = (if Local n then workers ns else n # workers ns)"
  by (simp_all add: workers_def)

text \<open>The loop accepts exactly the lists that are compatible with what it has seen.\<close>

definition compatible ::
  "string set \<Rightarrow> (string \<times> int \<rightharpoonup> string) \<Rightarrow> node list \<Rightarrow> bool" where
  "compatible seenID seenChannel ns \<longleftrightarrow>
     distinct (map ID ns) \<and> (\<forall>n \<in> set ns. ID n \<noteq> [] \<and> ID n \<notin> seenID) \<and>
     list_all worker_ok (workers ns) \<and>
     distinct (map outlet (workers ns)) \<and> (\<forall>n \<in> set (workers ns). seenChannel (outlet n) = None)"

lemma channel_range: "\<not> (c < 0 \<or> c \<ge> ChannelsPerRelay) \<longleftrightarrow> c \<in> {0, 1}"
  by (auto simp: ChannelsPerRelay_def)

lemma compatible_Nil [simp]: "compatible sid sch []"
  by (simp add: compatible_def)

lemma compatible_Cons:
  "compatible sid sch (n # ns) \<longleftrightarrow>
     ID n \<noteq> [] \<and> ID n \<notin> sid \<and>
     (if Local n then compatible (insert (ID n) sid) sch ns
      else worker_ok n \<and> sch (outlet n) = None \<and>
           compatible (insert (ID n) sid) (sch(outlet n \<mapsto> ID n)) ns)"
  by (auto simp: compatible_def image_iff)

lemma check_nodes_iff:
  "check_nodes sid sch l ns = Inr m \<longleftrightarrow> compatible sid sch ns \<and> m = l + count_if Local ns"
proof (induction ns arbitrary: sid sch l)
  case Nil
  then show ?case by auto
next
  case (Cons n ns)
  consider (bad) "ID n = [] \<or> ID n \<in> sid"
    | (leader) "ID n \<noteq> []" "ID n \<notin> sid" "Local n"
    | (worker) "ID n \<noteq> []" "ID n \<notin> sid" "\<not> Local n" by blast
  then show ?case
  proof cases
    case bad
    then show ?thesis by (auto simp: compatible_Cons)
  next
    case leader
    then show ?thesis by (auto simp: compatible_Cons Cons.IH)
  next
    case worker
    then show ?thesis
      using channel_range [of "Channel n"]
      by (auto simp: compatible_Cons Cons.IH worker_ok_def outlet_def Let_def
          fun_upd_def split: option.splits)
  qed
qed

lemma count_if_zero: "count_if P xs = 0 \<longleftrightarrow> \<not> list_ex P xs"
  by (auto simp: count_if_def filter_empty_conv list_ex_iff)

lemma compatible_valid:
  "compatible {} Map.empty ns \<and> count_if Local ns = 1 \<and>
     list_ex (\<lambda>n. \<not> DispatchOnly n) ns \<longleftrightarrow> valid_topology ns"
  by (auto simp: compatible_def valid_topology_def image_iff)

lemma ValidateNodes_iff: "ValidateNodes ns = None \<longleftrightarrow> valid_topology ns"
proof (cases "check_nodes {} Map.empty 0 ns")
  case (Inl e)
  then have "\<not> compatible {} Map.empty ns"
    using check_nodes_iff [of "{}" Map.empty 0 ns "count_if Local ns"] by auto
  with Inl show ?thesis
    using compatible_valid [of ns] by (auto simp: ValidateNodes_def)
next
  case (Inr l)
  then have c: "compatible {} Map.empty ns" "l = count_if Local ns"
    by (auto simp: check_nodes_iff)
  show ?thesis
    using c Inr compatible_valid [of ns]
    by (cases "ns = []") (auto simp: ValidateNodes_def Let_def count_if_zero)
qed

lemma default_status_fields [simp]:
  "ID (default_status n) = ID n" "Address (default_status n) = Address n"
  "ManagerAddress (default_status n) = ManagerAddress n"
  "RelayUID (default_status n) = RelayUID n" "Channel (default_status n) = Channel n"
  "Local (default_status n) = Local n" "DispatchOnly (default_status n) = DispatchOnly n"
  "Load (default_status n) = Load n"
  by (simp_all add: default_status_def)

lemma LoadNodes_Inr:
  "LoadNodes data unmarshal = Inr ns \<longleftrightarrow>
     (\<exists>bytes parsed. data = Inr bytes \<and> unmarshal bytes = Inr parsed \<and>
        ns = map default_status parsed \<and> valid_topology ns)"
  by (auto simp: LoadNodes_def Let_def ValidateNodes_iff [symmetric]
      split: sum.splits option.splits)

end
