(* ===== verification/Go_Base64.thy ===== *)
theory Go_Base64
  imports Go_Std
begin

text \<open>
  \<open>base64.StdEncoding\<close>, which carries a function's archive between the nodes: encoding
  and decoding of byte strings, and the round trip between them.
\<close>

definition b64_char :: "int \<Rightarrow> char" where
  "b64_char v =
     char_of (if v < 26 then 65 + v else if v < 52 then 71 + v else if v < 62 then v - 4
              else if v = 62 then 43 else 47)"

definition b64_val :: "char \<Rightarrow> int option" where
  "b64_val c =
     (let x = of_char c :: int
      in if 65 \<le> x \<and> x \<le> 90 then Some (x - 65)
         else if 97 \<le> x \<and> x \<le> 122 then Some (x - 71)
         else if 48 \<le> x \<and> x \<le> 57 then Some (x + 4)
         else if x = 43 then Some 62 else if x = 47 then Some 63 else None)"

definition byte :: "int \<Rightarrow> char" where "byte x = char_of (x mod 256)"

fun EncodeToString :: "string \<Rightarrow> string" where
  "EncodeToString [] = []"
| "EncodeToString [a] =
     (let n = of_char a * 65536
      in [b64_char (n div 262144), b64_char (n div 4096 mod 64), CHR ''='', CHR ''=''])"
| "EncodeToString [a, b] =
     (let n = of_char a * 65536 + of_char b * 256
      in [b64_char (n div 262144), b64_char (n div 4096 mod 64), b64_char (n div 64 mod 64),
          CHR ''=''])"
| "EncodeToString (a # b # c # rest) =
     (let n = of_char a * 65536 + of_char b * 256 + of_char c
      in b64_char (n div 262144) # b64_char (n div 4096 mod 64) # b64_char (n div 64 mod 64) #
         b64_char (n mod 64) # EncodeToString rest)"

text \<open>
  Decoding skips line breaks, reads four characters at a time, and accepts padding only
  in the last group; the bits that padding cuts off are not checked.
\<close>

fun decode_groups :: "string \<Rightarrow> string option" where
  "decode_groups [] = Some []"
| "decode_groups (a # b # c # d # rest) =
     (case (b64_val a, b64_val b) of
        (Some x, Some y) \<Rightarrow>
          (case b64_val c of
             None \<Rightarrow>
               (if c = CHR ''='' \<and> d = CHR ''='' \<and> rest = []
                then Some [byte ((x * 64 + y) div 16)] else None)
           | Some z \<Rightarrow>
               (case b64_val d of
                  None \<Rightarrow>
                    (if d = CHR ''='' \<and> rest = []
                     then let n = (x * 64 + y) * 64 + z in Some [byte (n div 1024), byte (n div 4)]
                     else None)
                | Some u \<Rightarrow>
                    let n = ((x * 64 + y) * 64 + z) * 64 + u
                    in map_option (\<lambda>r. byte (n div 65536) # byte (n div 256) # byte n # r)
                         (decode_groups rest)))
      | _ \<Rightarrow> None)"
| "decode_groups _ = None"

definition DecodeString :: "string \<Rightarrow> string option" where
  "DecodeString s = decode_groups (filter (\<lambda>c. c \<noteq> char_of (10 :: nat) \<and> c \<noteq> char_of (13 :: nat)) s)"

section \<open>Round trip\<close>

definition line_break :: "char \<Rightarrow> bool" where
  "line_break c \<longleftrightarrow> c = char_of (10 :: nat) \<or> c = char_of (13 :: nat)"

lemma b64_table:
  "list_all (\<lambda>v. b64_val (b64_char v) = Some v \<and> \<not> line_break (b64_char v)) [0..63 :: int]"
  by code_simp

lemma b64_val_char:
  assumes "0 \<le> v" "v < 64"
  shows "b64_val (b64_char v) = Some v" "\<not> line_break (b64_char v)"
proof -
  have "v \<in> set [0..63]" using assms by simp
  then show "b64_val (b64_char v) = Some v" "\<not> line_break (b64_char v)"
    using b64_table unfolding list_all_iff by blast+
qed

lemma pad_char [simp]: "b64_val (CHR ''='') = None" "\<not> line_break (CHR ''='')"
  by code_simp+

lemma of_char_range: "0 \<le> (of_char c :: int)" "(of_char c :: int) < 256"
  by (cases c; simp add: of_char_def horner_sum_simps split: if_splits)+

lemma byte_cong: "x mod 256 = of_char c \<Longrightarrow> byte x = c"
  by (simp add: byte_def)

text \<open>The sextets of a 24-bit number put together again, and its bytes.\<close>

lemma sextets:
  fixes n :: int
  assumes "0 \<le> n" "n < 16777216"
  shows "0 \<le> n div 262144" "n div 262144 < 64"
    and "n div 262144 * 64 + n div 4096 mod 64 = n div 4096"
    and "n div 4096 * 64 + n div 64 mod 64 = n div 64"
    and "n div 64 * 64 + n mod 64 = n"
proof -
  show "0 \<le> n div 262144" "n div 262144 < 64" using assms by linarith+
  have "n div 4096 div 64 = n div 262144" "n div 64 div 64 = n div 4096"
    using zdiv_zmult2_eq [of 64 n 4096] zdiv_zmult2_eq [of 64 n 64] by simp_all
  then show "n div 262144 * 64 + n div 4096 mod 64 = n div 4096"
    and "n div 4096 * 64 + n div 64 mod 64 = n div 64"
    and "n div 64 * 64 + n mod 64 = n"
    by (metis div_mult_mod_eq)+
qed

lemma bytes24:
  fixes a b c :: char and n :: int
  assumes n: "n = of_char a * 65536 + of_char b * 256 + of_char c"
  shows "0 \<le> n" "n < 16777216"
    and "byte (n div 65536) = a" "byte (n div 256) = b" "byte n = c"
proof -
  note r = of_char_range [of a] of_char_range [of b] of_char_range [of c]
  show "0 \<le> n" "n < 16777216" using r n by linarith+
  have "n div 65536 = of_char a"
    by (rule int_div_pos_eq [where r = "of_char b * 256 + of_char c"]) (insert r n, linarith+)
  then show "byte (n div 65536) = a" by (simp add: byte_def)
  have n256: "n = 256 * (256 * of_char a + of_char b) + of_char c"
    using n by simp
  have "n div 256 = 256 * of_char a + of_char b"
    by (rule int_div_pos_eq [OF n256]) (fact r)+
  then show "byte (n div 256) = b" by (simp add: byte_def)
  have "n mod 256 = of_char c"
    by (rule int_mod_pos_eq [OF n256]) (fact r)+
  then show "byte n = c" by (rule byte_cong)
qed

definition groups_ok :: "string \<Rightarrow> string \<Rightarrow> bool" where
  "groups_ok e s \<longleftrightarrow> decode_groups e = Some s \<and> list_all (\<lambda>c. \<not> line_break c) e"

lemma groups_pad2:
  assumes "0 \<le> x" "x < 64" "0 \<le> y" "y < 64" "byte ((x * 64 + y) div 16) = a"
  shows "groups_ok [b64_char x, b64_char y, CHR ''='', CHR ''=''] [a]"
  using assms by (simp add: groups_ok_def b64_val_char)

lemma groups_pad1:
  assumes "0 \<le> x" "x < 64" "0 \<le> y" "y < 64" "0 \<le> z" "z < 64"
    and "byte (((x * 64 + y) * 64 + z) div 1024) = a" "byte (((x * 64 + y) * 64 + z) div 4) = b"
  shows "groups_ok [b64_char x, b64_char y, b64_char z, CHR ''=''] [a, b]"
  using assms by (simp add: groups_ok_def b64_val_char Let_def)

lemma groups_full:
  assumes "0 \<le> x" "x < 64" "0 \<le> y" "y < 64" "0 \<le> z" "z < 64" "0 \<le> u" "u < 64"
    and "((x * 64 + y) * 64 + z) * 64 + u = n"
    and "byte (n div 65536) = a" "byte (n div 256) = b" "byte n = c" "groups_ok e s"
  shows "groups_ok (b64_char x # b64_char y # b64_char z # b64_char u # e) (a # b # c # s)"
  using assms by (simp add: groups_ok_def b64_val_char Let_def)

lemma mod64: "0 \<le> k mod (64 :: int)" "k mod (64 :: int) < 64"
  by simp_all

lemma zero_char: "of_char (CHR 0x00) = (0 :: int)"
  by simp

lemma groups_ok1:
  assumes n: "n = of_char a * 65536"
  shows "groups_ok [b64_char (n div 262144), b64_char (n div 4096 mod 64), CHR ''='', CHR ''=''] [a]"
proof (rule groups_pad2)
  have n': "n = of_char a * 65536 + of_char (CHR 0x00) * 256 + of_char (CHR 0x00)"
    using n zero_char by linarith
  note x = sextets [OF bytes24(1,2) [OF n']]
  show "0 \<le> n div 262144" "n div 262144 < 64" by (fact x)+
  show "byte ((n div 262144 * 64 + n div 4096 mod 64) div 16) = a"
    unfolding x(3) using zdiv_zmult2_eq [of 16 n 4096] bytes24(3) [OF n'] by simp
qed (fact mod64)+

lemma groups_ok2:
  assumes n: "n = of_char a * 65536 + of_char b * 256"
  shows "groups_ok [b64_char (n div 262144), b64_char (n div 4096 mod 64),
      b64_char (n div 64 mod 64), CHR ''=''] [a, b]"
proof (rule groups_pad1)
  have n': "n = of_char a * 65536 + of_char b * 256 + of_char (CHR 0x00)"
    using n zero_char by linarith
  note x = sextets [OF bytes24(1,2) [OF n']]
  show "0 \<le> n div 262144" "n div 262144 < 64" by (fact x)+
  show "byte (((n div 262144 * 64 + n div 4096 mod 64) * 64 + n div 64 mod 64) div 1024) = a"
    unfolding x(3,4) using zdiv_zmult2_eq [of 1024 n 64] bytes24(3) [OF n'] by simp
  show "byte (((n div 262144 * 64 + n div 4096 mod 64) * 64 + n div 64 mod 64) div 4) = b"
    unfolding x(3,4) using zdiv_zmult2_eq [of 4 n 64] bytes24(4) [OF n'] by simp
qed (fact mod64)+

lemma groups_ok3:
  assumes n: "n = of_char a * 65536 + of_char b * 256 + of_char c" and rest: "groups_ok e s"
  shows "groups_ok (b64_char (n div 262144) # b64_char (n div 4096 mod 64) #
      b64_char (n div 64 mod 64) # b64_char (n mod 64) # e) (a # b # c # s)"
proof (rule groups_full)
  note x = sextets [OF bytes24(1,2) [OF n]]
  show "0 \<le> n div 262144" "n div 262144 < 64" by (fact x)+
  show "((n div 262144 * 64 + n div 4096 mod 64) * 64 + n div 64 mod 64) * 64 + n mod 64 = n"
    unfolding x(3,4,5) ..
  show "byte (n div 65536) = a" "byte (n div 256) = b" "byte n = c"
    by (fact bytes24(3-5) [OF n])+
qed (fact mod64 rest)+

lemma groups_ok_Encode: "groups_ok (EncodeToString s) s"
proof (induction s rule: EncodeToString.induct)
  case 1
  show ?case by (simp add: groups_ok_def)
next
  case (2 a)
  show ?case unfolding EncodeToString.simps Let_def
    by (rule groups_ok1) (rule refl)
next
  case (3 a b)
  show ?case unfolding EncodeToString.simps Let_def
    by (rule groups_ok2) (rule refl)
next
  case (4 a b c rest)
  from groups_ok3 [where a = a and b = b and c = c, OF refl 4] show ?case
    by (simp only: EncodeToString.simps Let_def)
qed

lemma DecodeString_EncodeToString: "DecodeString (EncodeToString s) = Some s"
proof -
  have "filter (\<lambda>c. c \<noteq> char_of (10 :: nat) \<and> c \<noteq> char_of (13 :: nat)) (EncodeToString s)
      = EncodeToString s"
    using groups_ok_Encode [of s]
    by (simp add: groups_ok_def list_all_iff line_break_def filter_id_conv)
  then show ?thesis
    using groups_ok_Encode [of s] by (simp add: DecodeString_def groups_ok_def)
qed

end
