(* ===== verification/Manager.thy ===== *)
theory Manager
  imports RProxy Cluster_Config Go_Base64
begin

text \<open>
  \<^verbatim>\<open>pkg/manager/manager.go\<close> (and \<^verbatim>\<open>pkg/util/name.go\<close>): the management service of a node. It
  unpacks and starts functions on a backend, tells the reverse proxy about them, and tears
  down what has not been used for a while. The backend and its handlers are the two
  interfaces of the source; the file system is a record of operations.
\<close>

section \<open>Paths and numbers as strings\<close>

fun show_nat :: "nat \<Rightarrow> string" where
  "show_nat n =
     (if n < 10 then [char_of (48 + n)] else show_nat (n div 10) @ [char_of (48 + n mod 10)])"

declare show_nat.simps [simp del]

definition show_int :: "int \<Rightarrow> string" where
  "show_int i = (if i < 0 then CHR ''-'' # show_nat (nat (- i)) else show_nat (nat i))"

text \<open>
  \<open>path.Join\<close> puts a slash between its non-empty elements and cleans the result: empty
  and \<open>.\<close> elements vanish, \<open>..\<close> removes the element before it.
\<close>

fun split_slash :: "string \<Rightarrow> string list" where
  "split_slash [] = [[]]"
| "split_slash (c # cs) =
     (if c = CHR ''/'' then [] # split_slash cs
      else case split_slash cs of [] \<Rightarrow> [[c]] | x # xs \<Rightarrow> (c # x) # xs)"

fun clean_elems :: "bool \<Rightarrow> string list \<Rightarrow> string list \<Rightarrow> string list" where
  "clean_elems rooted out [] = rev out"
| "clean_elems rooted out (x # xs) =
     (if x = [] \<or> x = ''.'' then clean_elems rooted out xs
      else if x = ''..'' then
        (case out of
           [] \<Rightarrow> clean_elems rooted (if rooted then [] else [''..'']) xs
         | y # ys \<Rightarrow> if y = ''..'' then clean_elems rooted (''..'' # out) xs
                     else clean_elems rooted ys xs)
      else clean_elems rooted (x # out) xs)"

fun join_slash :: "string list \<Rightarrow> string" where
  "join_slash [] = []"
| "join_slash [x] = x"
| "join_slash (x # xs) = x @ ''/'' @ join_slash xs"

definition path_Clean :: "string \<Rightarrow> string" where
  "path_Clean p =
     (if p = [] then ''.''
      else let rooted = (hd p = CHR ''/'');
               q = (if rooted then ''/'' else []) @ join_slash (clean_elems rooted [] (split_slash p))
           in if q = [] then ''.'' else q)"

definition path_Join :: "string \<Rightarrow> string \<Rightarrow> string" where
  "path_Join a b =
     (let xs = filter (\<lambda>x. x \<noteq> []) [a, b] in if xs = [] then [] else path_Clean (join_slash xs))"

section \<open>State and interfaces\<close>

definition TmpDir :: string where "TmpDir = ''./tmp''"

text \<open>A result \<open>None\<close> stands for \<open>nil\<close>, an error for its message.\<close>

record ('h, 'w) backend =
  be_Create :: "string \<Rightarrow> string \<Rightarrow> int \<Rightarrow> string \<Rightarrow> (string \<rightharpoonup> string) \<Rightarrow> 'w \<Rightarrow>
    (string + 'h) call \<times> 'w"
  be_Stop :: "'w \<Rightarrow> string option \<times> 'w"
  be_Ping :: "'w \<Rightarrow> string option \<times> 'w"
  be_RemoveOrphans :: "'w \<Rightarrow> string option call \<times> 'w"
  h_IPs :: "'h \<Rightarrow> 'w \<Rightarrow> string list"
  h_Start :: "'h \<Rightarrow> 'w \<Rightarrow> string option call \<times> 'w"
  h_Destroy :: "'h \<Rightarrow> 'w \<Rightarrow> string option \<times> 'w"
  h_Logs :: "'h \<Rightarrow> 'w \<Rightarrow> (string + string) \<times> 'w"

record 'w files =
  NewUUID :: "'w \<Rightarrow> (string + string) \<times> 'w"
  MkdirAll :: "string \<Rightarrow> 'w \<Rightarrow> string option \<times> 'w"
  WriteFile :: "string \<Rightarrow> string \<Rightarrow> 'w \<Rightarrow> string option \<times> 'w"
  Unzip :: "string \<Rightarrow> string \<Rightarrow> 'w \<Rightarrow> string option \<times> 'w"
  RemoveAll :: "string \<Rightarrow> 'w \<Rightarrow> string option \<times> 'w"
  Remove :: "string \<Rightarrow> 'w \<Rightarrow> string option \<times> 'w"

text \<open>What one run of the service works with: the world, the backend, the file system.\<close>

record ('h, 'w) node_env =
  m_ext :: "'w ext"
  m_be :: "('h, 'w) backend"
  m_fs :: "'w files"

record 'h manager =
  functionHandlers :: "string \<rightharpoonup> 'h"
  rproxyListenAddress :: string
  rproxyPort :: "string \<rightharpoonup> int"
  rproxyConfigPort :: int

definition New_manager :: "string \<Rightarrow> (string \<rightharpoonup> int) \<Rightarrow> int \<Rightarrow> 'h manager" where
  "New_manager addr ports cport =
     \<lparr>functionHandlers = Map.empty, rproxyListenAddress = addr, rproxyPort = ports,
      rproxyConfigPort = cport\<rparr>"

datatype mgr_error =
    NotAlphaNumeric string
  | IoError string
  | BackendError string
  | FunctionNotFound string
  | BadBase64
  | DownloadFailed http_error
  | RProxyUnreachable http_error
  | RProxyStatus int
  | BodyUnread

definition IsAlphaNumeric :: "string \<Rightarrow> bool" where
  "IsAlphaNumeric s \<longleftrightarrow> s \<noteq> [] \<and> list_all (\<lambda>c. is_lower c \<or> is_upper c \<or> is_digit c) s"

section \<open>Telling the reverse proxy\<close>

definition rproxy_url :: "'h manager \<Rightarrow> string" where
  "rproxy_url ms = ''http://'' @ rproxyListenAddress ms @ '':'' @ show_int (rproxyConfigPort ms)"

text \<open>
  The post and the checks behind it, the same code in \<open>createFunction\<close> and \<open>Delete\<close>: an
  \<open>io.EOF\<close> is not returned, so the response that is then read is \<open>nil\<close>.
\<close>

definition tell_rproxy ::
  "'w ext \<Rightarrow> 'h manager \<Rightarrow> http_body \<Rightarrow> 'w \<Rightarrow> mgr_error option call \<times> 'w" where
  "tell_rproxy e ms b w =
     (case HttpPost e (rproxy_url ms) b w of
        (Inl EOF, w1) \<Rightarrow> (Panic NilDereference, w1)
      | (Inl (Transport m), w1) \<Rightarrow> (Return (Some (RProxyUnreachable (Transport m))), w1)
      | (Inr (code, body), w1) \<Rightarrow>
          (Return (if code \<noteq> HTTP_OK then Some (RProxyStatus code)
                   else if body = None then Some BodyUnread else None), w1))"

section \<open>Creating a function\<close>

text \<open>From the lookup of the old handler to the return, under the mutex.\<close>

definition install ::
  "('h, 'w) node_env \<Rightarrow> string \<Rightarrow> string \<Rightarrow> int \<Rightarrow> string \<Rightarrow> string \<Rightarrow> (string \<rightharpoonup> string) \<Rightarrow> 'h manager \<times> 'w \<Rightarrow>
   (mgr_error + string) call \<times> 'h manager \<times> 'w" where
  "install v name fenv threads funczip p envs mw =
     (case mw of (ms, w) \<Rightarrow>
      let oldHandler = functionHandlers ms name
      in case be_Create (m_be v) name fenv threads p envs w of
        (Panic x, w1) \<Rightarrow> (Panic x, ms, w1)
      | (Return (Inl err), w1) \<Rightarrow> (Return (Inl (BackendError err)), ms, w1)
      | (Return (Inr fh), w1) \<Rightarrow>
          let ms1 = ms\<lparr>functionHandlers := (functionHandlers ms)(name \<mapsto> fh)\<rparr>
          in case h_Start (m_be v) fh w1 of
            (Panic x, w2) \<Rightarrow> (Panic x, ms1, w2)
          | (Return (Some err), w2) \<Rightarrow> (Return (Inl (BackendError err)), ms1, w2)
          | (Return None, w2) \<Rightarrow>
              (case tell_rproxy (m_ext v) ms1
                   (ConfigBody \<lparr>rc_name = name, rc_ips = h_IPs (m_be v) fh w2, rc_env = fenv,
                      rc_threads = threads, rc_envs = envs, rc_zip = funczip\<rparr>) w2 of
                 (Panic x, w3) \<Rightarrow> (Panic x, ms1, w3)
               | (Return (Some err), w3) \<Rightarrow> (Return (Inl err), ms1, w3)
               | (Return None, w3) \<Rightarrow>
                   (case oldHandler of
                      None \<Rightarrow> (Return (Inr name), ms1, w3)
                    | Some old \<Rightarrow>
                        (case h_Destroy (m_be v) old w3 of
                           (Some err, w4) \<Rightarrow> (Return (Inl (BackendError err)), ms1, w4)
                         | (None, w4) \<Rightarrow> (Return (Inr name), ms1, w4)))))"

text \<open>The deferred clean-up; its closure reads the variable \<open>p\<close> when it runs.\<close>

definition cleanup :: "'w files \<Rightarrow> string \<Rightarrow> string \<Rightarrow> 'w \<Rightarrow> 'w" where
  "cleanup fs p zipPath w = snd (Remove fs zipPath (snd (RemoveAll fs p w)))"

definition createFunction ::
  "('h, 'w) node_env \<Rightarrow> string \<Rightarrow> string \<Rightarrow> int \<Rightarrow> string \<Rightarrow> string \<Rightarrow> (string \<rightharpoonup> string) \<Rightarrow> 'h manager \<times> 'w \<Rightarrow>
   (mgr_error + string) call \<times> 'h manager \<times> 'w" where
  "createFunction v name fenv threads funczip subfolderPath envs mw =
     (case mw of (ms, w) \<Rightarrow>
      if \<not> IsAlphaNumeric name then (Return (Inl (NotAlphaNumeric name)), ms, w)
      else case NewUUID (m_fs v) w of
        (Inl err, w1) \<Rightarrow> (Return (Inl (IoError err)), ms, w1)
      | (Inr uuid, w1) \<Rightarrow>
        let p = path_Join TmpDir uuid
        in case MkdirAll (m_fs v) p w1 of
          (Some err, w2) \<Rightarrow> (Return (Inl (IoError err)), ms, w2)
        | (None, w2) \<Rightarrow>
          let zipPath = path_Join TmpDir (uuid @ ''.zip'')
          in case WriteFile (m_fs v) zipPath funczip w2 of
            (Some err, w3) \<Rightarrow> (Return (Inl (IoError err)), ms, w3)
          | (None, w3) \<Rightarrow>
            (case Unzip (m_fs v) zipPath p w3 of
              (Some err, w4) \<Rightarrow> (Return (Inl (IoError err)), ms, w4)
            | (None, w4) \<Rightarrow>
              let p' = (if subfolderPath \<noteq> [] then path_Join p subfolderPath else p)
              in case install v name fenv threads funczip p' envs (ms, w4) of
                   (res, ms1, w5) \<Rightarrow> (res, ms1, cleanup (m_fs v) p' zipPath w5)))"

section \<open>The other operations\<close>

definition LogsFunction ::
  "('h, 'w) node_env \<Rightarrow> string \<Rightarrow> 'h manager \<times> 'w \<Rightarrow> (mgr_error + string) \<times> 'w" where
  "LogsFunction v name mw =
     (case mw of (ms, w) \<Rightarrow>
      case functionHandlers ms name of
        None \<Rightarrow> (Inl (FunctionNotFound name), w)
      | Some fh \<Rightarrow> (case h_Logs (m_be v) fh w of
                      (Inl err, w1) \<Rightarrow> (Inl (BackendError err), w1) | (Inr l, w1) \<Rightarrow> (Inr l, w1)))"

text \<open>\<open>ks\<close> is the order in which the range loop meets the functions.\<close>

fun logs_each ::
  "('h, 'w) node_env \<Rightarrow> string list \<Rightarrow> string \<Rightarrow> 'h manager \<times> 'w \<Rightarrow> (mgr_error + string) \<times> 'w" where
  "logs_each v [] logs (ms, w) = (Inr logs, w)"
| "logs_each v (k # ks) logs (ms, w) =
     (if functionHandlers ms k = None then logs_each v ks logs (ms, w)
      else case LogsFunction v k (ms, w) of
             (Inl err, w1) \<Rightarrow> (Inl err, w1)
           | (Inr l, w1) \<Rightarrow> logs_each v ks (logs @ l @ ''\<newline>'') (ms, w1))"

definition Logs :: "('h, 'w) node_env \<Rightarrow> string list \<Rightarrow> 'h manager \<times> 'w \<Rightarrow> (mgr_error + string) \<times> 'w" where
  "Logs v ks mw = logs_each v ks [] mw"

definition List :: "string list \<Rightarrow> 'h manager \<Rightarrow> string list" where
  "List ks ms = map fst (range_items (functionHandlers ms) ks)"

definition Delete ::
  "('h, 'w) node_env \<Rightarrow> string \<Rightarrow> 'h manager \<times> 'w \<Rightarrow> mgr_error option call \<times> 'h manager \<times> 'w" where
  "Delete v name mw =
     (case mw of (ms, w) \<Rightarrow>
      case functionHandlers ms name of
        None \<Rightarrow> (Return (Some (FunctionNotFound name)), ms, w)
      | Some fh \<Rightarrow>
          (case h_Destroy (m_be v) fh w of
             (Some err, w1) \<Rightarrow> (Return (Some (BackendError err)), ms, w1)
           | (None, w1) \<Rightarrow>
               (case tell_rproxy (m_ext v) ms (DeleteBody name) w1 of
                  (Panic x, w2) \<Rightarrow> (Panic x, ms, w2)
                | (Return (Some err), w2) \<Rightarrow> (Return (Some err), ms, w2)
                | (Return None, w2) \<Rightarrow>
                    (Return None, ms\<lparr>functionHandlers := (functionHandlers ms)(name := None)\<rparr>, w2))))"

text \<open>\<open>Wipe\<close> drops the errors of its deletions.\<close>

fun wipe_each ::
  "('h, 'w) node_env \<Rightarrow> string list \<Rightarrow> 'h manager \<times> 'w \<Rightarrow> mgr_error option call \<times> 'h manager \<times> 'w" where
  "wipe_each v [] mw = (Return None, mw)"
| "wipe_each v (k # ks) mw =
     (if functionHandlers (fst mw) k = None then wipe_each v ks mw
      else case Delete v k mw of
             (Panic x, mw1) \<Rightarrow> (Panic x, mw1) | (Return _, mw1) \<Rightarrow> wipe_each v ks mw1)"

definition Wipe ::
  "('h, 'w) node_env \<Rightarrow> string list \<Rightarrow> 'h manager \<times> 'w \<Rightarrow> mgr_error option call \<times> 'h manager \<times> 'w" where
  "Wipe v ks mw = wipe_each v ks mw"

definition endpoints :: "'h manager \<Rightarrow> string list \<Rightarrow> string \<Rightarrow> string" where
  "endpoints ms po n =
     concat (map (\<lambda>(prot, port). prot @ ''://'' @ rproxyListenAddress ms @ '':'' @ show_int port @ ''/'' @
         n @ ''\<newline>'') (range_items (rproxyPort ms) po))"

definition Upload ::
  "('h, 'w) node_env \<Rightarrow> string list \<Rightarrow> string \<Rightarrow> string \<Rightarrow> int \<Rightarrow> string \<Rightarrow> (string \<rightharpoonup> string) \<Rightarrow> 'h manager \<times> 'w \<Rightarrow>
   (mgr_error + string) call \<times> 'h manager \<times> 'w" where
  "Upload v po name fenv threads zipped envs mw =
     (case DecodeString zipped of
        None \<Rightarrow> (Return (Inl BadBase64), mw)
      | Some zdata \<Rightarrow>
          (case createFunction v name fenv threads zdata [] envs mw of
             (Panic x, mw1) \<Rightarrow> (Panic x, mw1)
           | (Return (Inl err), mw1) \<Rightarrow> (Return (Inl err), mw1)
           | (Return (Inr n), mw1) \<Rightarrow> (Return (Inr (endpoints (fst mw1) po n)), mw1)))"

definition UrlUpload ::
  "('h, 'w) node_env \<Rightarrow> string list \<Rightarrow> string \<Rightarrow> string \<Rightarrow> int \<Rightarrow> string \<Rightarrow> string \<Rightarrow> (string \<rightharpoonup> string) \<Rightarrow>
   'h manager \<times> 'w \<Rightarrow> (mgr_error + string) call \<times> 'h manager \<times> 'w" where
  "UrlUpload v po name fenv threads funcurl subfolder envs mw =
     (case mw of (ms, w) \<Rightarrow>
      case HttpGet (m_ext v) funcurl w of
        (Inl err, w1) \<Rightarrow> (Return (Inl (DownloadFailed err)), ms, w1)
      | (Inr (_, None), w1) \<Rightarrow> (Return (Inl BodyUnread), ms, w1)
      | (Inr (_, Some zdata), w1) \<Rightarrow>
          (case createFunction v name fenv threads zdata subfolder envs (ms, w1) of
             (Panic x, mw1) \<Rightarrow> (Panic x, mw1)
           | (Return (Inl err), mw1) \<Rightarrow> (Return (Inl err), mw1)
           | (Return (Inr n), mw1) \<Rightarrow> (Return (Inr (endpoints (fst mw1) po n)), mw1)))"

definition Healthy :: "('h, 'w) node_env \<Rightarrow> 'w \<Rightarrow> string option \<times> 'w" where
  "Healthy v w = be_Ping (m_be v) w"

definition Stop ::
  "('h, 'w) node_env \<Rightarrow> string list \<Rightarrow> 'h manager \<times> 'w \<Rightarrow> mgr_error option call \<times> 'h manager \<times> 'w" where
  "Stop v ks mw =
     (case Wipe v ks mw of
        (Panic x, mw1) \<Rightarrow> (Panic x, mw1)
      | (Return (Some err), mw1) \<Rightarrow> (Return (Some err), mw1)
      | (Return None, ms1, w1) \<Rightarrow>
          (case be_Stop (m_be v) w1 of
             (Some err, w2) \<Rightarrow> (Return (Some (BackendError err)), ms1, w2)
           | (None, w2) \<Rightarrow> (Return None, ms1, w2)))"

section \<open>The reaper\<close>

definition functionIdleTimeout :: "environment \<Rightarrow> duration" where
  "functionIdleTimeout getenv =
     (let fb = 30 * Second;
          v = getenv ''FUNCTION_IDLE_TIMEOUT''
      in if v = [] then fb
         else case ParseDuration v of
                None \<Rightarrow> if v = ''0'' then 0 else fb
              | Some d \<Rightarrow> d)"

definition to_delete :: "duration \<Rightarrow> time \<Rightarrow> (string \<rightharpoonup> time) \<Rightarrow> string list \<Rightarrow> string list" where
  "to_delete idleTimeout now lastUsed ks =
     map fst (filter (\<lambda>(name, t). time_sub now t > idleTimeout) (range_items lastUsed ks))"

fun reap_each ::
  "('h, 'w) node_env \<Rightarrow> string list \<Rightarrow> 'h manager \<times> 'w \<Rightarrow> unit call \<times> 'h manager \<times> 'w" where
  "reap_each v [] mw = (Return (), mw)"
| "reap_each v (name # names) mw =
     (if functionHandlers (fst mw) name = None then reap_each v names mw
      else case Delete v name mw of
             (Panic x, mw1) \<Rightarrow> (Panic x, mw1) | (Return _, mw1) \<Rightarrow> reap_each v names mw1)"

text \<open>
  One round of \<open>StartController\<close>'s loop; \<open>decode\<close> is the JSON decoder, \<open>ks\<close> the order of
  the range loop, and all times of the round are read at one clock value.
\<close>

definition reaper_round ::
  "('h, 'w) node_env \<Rightarrow> duration \<Rightarrow> (string \<Rightarrow> (string \<rightharpoonup> time) option) \<Rightarrow> string list \<Rightarrow> 'h manager \<times> 'w \<Rightarrow>
   unit call \<times> 'h manager \<times> 'w" where
  "reaper_round v idleTimeout decode ks mw =
     (case mw of (ms, w) \<Rightarrow>
      let e = m_ext v; w1 = Sleep e (30 * Second) w
      in if idleTimeout \<le> 0 then (Return (), ms, w1)
         else case HttpGet e (rproxy_url ms @ ''/lastused'') w1 of
           (Inl _, w2) \<Rightarrow> (Return (), ms, w2)
         | (Inr (_, None), w2) \<Rightarrow> (Return (), ms, w2)
         | (Inr (_, Some body), w2) \<Rightarrow>
             (case decode body of
                None \<Rightarrow> (Return (), ms, w2)
              | Some lastUsed \<Rightarrow>
                  reap_each v (to_delete idleTimeout (Now e w2) lastUsed ks) (ms, w2)))"

end
