(* ===== verification/Manager_Facts.thy ===== *)
theory Manager_Facts
  imports Manager
begin

text \<open>
  What the management service's operations do to its table of functions: creation touches
  the named function only, deletion removes it exactly when it succeeds, and the reaper
  removes idle functions only.
\<close>

section \<open>Creation\<close>

lemma install_table:
  assumes "install v name fenv threads z p envs (ms, w) = (res, ms', w')"
  shows "ms' = ms \<or> (\<exists>fh. ms' = ms\<lparr>functionHandlers := (functionHandlers ms)(name \<mapsto> fh)\<rparr>)"
  using assms
  by (auto simp: install_def Let_def split: prod.splits sum.splits option.splits call.splits)

lemma install_success:
  assumes "install v name fenv threads z p envs (ms, w) = (Return (Inr n), ms', w')"
  shows "n = name \<and> (\<exists>fh w1 w2 w3. be_Create (m_be v) name fenv threads p envs w = (Return (Inr fh), w1) \<and>
     h_Start (m_be v) fh w1 = (Return None, w2) \<and>
     ms' = ms\<lparr>functionHandlers := (functionHandlers ms)(name \<mapsto> fh)\<rparr> \<and>
     tell_rproxy (m_ext v) ms' (ConfigBody \<lparr>rc_name = name, rc_ips = h_IPs (m_be v) fh w2,
       rc_env = fenv, rc_threads = threads, rc_envs = envs, rc_zip = z\<rparr>) w2 = (Return None, w3) \<and>
     (case functionHandlers ms name of None \<Rightarrow> w' = w3 | Some old \<Rightarrow> h_Destroy (m_be v) old w3 = (None, w')))"
  using assms
  by (auto simp: install_def Let_def split: prod.splits sum.splits option.splits call.splits)

lemma createFunction_cases:
  assumes "createFunction v name fenv threads z sub envs (ms, w) = (res, ms', w')"
  obtains
    (early) err where "res = Return (Inl err)" "ms' = ms"
  | (ran) p w4 w5 where "IsAlphaNumeric name" "install v name fenv threads z p envs (ms, w4) = (res, ms', w5)"
proof (cases "IsAlphaNumeric name")
  case False
  then show ?thesis using assms early by (auto simp: createFunction_def)
next
  case True
  then show ?thesis
    using assms early ran
    by (auto simp: createFunction_def Let_def split: sum.splits option.splits prod.splits)
qed

text \<open>All names in the table are alphanumeric.\<close>

definition names_ok :: "'h manager \<Rightarrow> bool" where
  "names_ok ms \<longleftrightarrow> (\<forall>name. functionHandlers ms name \<noteq> None \<longrightarrow> IsAlphaNumeric name)"

lemma createFunction_names_ok:
  assumes "createFunction v name fenv threads z sub envs (ms, w) = (res, ms', w')" and "names_ok ms"
  shows "names_ok ms'"
  using assms(1)
proof (cases rule: createFunction_cases)
  case (ran p w4 w5)
  then show ?thesis using install_table [OF ran(2)] assms(2)
    by (auto simp: names_ok_def split: if_splits)
qed (use assms(2) in simp)

lemma createFunction_others:
  assumes "createFunction v name fenv threads z sub envs (ms, w) = (res, ms', w')" and "other \<noteq> name"
  shows "functionHandlers ms' other = functionHandlers ms other"
  using assms(1)
proof (cases rule: createFunction_cases)
  case (ran p w4 w5)
  then show ?thesis using install_table [OF ran(2)] assms(2) by auto
qed simp

text \<open>A start that fails leaves the failed handler in the table, in place of the old one.\<close>

lemma install_start_fails:
  assumes "be_Create (m_be v) name fenv threads p envs w = (Return (Inr fh), w1)"
    and "h_Start (m_be v) fh w1 = (Return (Some err), w2)"
  shows "install v name fenv threads z p envs (ms, w) =
    (Return (Inl (BackendError err)), ms\<lparr>functionHandlers := (functionHandlers ms)(name \<mapsto> fh)\<rparr>, w2)"
  using assms by (simp add: install_def Let_def)

lemma failed_start_forgets_the_old_handler:
  assumes "be_Create (m_be v) name fenv threads p envs w = (Return (Inr fh), w1)"
    and "h_Start (m_be v) fh w1 = (Return (Some err), w2)" and "functionHandlers ms name = Some old" and "fh \<noteq> old"
    and "\<forall>other. other \<noteq> name \<longrightarrow> functionHandlers ms other \<noteq> Some old"
  shows "\<exists>ms'. install v name fenv threads z p envs (ms, w) = (Return (Inl (BackendError err)), ms', w2) \<and>
    functionHandlers ms' name = Some fh \<and> (\<forall>k. functionHandlers ms' k \<noteq> Some old)"
  unfolding install_start_fails [OF assms(1,2)] using assms(4,5) by auto

section \<open>Deletion\<close>

lemma Delete_table:
  assumes "Delete v name (ms, w) = (res, ms', w')"
  shows "ms' = (if res = Return None then ms\<lparr>functionHandlers := (functionHandlers ms)(name := None)\<rparr> else ms)"
  using assms
  by (auto simp: Delete_def split: prod.splits option.splits call.splits)

lemma Delete_panic:
  assumes "Delete v name (ms, w) = (Panic x, ms', w')"
  shows "x = NilDereference \<and> (\<exists>w1. fst (HttpPost (m_ext v) (rproxy_url ms) (DeleteBody name) w1) = Inl EOF)"
  using assms
  by (auto simp: Delete_def tell_rproxy_def
      split: prod.splits option.splits call.splits sum.splits http_error.splits if_splits)
    (metis fst_conv)+

lemma Delete_works:
  assumes "functionHandlers ms name = Some fh" and "h_Destroy (m_be v) fh w = (None, w1)"
    and "HttpPost (m_ext v) (rproxy_url ms) (DeleteBody name) w1 = (Inr (200, Some b), w2)"
  shows "Delete v name (ms, w) =
    (Return None, ms\<lparr>functionHandlers := (functionHandlers ms)(name := None)\<rparr>, w2)"
  using assms by (simp add: Delete_def tell_rproxy_def)

section \<open>Deleting several\<close>

definition shrinks :: "string set \<Rightarrow> 'h manager \<Rightarrow> 'h manager \<Rightarrow> bool" where
  "shrinks S ms ms' \<longleftrightarrow>
     (\<forall>name. functionHandlers ms' name = functionHandlers ms name \<or>
             functionHandlers ms' name = None \<and> name \<in> S)"

lemma shrinks_refl [simp]: "shrinks S ms ms"
  by (simp add: shrinks_def)

lemma shrinks_Delete:
  assumes "Delete v name (ms, w) = (res, ms1, w1)" "shrinks S ms1 ms'"
  shows "shrinks (insert name S) ms ms'"
  using assms(2) unfolding Delete_table [OF assms(1)] shrinks_def by (auto split: if_splits)

lemma reap_each_shrinks:
  "reap_each v names (ms, w) = (res, ms', w') \<Longrightarrow> shrinks (set names) ms ms'"
proof (induction names arbitrary: ms w)
  case Nil
  then show ?case by simp
next
  case (Cons name names)
  show ?case
  proof (cases "functionHandlers ms name")
    case None
    then show ?thesis using Cons unfolding shrinks_def by auto
  next
    case (Some fh)
    obtain x ms1 w1 where d: "Delete v name (ms, w) = (x, ms1, w1)" using prod_cases3 by blast
    have "shrinks (set names) ms1 ms'"
      using Cons Some d by (cases x) auto
    then show ?thesis using shrinks_Delete [OF d] by simp
  qed
qed

lemma wipe_each_shrinks:
  "wipe_each v ks (ms, w) = (res, ms', w') \<Longrightarrow> shrinks (set ks) ms ms'"
proof (induction ks arbitrary: ms w)
  case Nil
  then show ?case by simp
next
  case (Cons k ks)
  show ?case
  proof (cases "functionHandlers ms k")
    case None
    then show ?thesis using Cons unfolding shrinks_def by auto
  next
    case (Some fh)
    obtain x ms1 w1 where d: "Delete v k (ms, w) = (x, ms1, w1)" using prod_cases3 by blast
    have "shrinks (set ks) ms1 ms'"
      using Cons Some d by (cases x) auto
    then show ?thesis using shrinks_Delete [OF d] by simp
  qed
qed

text \<open>A backend and a reverse proxy that do what they are told.\<close>

definition cooperative :: "('h, 'w) node_env \<Rightarrow> bool" where
  "cooperative v \<longleftrightarrow>
     (\<forall>h w. fst (h_Destroy (m_be v) h w) = None) \<and>
     (\<forall>u b w. \<exists>body. fst (HttpPost (m_ext v) u b w) = Inr (200, Some body))"

lemma cooperative_Delete:
  assumes "cooperative v" "functionHandlers ms name = Some fh"
  shows "\<exists>w2. Delete v name (ms, w) =
    (Return None, ms\<lparr>functionHandlers := (functionHandlers ms)(name := None)\<rparr>, w2)"
proof -
  obtain w1 where d: "h_Destroy (m_be v) fh w = (None, w1)"
    using assms(1) unfolding cooperative_def by (metis prod.collapse)
  obtain b w2 where "HttpPost (m_ext v) (rproxy_url ms) (DeleteBody name) w1 = (Inr (200, Some b), w2)"
    using assms(1) unfolding cooperative_def by (metis prod.collapse)
  then show ?thesis using Delete_works [OF assms(2) d] by blast
qed

lemma cooperative_wipe:
  assumes "cooperative v"
  shows "\<exists>ms' w'. wipe_each v ks (ms, w) = (Return None, ms', w') \<and>
    (\<forall>k. functionHandlers ms' k = (if k \<in> set ks then None else functionHandlers ms k))"
proof (induction ks arbitrary: ms w)
  case Nil
  then show ?case by simp
next
  case (Cons k ks)
  show ?case
  proof (cases "functionHandlers ms k")
    case None
    then show ?thesis using Cons.IH [of ms w] by auto
  next
    case (Some fh)
    let ?ms1 = "ms\<lparr>functionHandlers := (functionHandlers ms)(k := None)\<rparr>"
    obtain w2 where "Delete v k (ms, w) = (Return None, ?ms1, w2)"
      using cooperative_Delete [OF assms Some] by blast
    then show ?thesis using Cons.IH [of ?ms1 w2] Some by auto
  qed
qed

lemma wipe_empties_the_table:
  assumes "cooperative v" and "range_order (functionHandlers ms) ks"
  shows "\<exists>ms' w'. Wipe v ks (ms, w) = (Return None, ms', w') \<and> functionHandlers ms' = Map.empty"
proof -
  obtain ms' w' where wipe: "wipe_each v ks (ms, w) = (Return None, ms', w')"
    and tab: "\<forall>k. functionHandlers ms' k = (if k \<in> set ks then None else functionHandlers ms k)"
    using cooperative_wipe [OF assms(1)] by blast
  have "functionHandlers ms' = Map.empty"
    using tab range_order_set [OF assms(2)] by (intro ext) (simp add: domIff)
  with wipe show ?thesis by (simp add: Wipe_def)
qed

section \<open>The reaper\<close>

lemma to_delete_mem:
  "name \<in> set (to_delete d now lu ks) \<longleftrightarrow>
     name \<in> set ks \<and> (\<exists>t. lu name = Some t \<and> d < time_sub now t)"
  by (auto simp: to_delete_def set_range_items image_iff)

lemma reaper_round_table:
  assumes "reaper_round v d decode ks (ms, w) = (res, ms', w')"
  shows "ms' = ms \<or>
    (0 < d \<and> (\<exists>w1 c body w2 lu. HttpGet (m_ext v) (rproxy_url ms @ ''/lastused'') w1 = (Inr (c, Some body), w2) \<and>
       decode body = Some lu \<and> shrinks {name. \<exists>t. lu name = Some t \<and> d < time_sub (Now (m_ext v) w2) t} ms ms'))"
proof (cases "d \<le> 0")
  case True
  then show ?thesis using assms by (simp add: reaper_round_def Let_def)
next
  case False
  let ?e = "m_ext v"
  obtain x w2 where g: "HttpGet ?e (rproxy_url ms @ ''/lastused'') (Sleep ?e (30 * Second) w) = (x, w2)"
    by fastforce
  show ?thesis
  proof (cases "\<exists>c body lu. x = Inr (c, Some body) \<and> decode body = Some lu")
    case True
    then obtain c body lu where x: "x = Inr (c, Some body)" "decode body = Some lu" by blast
    have "reap_each v (to_delete d (Now ?e w2) lu ks) (ms, w2) = (res, ms', w')"
      using assms False g x by (simp add: reaper_round_def Let_def)
    then have "shrinks (set (to_delete d (Now ?e w2) lu ks)) ms ms'"
      by (rule reap_each_shrinks)
    then have "shrinks {name. \<exists>t. lu name = Some t \<and> d < time_sub (Now ?e w2) t} ms ms'"
      unfolding shrinks_def to_delete_mem by blast
    then show ?thesis using g x False by (meson not_le_imp_less)
  next
    case no: False
    then have "ms' = ms"
      using assms False g
      by (auto simp: reaper_round_def Let_def split: sum.splits option.splits prod.splits)
    then show ?thesis by simp
  qed
qed

lemma ParseDuration_zero: "ParseDuration ''0'' = Some 0"
  by (simp add: ParseDuration_def)

text \<open>
  The usage times of the reverse proxy outlive the function: deleting and adding it again
  brings the old time back.
\<close>

lemma lastUsed_survives:
  "functionLastUsed (snd (Add name ips (snd (Del name r)))) = functionLastUsed r"
  by simp

text \<open>
  The idle time-out of functions: an unset variable and an invalid one give thirty
  seconds; the bare zero that the source treats as an invalid duration is a valid one.
\<close>

lemma bare_zero_is_a_duration:
  "ParseDuration ''0'' = Some 0 \<and>
   functionIdleTimeout getenv =
     (case ParseDuration (getenv ''FUNCTION_IDLE_TIMEOUT'') of
        None \<Rightarrow> 30 * Second | Some d \<Rightarrow> d)"
proof -
  have "ParseDuration [] = None" by (simp add: ParseDuration_def)
  then show ?thesis
    using ParseDuration_zero by (auto simp: functionIdleTimeout_def Let_def split: option.splits)
qed

text \<open>
  A reverse proxy that closes the connection without an answer makes a deletion panic
  on a nil response, after the handler has been destroyed and with the function still in
  the table.
\<close>

lemma eof_answer_panics_deletion:
  assumes "functionHandlers ms name = Some fh" and "h_Destroy (m_be v) fh w = (None, w1)"
    and "HttpPost (m_ext v) (rproxy_url ms) (DeleteBody name) w1 = (Inl EOF, w2)"
  shows "Delete v name (ms, w) = (Panic NilDereference, ms, w2)"
  using assms by (simp add: Delete_def tell_rproxy_def)

end
