(* ===== verification/Scheduler.thy ===== *)
theory Scheduler
  imports Cluster_Types
begin

text \<open>
  \<^verbatim>\<open>pkg/cluster/scheduler.go\<close>: \<open>PickNode\<close>, one pass over a snapshot with four
  running candidates, and its specification: the first node of the best class, where
  active nodes compete by load.
\<close>

definition DefaultLoadThreshold :: int where "DefaultLoadThreshold = 10"

section \<open>The scan\<close>

record picks =
  bestActive :: "node option"
  bestIdleActive :: "node option"
  bestSleeping :: "node option"
  fallback :: "node option"

definition no_picks :: picks where
  "no_picks = \<lparr>bestActive = None, bestIdleActive = None, bestSleeping = None, fallback = None\<rparr>"

text \<open>\<open>best == nil || n.Load < best.Load\<close>\<close>

definition improves :: "node \<Rightarrow> node option \<Rightarrow> bool" where
  "improves n best = (case best of None \<Rightarrow> True | Some b \<Rightarrow> Load n < Load b)"

definition pick_step :: "int \<Rightarrow> picks \<Rightarrow> node \<Rightarrow> picks" where
  "pick_step loadThreshold p n =
     (if Status n = NodeDead then p
      else if DispatchOnly n then p
      else if Status n = NodeActive \<and> Load n < loadThreshold
        then (if improves n (bestActive p) then p\<lparr>bestActive := Some n\<rparr> else p)
      else if Status n = NodeActive
        then (if improves n (bestIdleActive p) then p\<lparr>bestIdleActive := Some n\<rparr> else p)
      else if Status n = NodeSleeping
        then (if bestSleeping p = None then p\<lparr>bestSleeping := Some n\<rparr> else p)
      else (if fallback p = None then p\<lparr>fallback := Some n\<rparr> else p))"

definition pick_result :: "picks \<Rightarrow> node \<times> bool" where
  "pick_result p =
     (case bestActive p of Some n \<Rightarrow> (n, True)
      | None \<Rightarrow> (case bestSleeping p of Some n \<Rightarrow> (n, True)
      | None \<Rightarrow> (case bestIdleActive p of Some n \<Rightarrow> (n, True)
      | None \<Rightarrow> (case fallback p of Some n \<Rightarrow> (n, True)
      | None \<Rightarrow> (zero_node, False)))))"

definition PickNode :: "node list \<Rightarrow> int \<Rightarrow> node \<times> bool" where
  "PickNode nodes loadThreshold = pick_result (foldl (pick_step loadThreshold) no_picks nodes)"

section \<open>The specification\<close>

text \<open>The classes of nodes that may be chosen, best first.\<close>

datatype pick_class = Spare | Asleep | Saturated | Transitional

fun class_rank :: "pick_class \<Rightarrow> nat" where
  "class_rank Spare = 0"
| "class_rank Asleep = 1"
| "class_rank Saturated = 2"
| "class_rank Transitional = 3"

lemma class_rank_inj: "class_rank a = class_rank b \<Longrightarrow> a = b"
  by (cases a; cases b) simp_all

instantiation pick_class :: linorder
begin

definition less_eq_pick_class :: "pick_class \<Rightarrow> pick_class \<Rightarrow> bool" where
  "less_eq_pick_class a b \<longleftrightarrow> class_rank a \<le> class_rank b"

definition less_pick_class :: "pick_class \<Rightarrow> pick_class \<Rightarrow> bool" where
  "less_pick_class a b \<longleftrightarrow> class_rank a < class_rank b"

instance
  by standard
    (auto simp: less_eq_pick_class_def less_pick_class_def intro: class_rank_inj)

end

definition eligible :: "node \<Rightarrow> bool" where
  "eligible n \<longleftrightarrow> Status n \<noteq> NodeDead \<and> \<not> DispatchOnly n"

definition class_of :: "int \<Rightarrow> node \<Rightarrow> pick_class" where
  "class_of thr n =
     (if Status n = NodeActive then (if Load n < thr then Spare else Saturated)
      else if Status n = NodeSleeping then Asleep else Transitional)"

definition of_class :: "int \<Rightarrow> pick_class \<Rightarrow> node list \<Rightarrow> node list" where
  "of_class thr c ns = filter (\<lambda>n. eligible n \<and> class_of thr n = c) ns"

text \<open>The first node of least load.\<close>

fun least_loaded :: "node list \<Rightarrow> node option" where
  "least_loaded [] = None"
| "least_loaded (n # ns) =
     (case least_loaded ns of None \<Rightarrow> Some n
      | Some m \<Rightarrow> if Load m < Load n then Some m else Some n)"

definition first_of :: "'a list \<Rightarrow> 'a option" where
  "first_of xs = (case xs of [] \<Rightarrow> None | x # _ \<Rightarrow> Some x)"

definition or_else :: "'a option \<Rightarrow> 'a option \<Rightarrow> 'a option" where
  "or_else a b = (case a of None \<Rightarrow> b | Some x \<Rightarrow> Some x)"

definition pick_spec :: "node list \<Rightarrow> int \<Rightarrow> node option" where
  "pick_spec ns thr =
     or_else (least_loaded (of_class thr Spare ns))
    (or_else (first_of (of_class thr Asleep ns))
    (or_else (least_loaded (of_class thr Saturated ns))
             (first_of (of_class thr Transitional ns))))"

section \<open>The scan meets the specification\<close>

lemma or_else_simps [simp]: "or_else None b = b" "or_else (Some x) b = Some x"
  by (simp_all add: or_else_def)

lemma first_of_simps [simp]: "first_of [] = None" "first_of (x # xs) = Some x"
  by (simp_all add: first_of_def)

lemma first_of_append: "first_of (xs @ ys) = or_else (first_of xs) (first_of ys)"
  by (cases xs) simp_all

lemma least_loaded_snoc:
  "least_loaded (xs @ [n]) =
     (if improves n (least_loaded xs) then Some n else least_loaded xs)"
  by (induction xs) (auto simp: improves_def split: option.splits if_splits)

lemma least_loaded_mem: "least_loaded ns = Some n \<Longrightarrow> n \<in> set ns"
  by (induction ns arbitrary: n) (auto split: option.splits if_splits)

lemma least_loaded_None [simp]: "least_loaded ns = None \<longleftrightarrow> ns = []"
  by (cases ns) (auto split: option.splits)

lemma least_loaded_le:
  "least_loaded ns = Some n \<Longrightarrow> m \<in> set ns \<Longrightarrow> Load n \<le> Load m"
proof (induction ns arbitrary: n)
  case Nil
  then show ?case by simp
next
  case (Cons a ns)
  then show ?case by (fastforce split: option.splits if_splits)
qed

lemma of_class_snoc:
  "of_class thr c (ns @ [n]) =
     of_class thr c ns @ (if eligible n \<and> class_of thr n = c then [n] else [])"
  by (simp add: of_class_def)

text \<open>The four candidates after any prefix of the snapshot.\<close>

definition picks_of :: "int \<Rightarrow> node list \<Rightarrow> picks" where
  "picks_of thr ns =
     \<lparr>bestActive = least_loaded (of_class thr Spare ns),
      bestIdleActive = least_loaded (of_class thr Saturated ns),
      bestSleeping = first_of (of_class thr Asleep ns),
      fallback = first_of (of_class thr Transitional ns)\<rparr>"

lemma pick_step_picks_of: "pick_step thr (picks_of thr ns) n = picks_of thr (ns @ [n])"
  by (cases "first_of (of_class thr Asleep ns)"; cases "first_of (of_class thr Transitional ns)")
    (auto simp: pick_step_def picks_of_def of_class_snoc least_loaded_snoc first_of_append
      eligible_def class_of_def)

lemma scan_picks_of: "foldl (pick_step thr) no_picks ns = picks_of thr ns"
proof (induction ns rule: rev_induct)
  case Nil
  show ?case by (simp add: no_picks_def picks_of_def of_class_def)
next
  case (snoc n ns)
  then show ?case by (simp add: pick_step_picks_of)
qed

lemma result_spec:
  "pick_result (picks_of thr ns) =
     (case pick_spec ns thr of Some n \<Rightarrow> (n, True) | None \<Rightarrow> (zero_node, False))"
  by (auto simp: pick_result_def picks_of_def pick_spec_def split: option.splits)

lemma PickNode_eq_spec:
  "PickNode ns thr =
     (case pick_spec ns thr of Some n \<Rightarrow> (n, True) | None \<Rightarrow> (zero_node, False))"
  by (simp add: PickNode_def scan_picks_of result_spec)

lemma first_of_mem: "first_of xs = Some x \<Longrightarrow> x \<in> set xs"
  by (cases xs) simp_all

lemma first_of_None [simp]: "first_of xs = None \<longleftrightarrow> xs = []"
  by (cases xs) simp_all

lemma of_class_mem: "n \<in> set (of_class thr c ns) \<longleftrightarrow> n \<in> set ns \<and> eligible n \<and> class_of thr n = c"
  by (auto simp: of_class_def)

lemma of_class_empty:
  "of_class thr c ns = [] \<longleftrightarrow> (\<forall>m \<in> set ns. eligible m \<longrightarrow> class_of thr m \<noteq> c)"
  by (auto simp: of_class_def filter_empty_conv)

lemma class_of_cases: "class_of thr n \<in> {Spare, Asleep, Saturated, Transitional}"
  by (simp add: class_of_def)

text \<open>What a pick is: a member, eligible, of the least class, of the least load in it.\<close>

definition best_pick :: "int \<Rightarrow> node list \<Rightarrow> node \<Rightarrow> bool" where
  "best_pick thr ns n \<longleftrightarrow>
     n \<in> set ns \<and> eligible n \<and>
     (\<forall>m \<in> set ns. eligible m \<longrightarrow> class_of thr n \<le> class_of thr m) \<and>
     (Status n = NodeActive \<longrightarrow>
        (\<forall>m \<in> set ns. eligible m \<and> class_of thr m = class_of thr n \<longrightarrow> Load n \<le> Load m))"

lemma class_le_simps [simp]:
  "(Spare :: pick_class) \<le> c" "Asleep \<le> Asleep" "Asleep \<le> Saturated" "Asleep \<le> Transitional"
  "Saturated \<le> Saturated" "Saturated \<le> Transitional" "Transitional \<le> Transitional"
  by (cases c; simp add: less_eq_pick_class_def)+

lemma pick_spec_cases:
  assumes "pick_spec ns thr = Some n"
  obtains
    (spare) "least_loaded (of_class thr Spare ns) = Some n"
  | (asleep) "of_class thr Spare ns = []" "first_of (of_class thr Asleep ns) = Some n"
  | (saturated) "of_class thr Spare ns = []" "of_class thr Asleep ns = []"
      "least_loaded (of_class thr Saturated ns) = Some n"
  | (transitional) "of_class thr Spare ns = []" "of_class thr Asleep ns = []"
      "of_class thr Saturated ns = []" "first_of (of_class thr Transitional ns) = Some n"
  using assms by (auto simp: pick_spec_def or_else_def split: option.splits)

lemma active_class: "Status n = NodeActive \<Longrightarrow> class_of thr n = Spare \<or> class_of thr n = Saturated"
  by (simp add: class_of_def)

lemma asleep_inactive:
  "class_of thr n = Asleep \<Longrightarrow> Status n \<noteq> NodeActive"
  "class_of thr n = Transitional \<Longrightarrow> Status n \<noteq> NodeActive"
  by (auto simp: class_of_def split: if_splits)

lemma class_not_better:
  "c \<noteq> Spare \<Longrightarrow> Asleep \<le> c"
  "c \<noteq> Spare \<Longrightarrow> c \<noteq> Asleep \<Longrightarrow> Saturated \<le> c"
  "c \<noteq> Spare \<Longrightarrow> c \<noteq> Asleep \<Longrightarrow> c \<noteq> Saturated \<Longrightarrow> Transitional \<le> c"
  by (cases c; simp)+

lemma pick_spec_best: "pick_spec ns thr = Some n \<Longrightarrow> best_pick thr ns n"
proof (erule pick_spec_cases)
  assume a: "least_loaded (of_class thr Spare ns) = Some n"
  show ?thesis
    using least_loaded_mem [OF a] least_loaded_le [OF a]
    by (auto simp: best_pick_def of_class_mem)
next
  assume e: "of_class thr Spare ns = []" and a: "first_of (of_class thr Asleep ns) = Some n"
  show ?thesis
    using first_of_mem [OF a] e
    by (auto simp: best_pick_def of_class_mem of_class_empty asleep_inactive
        intro!: class_not_better)
next
  assume e: "of_class thr Spare ns = []" "of_class thr Asleep ns = []"
    and a: "least_loaded (of_class thr Saturated ns) = Some n"
  show ?thesis
    using least_loaded_mem [OF a] least_loaded_le [OF a] e
    by (auto simp: best_pick_def of_class_mem of_class_empty intro!: class_not_better)
next
  assume e: "of_class thr Spare ns = []" "of_class thr Asleep ns = []"
      "of_class thr Saturated ns = []"
    and a: "first_of (of_class thr Transitional ns) = Some n"
  show ?thesis
    using first_of_mem [OF a] e
    by (auto simp: best_pick_def of_class_mem of_class_empty asleep_inactive
        intro!: class_not_better)
qed

lemma pick_spec_None: "pick_spec ns thr = None \<longleftrightarrow> (\<forall>n \<in> set ns. \<not> eligible n)"
proof
  assume "pick_spec ns thr = None"
  then have "of_class thr c ns = []" if "c \<in> {Spare, Asleep, Saturated, Transitional}" for c
    using that by (auto simp: pick_spec_def or_else_def split: option.splits)
  then show "\<forall>n \<in> set ns. \<not> eligible n"
    using class_of_cases by (metis of_class_empty)
next
  assume "\<forall>n \<in> set ns. \<not> eligible n"
  then have "of_class thr c ns = []" for c
    by (simp add: of_class_empty)
  then show "pick_spec ns thr = None"
    by (simp add: pick_spec_def)
qed

end
