(* ===== verification/Relay.thy ===== *)
theory Relay
  imports Cluster_Config
begin

text \<open>
  \<^verbatim>\<open>tinkerforgefunc/main.go\<close>: the controller of the dual relay bricklets. The
  desired position of every relay lives in the controller; the bricklets and the
  connection to them are a record of operations over an arbitrary hardware state. The
  locale \<open>power_controller\<close> is the contract behind the \<open>PowerController\<close> interface of
  \<^verbatim>\<open>pkg/cluster/registry.go\<close>, which this controller provides.
\<close>

section \<open>The contract of a power controller\<close>

text \<open>
  \<open>desired c u ch\<close> is the position the controller last set or adopted for the outlet,
  if it knows one; \<open>canon\<close> resolves the names of a relay.
\<close>

locale power_controller =
  fixes turn_on :: "string \<Rightarrow> int \<Rightarrow> 'c \<Rightarrow> relay_error option \<times> 'c"
    and turn_off :: "string \<Rightarrow> int \<Rightarrow> 'c \<Rightarrow> relay_error option \<times> 'c"
    and desired :: "'c \<Rightarrow> string \<Rightarrow> int \<Rightarrow> bool option"
    and canon :: "string \<Rightarrow> string"
    and invar :: "'c \<Rightarrow> bool"
  assumes on_sets: "invar c \<Longrightarrow> turn_on u ch c = (None, c') \<Longrightarrow> desired c' u ch = Some True"
    and off_sets: "invar c \<Longrightarrow> turn_off u ch c = (None, c') \<Longrightarrow> desired c' u ch = Some False"
    and on_keeps: "invar c \<Longrightarrow> turn_on u ch c = (r, c') \<Longrightarrow>
      r \<noteq> None \<or> (canon u', ch') \<noteq> (canon u, ch) \<Longrightarrow>
      desired c u' ch' = Some b \<Longrightarrow> desired c' u' ch' = Some b"
    and off_keeps: "invar c \<Longrightarrow> turn_off u ch c = (r, c') \<Longrightarrow>
      r \<noteq> None \<or> (canon u', ch') \<noteq> (canon u, ch) \<Longrightarrow>
      desired c u' ch' = Some b \<Longrightarrow> desired c' u' ch' = Some b"
    and on_invar: "invar c \<Longrightarrow> turn_on u ch c = (r, c') \<Longrightarrow> invar c'"
    and off_invar: "invar c \<Longrightarrow> turn_off u ch c = (r, c') \<Longrightarrow> invar c'"
    and desired_canon: "invar c \<Longrightarrow> canon u = canon u' \<Longrightarrow> desired c u ch = desired c u' ch"
begin

lemma on_then_off:
  assumes "invar c" "turn_on u ch c = (None, c1)" "turn_off u' ch' c1 = (None, c2)"
    and "(canon u, ch) \<noteq> (canon u', ch')"
  shows "desired c2 u ch = Some True \<and> desired c2 u' ch' = Some False"
  using assms on_sets [OF assms(1,2)] on_invar [OF assms(1,2)] off_keeps off_sets
  by (metis (no_types, lifting))

lemma off_then_on:
  assumes "invar c" "turn_off u ch c = (None, c1)" "turn_on u' ch' c1 = (None, c2)"
    and "(canon u, ch) \<noteq> (canon u', ch')"
  shows "desired c2 u ch = Some False \<and> desired c2 u' ch' = Some True"
  using assms off_sets [OF assms(1,2)] off_invar [OF assms(1,2)] on_keeps on_sets
  by (metis (no_types, lifting))

end

section \<open>The Tinkerforge controller\<close>

record 'h relay_hw =
  hw_connect :: "string \<Rightarrow> int \<Rightarrow> 'h \<Rightarrow> string option \<times> 'h"
  hw_open :: "string \<Rightarrow> 'h \<Rightarrow> string option \<times> 'h"
  hw_get :: "string \<Rightarrow> 'h \<Rightarrow> (string + bool \<times> bool) \<times> 'h"
  hw_set :: "string \<Rightarrow> bool \<Rightarrow> bool \<Rightarrow> 'h \<Rightarrow> string option \<times> 'h"
  hw_close :: "'h \<Rightarrow> 'h"

text \<open>\<open>[ChannelsPerRelay]bool\<close> is a pair: \<open>ChannelsPerRelay\<close> is 2.\<close>

type_synonym positions = "bool \<times> bool"

record tinkerforge =
  tf_host :: string
  tf_port :: int
  tf_defaultUID :: string
  tf_state :: "string \<rightharpoonup> positions"

definition NewTinkerforgeController :: "string \<Rightarrow> int \<Rightarrow> string \<Rightarrow> tinkerforge" where
  "NewTinkerforgeController h p uid =
     \<lparr>tf_host = h, tf_port = p, tf_defaultUID = uid, tf_state = Map.empty\<rparr>"

definition relayOrDefault :: "string \<Rightarrow> string \<Rightarrow> string" where
  "relayOrDefault uid fb = (if uid = [] then fb else uid)"

definition set_position :: "int \<Rightarrow> bool \<Rightarrow> positions \<Rightarrow> positions" where
  "set_position ch on s = (if ch = 0 then (on, snd s) else (fst s, on))"

definition position :: "int \<Rightarrow> positions \<Rightarrow> bool" where
  "position ch s = (if ch = 0 then fst s else snd s)"

definition withRelay ::
  "'h relay_hw \<Rightarrow> tinkerforge \<Rightarrow> string \<Rightarrow> ('h \<Rightarrow> (relay_error + 'a) \<times> 'h) \<Rightarrow> 'h \<Rightarrow>
   (relay_error + 'a) \<times> 'h" where
  "withRelay hw t relayUID fn h =
     (case hw_connect hw (tf_host t) (tf_port t) h of
        (Some e, h1) \<Rightarrow> (Inl (ConnectFailed (tf_host t) (tf_port t) e), hw_close hw h1)
      | (None, h1) \<Rightarrow>
          (case hw_open hw relayUID h1 of
             (Some e, h2) \<Rightarrow> (Inl (OpenFailed relayUID e), hw_close hw h2)
           | (None, h2) \<Rightarrow> (case fn h2 of (r, h3) \<Rightarrow> (r, hw_close hw h3))))"

definition readState ::
  "'h relay_hw \<Rightarrow> tinkerforge \<Rightarrow> string \<Rightarrow> 'h \<Rightarrow> (relay_error + positions) \<times> 'h" where
  "readState hw t relayUID =
     withRelay hw t relayUID
       (\<lambda>h. case hw_get hw relayUID h of
              (Inl e, h') \<Rightarrow> (Inl (ReadFailed relayUID e), h')
            | (Inr s, h') \<Rightarrow> (Inr s, h'))"

definition writeState ::
  "'h relay_hw \<Rightarrow> tinkerforge \<Rightarrow> string \<Rightarrow> positions \<Rightarrow> 'h \<Rightarrow> (relay_error + unit) \<times> 'h" where
  "writeState hw t relayUID s =
     withRelay hw t relayUID
       (\<lambda>h. case hw_set hw relayUID (fst s) (snd s) h of
              (Some e, h') \<Rightarrow> (Inl (SetFailed relayUID (fst s) (snd s) e), h')
            | (None, h') \<Rightarrow> (Inr (), h'))"

text \<open>
  \<open>setChannel\<close> resolves the relay, checks the channel, adopts the hardware's position on
  first touch, and writes the position with one channel changed; the desired position
  follows only a successful write.
\<close>

definition write_next ::
  "'h relay_hw \<Rightarrow> string \<Rightarrow> int \<Rightarrow> bool \<Rightarrow> positions \<Rightarrow> tinkerforge \<times> 'h \<Rightarrow>
   relay_error option \<times> tinkerforge \<times> 'h" where
  "write_next hw relayUID ch on desired th =
     (case th of (t, h) \<Rightarrow>
        let next = set_position ch on desired
        in case writeState hw t relayUID next h of
             (Inl e, h') \<Rightarrow> (Some e, t, h')
           | (Inr _, h') \<Rightarrow> (None, t\<lparr>tf_state := (tf_state t)(relayUID \<mapsto> next)\<rparr>, h'))"

definition setChannel ::
  "'h relay_hw \<Rightarrow> string \<Rightarrow> int \<Rightarrow> bool \<Rightarrow> tinkerforge \<times> 'h \<Rightarrow>
   relay_error option \<times> tinkerforge \<times> 'h" where
  "setChannel hw uid ch on th =
     (case th of (t, h) \<Rightarrow>
        let relayUID = relayOrDefault uid (tf_defaultUID t)
        in if ch < 0 \<or> ch \<ge> ChannelsPerRelay then (Some (InvalidChannel ch relayUID), t, h)
           else case tf_state t relayUID of
                  Some desired \<Rightarrow> write_next hw relayUID ch on desired (t, h)
                | None \<Rightarrow>
                    (case readState hw t relayUID h of
                       (Inl e, h') \<Rightarrow> (Some e, t, h')
                     | (Inr initial, h') \<Rightarrow>
                         write_next hw relayUID ch on initial
                           (t\<lparr>tf_state := (tf_state t)(relayUID \<mapsto> initial)\<rparr>, h')))"

definition tf_PowerOn ::
  "'h relay_hw \<Rightarrow> string \<Rightarrow> int \<Rightarrow> tinkerforge \<times> 'h \<Rightarrow> relay_error option \<times> tinkerforge \<times> 'h" where
  "tf_PowerOn hw uid ch = setChannel hw uid ch True"

definition tf_PowerOff ::
  "'h relay_hw \<Rightarrow> string \<Rightarrow> int \<Rightarrow> tinkerforge \<times> 'h \<Rightarrow> relay_error option \<times> tinkerforge \<times> 'h" where
  "tf_PowerOff hw uid ch = setChannel hw uid ch False"

section \<open>The controller keeps the contract\<close>

lemma position_set [simp]: "position ch (set_position ch on s) = on"
  by (simp add: position_def set_position_def)

lemma position_other:
  "ch \<in> {0, 1} \<Longrightarrow> ch' \<in> {0, 1} \<Longrightarrow> ch' \<noteq> ch \<Longrightarrow>
     position ch' (set_position ch on s) = position ch' s"
  by (auto simp: position_def set_position_def)

definition tf_desired :: "tinkerforge \<times> 'h \<Rightarrow> string \<Rightarrow> int \<Rightarrow> bool option" where
  "tf_desired th uid ch =
     (if ch \<in> {0, 1}
      then map_option (position ch) (tf_state (fst th) (relayOrDefault uid (tf_defaultUID (fst th))))
      else None)"

definition tf_invar :: "string \<Rightarrow> tinkerforge \<times> 'h \<Rightarrow> bool" where
  "tf_invar d th \<longleftrightarrow> tf_defaultUID (fst th) = d"

definition tf_canon :: "string \<Rightarrow> string \<Rightarrow> string" where
  "tf_canon d uid = relayOrDefault uid d"

text \<open>
  Every outcome of \<open>setChannel\<close>: rejected, unreadable on first touch, or a write of
  \<open>next\<close> from the base position \<open>s0\<close>, which is the recorded one where there is one.
\<close>

lemma setChannel_cases:
  assumes "setChannel hw uid ch on (t, h) = (r, t', h')"
  defines "relayUID \<equiv> relayOrDefault uid (tf_defaultUID t)"
  obtains
    (range) "ch \<notin> {0, 1}" "r = Some (InvalidChannel ch relayUID)" "t' = t" "h' = h"
  | (unread) e where "ch \<in> {0, 1}" "tf_state t relayUID = None" "r = Some e" "t' = t"
      "readState hw t relayUID h = (Inl e, h')"
  | (failed) e s0 t0 h0 where "ch \<in> {0, 1}" "r = Some e"
      "tf_state t relayUID = Some s0 \<and> t0 = t \<and> h0 = h \<or>
       tf_state t relayUID = None \<and> readState hw t relayUID h = (Inr s0, h0)"
      "t0 = t\<lparr>tf_state := (tf_state t)(relayUID \<mapsto> s0)\<rparr>" "t' = t0"
      "writeState hw t0 relayUID (set_position ch on s0) h0 = (Inl e, h')"
  | (written) s0 t0 h0 where "ch \<in> {0, 1}" "r = None"
      "tf_state t relayUID = Some s0 \<and> t0 = t \<and> h0 = h \<or>
       tf_state t relayUID = None \<and> readState hw t relayUID h = (Inr s0, h0)"
      "t0 = t\<lparr>tf_state := (tf_state t)(relayUID \<mapsto> s0)\<rparr>"
      "t' = t\<lparr>tf_state := (tf_state t)(relayUID \<mapsto> set_position ch on s0)\<rparr>"
      "writeState hw t0 relayUID (set_position ch on s0) h0 = (Inr (), h')"
proof (cases "ch \<in> {0, 1}")
  case False
  then have chk: "ch < 0 \<or> ch \<ge> ChannelsPerRelay" using channel_range [of ch] by blast
  show ?thesis
    by (rule range) (use assms(1) chk False in \<open>auto simp: setChannel_def Let_def relayUID_def\<close>)
next
  case in_range: True
  then have chk: "\<not> (ch < 0 \<or> ch \<ge> ChannelsPerRelay)" by (simp only: channel_range)
  show ?thesis
  proof (cases "tf_state t relayUID")
    case (Some s0)
    then have same: "t\<lparr>tf_state := (tf_state t)(relayUID \<mapsto> s0)\<rparr> = t"
      by (cases t) (auto simp: fun_upd_idem)
    obtain w h1 where w: "writeState hw t relayUID (set_position ch on s0) h = (w, h1)"
      by fastforce
    note eqs = assms(1) Some chk same w
    show ?thesis
    proof (cases w)
      case (Inl e)
      show ?thesis
        by (rule failed [of e s0 t h])
          (use eqs Inl in_range in \<open>simp_all add: setChannel_def write_next_def Let_def relayUID_def\<close>)
    next
      case (Inr x)
      show ?thesis
        by (rule written [of s0 t h])
          (use eqs Inr in_range in \<open>simp_all add: setChannel_def write_next_def Let_def relayUID_def\<close>)
    qed
  next
    case None
    obtain v h0 where v: "readState hw t relayUID h = (v, h0)" by fastforce
    show ?thesis
    proof (cases v)
      case (Inl e)
      show ?thesis
        by (rule unread [of e])
          (use assms(1) None in_range chk v Inl in \<open>simp_all add: setChannel_def Let_def relayUID_def\<close>)
    next
      case vr: (Inr s0)
      let ?t0 = "t\<lparr>tf_state := (tf_state t)(relayUID \<mapsto> s0)\<rparr>"
      obtain w h1 where w: "writeState hw ?t0 relayUID (set_position ch on s0) h0 = (w, h1)"
        by fastforce
      note eqs = assms(1) None chk v vr w
      show ?thesis
      proof (cases w)
        case (Inl e)
        show ?thesis
          by (rule failed [of e s0 ?t0 h0])
            (use eqs Inl in_range in \<open>simp_all add: setChannel_def write_next_def Let_def relayUID_def\<close>)
      next
        case (Inr x)
        show ?thesis
          by (rule written [of s0 ?t0 h0])
            (use eqs Inr in_range in \<open>simp_all add: setChannel_def write_next_def Let_def relayUID_def\<close>)
      qed
    qed
  qed
qed

lemma setChannel_sets:
  assumes "setChannel hw uid ch on th = (None, th')"
  shows "tf_desired th' uid ch = Some on"
proof -
  obtain t h t' h' where th: "th = (t, h)" "th' = (t', h')" by (cases th; cases th')
  from assms [unfolded th] show ?thesis
    by (cases rule: setChannel_cases) (auto simp: th tf_desired_def)
qed

lemma tf_desired_update:
  "tf_desired (t\<lparr>tf_state := (tf_state t)(k \<mapsto> s)\<rparr>, h) u ch =
     (if relayOrDefault u (tf_defaultUID t) = k \<and> ch \<in> {0, 1} then Some (position ch s)
      else tf_desired (t, h0) u ch)"
  by (auto simp: tf_desired_def)

lemma tf_desired_Some:
  "tf_desired (t, h) u ch = Some b \<longleftrightarrow>
     ch \<in> {0, 1} \<and> (\<exists>s. tf_state t (relayOrDefault u (tf_defaultUID t)) = Some s \<and> position ch s = b)"
  by (auto simp: tf_desired_def)

lemma setChannel_keeps:
  assumes run: "setChannel hw uid ch on th = (r, th')" and inv: "tf_invar d th"
    and other: "r \<noteq> None \<or> (tf_canon d u', ch') \<noteq> (tf_canon d uid, ch)"
    and known: "tf_desired th u' ch' = Some b"
  shows "tf_desired th' u' ch' = Some b"
proof -
  obtain t h t' h' where th: "th = (t, h)" "th' = (t', h')" by (cases th; cases th')
  have d: "d = tf_defaultUID t" using inv by (simp add: th tf_invar_def)
  let ?k = "relayOrDefault uid (tf_defaultUID t)"
  have known': "tf_desired (t, h) u' ch' = Some b" using known by (simp only: th)
  from run [unfolded th] show ?thesis
  proof (cases rule: setChannel_cases)
    case (failed e s0 t0 h0)
    have "relayOrDefault u' (tf_defaultUID t) = ?k \<Longrightarrow> position ch' s0 = b"
      using failed(3) known' unfolding tf_desired_Some by auto
    then show ?thesis
      using known' failed(4,5) by (simp add: th tf_desired_update [where ?h0.0 = h])
  next
    case (written s0 t0 h0)
    have "ch' \<noteq> ch" if "relayOrDefault u' (tf_defaultUID t) = ?k"
      using other written(2) that by (simp add: tf_canon_def d)
    moreover have "ch' \<in> {0, 1}" using known' unfolding tf_desired_Some by simp
    moreover have "relayOrDefault u' (tf_defaultUID t) = ?k \<Longrightarrow> position ch' s0 = b"
      using written(3) known' unfolding tf_desired_Some by auto
    ultimately show ?thesis
      using known' written(1,5) position_other [of ch ch' on s0]
      by (simp add: th tf_desired_update [where ?h0.0 = h])
  qed (use known' in \<open>simp_all only: th tf_desired_Some\<close>)
qed

lemma setChannel_invar:
  assumes "setChannel hw uid ch on th = (r, th')" and "tf_invar d th"
  shows "tf_invar d th'"
proof -
  obtain t h t' h' where th: "th = (t, h)" "th' = (t', h')" by (cases th; cases th')
  from assms(1) [unfolded th] show ?thesis
    using assms(2) by (cases rule: setChannel_cases) (auto simp: th tf_invar_def)
qed

lemma tf_desired_canon:
  "tf_invar d th \<Longrightarrow> tf_canon d u = tf_canon d u' \<Longrightarrow> tf_desired th u ch = tf_desired th u' ch"
  by (simp add: tf_desired_def tf_invar_def tf_canon_def)

interpretation tf: power_controller
  "tf_PowerOn hw" "tf_PowerOff hw" tf_desired "tf_canon d" "tf_invar d"
  for hw :: "'h relay_hw" and d :: string
  unfolding tf_PowerOn_def tf_PowerOff_def
  by unfold_locales
    (erule setChannel_sets setChannel_keeps setChannel_invar tf_desired_canon; assumption)+

section \<open>The physical relays\<close>

text \<open>
  What the controller relies on of the bricklets: \<open>pos h uid\<close> is the physical position of
  a relay. Connecting, opening, closing and reading move no relay; a read returns the
  position; a successful write puts its relay into the written position and moves no
  other; a failed write moves no other relay.
\<close>

definition hw_laws :: "'h relay_hw \<Rightarrow> ('h \<Rightarrow> string \<Rightarrow> positions) \<Rightarrow> bool" where
  "hw_laws hw pos \<longleftrightarrow>
     (\<forall>a p h. pos (snd (hw_connect hw a p h)) = pos h) \<and>
     (\<forall>u h. pos (snd (hw_open hw u h)) = pos h) \<and>
     (\<forall>u h. pos (snd (hw_get hw u h)) = pos h) \<and>
     (\<forall>u h s. fst (hw_get hw u h) = Inr s \<longrightarrow> s = pos h u) \<and>
     (\<forall>h. pos (hw_close hw h) = pos h) \<and>
     (\<forall>u a b h. fst (hw_set hw u a b h) = None \<longrightarrow> pos (snd (hw_set hw u a b h)) u = (a, b)) \<and>
     (\<forall>u a b h v. v \<noteq> u \<longrightarrow> pos (snd (hw_set hw u a b h)) v = pos h v)"

text \<open>The recorded positions are the physical ones.\<close>

definition synced :: "('h \<Rightarrow> string \<Rightarrow> positions) \<Rightarrow> tinkerforge \<times> 'h \<Rightarrow> bool" where
  "synced pos th \<longleftrightarrow> (\<forall>u s. tf_state (fst th) u = Some s \<longrightarrow> pos (snd th) u = s)"

lemma hw_lawsD:
  assumes "hw_laws hw pos"
  shows "hw_connect hw a p h = (x, h') \<Longrightarrow> pos h' = pos h"
    and "hw_open hw u h = (x, h') \<Longrightarrow> pos h' = pos h"
    and "hw_get hw u h = (y, h') \<Longrightarrow> pos h' = pos h"
    and "hw_get hw u h = (Inr s, h') \<Longrightarrow> s = pos h u"
    and "pos (hw_close hw h) = pos h"
    and "hw_set hw u c0 c1 h = (None, h') \<Longrightarrow> pos h' u = (c0, c1)"
    and "hw_set hw u c0 c1 h = (z, h') \<Longrightarrow> v \<noteq> u \<Longrightarrow> pos h' v = pos h v"
  using assms unfolding hw_laws_def by (metis fst_conv snd_conv)+

lemma withRelay_cases:
  assumes laws: "hw_laws hw pos" and run: "withRelay hw t u fn h = (r, h')"
  obtains
    (early) e where "r = Inl e" "pos h' = pos h"
  | (ran) h2 h3 where "pos h2 = pos h" "fn h2 = (r, h3)" "pos h' = pos h3"
proof -
  obtain c h1 where c: "hw_connect hw (tf_host t) (tf_port t) h = (c, h1)" by fastforce
  obtain b h2 where b: "hw_open hw u h1 = (b, h2)" by fastforce
  obtain x h3 where x: "fn h2 = (x, h3)" by fastforce
  have p: "pos h1 = pos h" "pos h2 = pos h" "pos (hw_close hw h') = pos h'" for h'
    using hw_lawsD(1) [OF laws c] hw_lawsD(2) [OF laws b] hw_lawsD(5) [OF laws] by simp_all
  show ?thesis
    using run c b x p early ran
    by (cases c; cases b) (auto simp: withRelay_def)
qed

lemma readState_pos:
  assumes laws: "hw_laws hw pos" and run: "readState hw t u h = (r, h')"
  shows "pos h' = pos h \<and> (\<forall>s. r = Inr s \<longrightarrow> s = pos h u)"
  using laws run [unfolded readState_def]
proof (cases rule: withRelay_cases)
  case (early e)
  then show ?thesis by simp
next
  case (ran h2 h3)
  then show ?thesis
    using hw_lawsD(3,4) [OF laws, of u h2]
    by (auto split: prod.splits sum.splits)
qed

lemma writeState_pos:
  assumes laws: "hw_laws hw pos" and run: "writeState hw t u s h = (r, h')"
  shows "(v \<noteq> u \<longrightarrow> pos h' v = pos h v) \<and> (r = Inr x \<longrightarrow> pos h' u = s)"
  using laws run [unfolded writeState_def]
proof (cases rule: withRelay_cases)
  case (early e)
  then show ?thesis by simp
next
  case (ran h2 h3)
  then show ?thesis
    using hw_lawsD(6,7) [OF laws, of u "fst s" "snd s" h2]
    by (auto split: prod.splits option.splits)
qed

text \<open>A successful switch moves the physical outlet and no other.\<close>

lemma setChannel_physical:
  assumes laws: "hw_laws hw pos" and sync: "synced pos (t, h)"
    and set: "setChannel hw uid ch on (t, h) = (None, t', h')"
  defines "relayUID \<equiv> relayOrDefault uid (tf_defaultUID t)"
  shows "synced pos (t', h') \<and> pos h' relayUID = set_position ch on (pos h relayUID) \<and>
         (\<forall>v. v \<noteq> relayUID \<longrightarrow> pos h' v = pos h v)"
  using set
proof (cases rule: setChannel_cases)
  case (written s0 t0 h0)
  have base: "s0 = pos h relayUID \<and> pos h0 = pos h"
    using written(3)
  proof (elim disjE conjE)
    assume "tf_state t (relayOrDefault uid (tf_defaultUID t)) = Some s0" "h0 = h"
    then show ?thesis
      using sync unfolding synced_def relayUID_def by (metis fst_conv snd_conv)
  next
    assume "readState hw t (relayOrDefault uid (tf_defaultUID t)) h = (Inr s0, h0)"
    then show ?thesis
      unfolding relayUID_def by (blast dest: readState_pos [OF laws])
  qed
  have new: "pos h' relayUID = set_position ch on s0"
    and other: "v \<noteq> relayUID \<Longrightarrow> pos h' v = pos h0 v" for v
    using writeState_pos [OF laws written(6)] unfolding relayUID_def by blast+
  have "synced pos (t', h')"
    using sync new other base written(5) by (auto simp: synced_def relayUID_def)
  with new other base show ?thesis by simp
qed simp_all

end
