(* ===== verification/Registry.thy ===== *)
theory Registry
  imports Function_Store Relay Go_Base64
begin

text \<open>
  \<^verbatim>\<open>pkg/cluster/registry.go\<close>: the registry of nodes with its operations, the wake
  sequence, recovery of dead nodes, and the deployment of functions to other nodes. Every
  operation takes the world and gives it back; what runs in parallel goroutines there
  (deploys, broadcasts, prewarming) runs here in the order of a range loop. The theory
  \<open>Interleaving\<close> takes the wake sequence apart into its concurrent steps.
\<close>

section \<open>State\<close>

datatype reg_error =
    UnknownNode string
  | ActivateTimeout string
  | PowerOnError string relay_error
  | NodeNotReady string string
  | DeployStuck string int relay_error
  | DeployIncomplete string int
  | LocalNode string
  | PowerOffError string relay_error

text \<open>
  An \<open>*activation\<close> is a reference: \<open>activations\<close> maps a node to the reference of its
  running wake, and \<open>act_err a\<close> is \<open>Some r\<close> once the channel \<open>done\<close> of \<open>a\<close> is closed
  with the result \<open>r\<close>. References are drawn from \<open>next_act\<close>.
\<close>

record registry =
  nodes :: "string \<rightharpoonup> node"
  reg_funcs :: function_store
  activations :: "string \<rightharpoonup> nat"
  act_err :: "nat \<rightharpoonup> reg_error option"
  next_act :: nat

text \<open>
  What the code draws from its surroundings at run time: the number of health checks of a
  wake, and the orders in which the range loops over the function store and over a
  function's environment meet their keys.
\<close>

record params =
  attempts :: int
  func_order :: "string list"
  env_order :: "string \<Rightarrow> string list"

definition NewRegistry :: "function_store \<Rightarrow> registry" where
  "NewRegistry fs =
     \<lparr>nodes = Map.empty, reg_funcs = fs, activations = Map.empty, act_err = Map.empty,
      next_act = 0\<rparr>"

section \<open>Node table\<close>

definition AddNode :: "node \<Rightarrow> registry \<Rightarrow> registry" where
  "AddNode n r = r\<lparr>nodes := (nodes r)(ID n \<mapsto> n)\<rparr>"

definition RemoveNode :: "string \<Rightarrow> registry \<Rightarrow> registry" where
  "RemoveNode i r = r\<lparr>nodes := (nodes r)(i := None)\<rparr>"

definition ListNodes :: "string list \<Rightarrow> registry \<Rightarrow> node list" where
  "ListNodes ks r = range_vals (nodes r) ks"

definition GetNode :: "string \<Rightarrow> registry \<Rightarrow> node \<times> bool" where
  "GetNode i r = (case nodes r i of None \<Rightarrow> (zero_node, False) | Some n \<Rightarrow> (n, True))"

text \<open>\<open>if n, ok := r.nodes[id]; ok\<close> followed by assignments to the node.\<close>

definition modify :: "string \<Rightarrow> (node \<Rightarrow> node) \<Rightarrow> registry \<Rightarrow> registry" where
  "modify i f r =
     (case nodes r i of None \<Rightarrow> r | Some n \<Rightarrow> r\<lparr>nodes := (nodes r)(i \<mapsto> f n)\<rparr>)"

definition IncLoad :: "string \<Rightarrow> registry \<Rightarrow> registry" where
  "IncLoad i = modify i (\<lambda>n. n\<lparr>Load := wrap64 (Load n + 1)\<rparr>)"

definition DecLoad :: "string \<Rightarrow> registry \<Rightarrow> registry" where
  "DecLoad i = modify i (\<lambda>n. if Load n > 0 then n\<lparr>Load := Load n - 1\<rparr> else n)"

definition TouchNode :: "string \<Rightarrow> time \<Rightarrow> registry \<Rightarrow> registry" where
  "TouchNode i now = modify i (\<lambda>n. n\<lparr>LastUsed := now\<rparr>)"

definition SetStatus :: "string \<Rightarrow> node_status \<Rightarrow> time \<Rightarrow> registry \<Rightarrow> registry" where
  "SetStatus i st now =
     modify i (\<lambda>n. n\<lparr>Status := st, DeadSince := (if st = NodeDead then now else 0)\<rparr>)"

section \<open>Health checks\<close>

definition health_url :: "string \<Rightarrow> string" where
  "health_url addr = ''http://'' @ addr @ ''/health''"

definition healthy :: "'w ext \<Rightarrow> string \<Rightarrow> 'w \<Rightarrow> bool \<times> 'w" where
  "healthy e managerAddr w =
     (if managerAddr = [] then (False, w)
      else case HttpGet e (health_url managerAddr) w of
             (Inl _, w') \<Rightarrow> (False, w')
           | (Inr (code, _), w') \<Rightarrow> (code = HTTP_OK, w'))"

fun poll :: "'w ext \<Rightarrow> string \<Rightarrow> nat \<Rightarrow> 'w \<Rightarrow> bool \<times> 'w" where
  "poll e managerAddr 0 w = (False, w)"
| "poll e managerAddr (Suc k) w =
     (case HttpGet e (health_url managerAddr) w of
        (Inr (code, _), w') \<Rightarrow>
          (if code = 200 then (True, w') else poll e managerAddr k (Sleep e healthCheckInterval w'))
      | (Inl _, w') \<Rightarrow> poll e managerAddr k (Sleep e healthCheckInterval w'))"

definition waitForNodeReady :: "'w ext \<Rightarrow> int \<Rightarrow> string \<Rightarrow> 'w \<Rightarrow> bool \<times> 'w" where
  "waitForNodeReady e n managerAddr w = poll e managerAddr (nat n) w"

section \<open>Deploying functions\<close>

datatype deploy_error = PostFailed http_error | Rejected int

definition upload_of :: "string list \<Rightarrow> string \<Rightarrow> function_def \<Rightarrow> upload_request" where
  "upload_of eo name def =
     \<lparr>up_name = name, up_env = fd_env def, up_threads = fd_threads def,
      up_zip = EncodeToString (fd_zip def),
      up_envs = map (\<lambda>(k, v). k @ ''='' @ v) (range_items (fd_envs def) eo)\<rparr>"

definition deployFunction ::
  "'w ext \<Rightarrow> string list \<Rightarrow> string \<Rightarrow> string \<Rightarrow> function_def \<Rightarrow> 'w \<Rightarrow> deploy_error option \<times> 'w" where
  "deployFunction e eo managerAddr name def w =
     (case HttpPost e (''http://'' @ managerAddr @ ''/upload'') (UploadBody (upload_of eo name def)) w of
        (Inl err, w') \<Rightarrow> (Some (PostFailed err), w')
      | (Inr (code, _), w') \<Rightarrow> (if code \<noteq> HTTP_OK then Some (Rejected code) else None, w'))"

definition deleteFunction ::
  "'w ext \<Rightarrow> string \<Rightarrow> string \<Rightarrow> 'w \<Rightarrow> deploy_error option \<times> 'w" where
  "deleteFunction e managerAddr name w =
     (case HttpPost e (''http://'' @ managerAddr @ ''/delete'') (DeleteBody name) w of
        (Inl err, w') \<Rightarrow> (Some (PostFailed err), w')
      | (Inr (code, _), w') \<Rightarrow> (if code \<noteq> HTTP_OK then Some (Rejected code) else None, w'))"

fun deploy_each ::
  "'w ext \<Rightarrow> params \<Rightarrow> string \<Rightarrow> (string \<times> function_def) list \<Rightarrow> int \<Rightarrow> 'w \<Rightarrow> int \<times> 'w" where
  "deploy_each e p managerAddr [] failed w = (failed, w)"
| "deploy_each e p managerAddr ((name, def) # fs) failed w =
     (case deployFunction e (env_order p name) managerAddr name def w of
        (Some _, w') \<Rightarrow> deploy_each e p managerAddr fs (failed + 1) w'
      | (None, w') \<Rightarrow> deploy_each e p managerAddr fs failed w')"

definition deployFunctions ::
  "'w ext \<Rightarrow> params \<Rightarrow> string \<Rightarrow> registry \<Rightarrow> 'w \<Rightarrow> int \<times> 'w" where
  "deployFunctions e p managerAddr r w =
     (let fs = store_All (func_order p) (reg_funcs r)
      in deploy_each e p managerAddr (range_items fs (func_order p)) 0 w)"

fun broadcast_each :: "(node \<Rightarrow> 'w \<Rightarrow> deploy_error option \<times> 'w) \<Rightarrow> node list \<Rightarrow> 'w \<Rightarrow> 'w" where
  "broadcast_each send [] w = w"
| "broadcast_each send (n # ns) w =
     (if Local n \<or> Status n \<noteq> NodeActive then broadcast_each send ns w
      else broadcast_each send ns (snd (send n w)))"

definition BroadcastFunction ::
  "'w ext \<Rightarrow> params \<Rightarrow> string list \<Rightarrow> string \<Rightarrow> function_def \<Rightarrow> registry \<Rightarrow> 'w \<Rightarrow> 'w" where
  "BroadcastFunction e p ks name def r =
     broadcast_each (\<lambda>n. deployFunction e (env_order p name) (ManagerAddress n) name def)
       (ListNodes ks r)"

definition BroadcastDelete ::
  "'w ext \<Rightarrow> string list \<Rightarrow> string \<Rightarrow> registry \<Rightarrow> 'w \<Rightarrow> 'w" where
  "BroadcastDelete e ks name r =
     broadcast_each (\<lambda>n. deleteFunction e (ManagerAddress n) name) (ListNodes ks r)"

section \<open>Waking a node\<close>

definition wakeNode ::
  "'w ext \<Rightarrow> params \<Rightarrow> string \<Rightarrow> string \<Rightarrow> int \<Rightarrow> string \<Rightarrow> registry \<times> 'w \<Rightarrow>
   reg_error option \<times> registry \<times> 'w" where
  "wakeNode e p i relayUID ch managerAddr rw =
     (case rw of (r, w) \<Rightarrow>
      case PowerOn e relayUID ch w of
        (Some err, w1) \<Rightarrow> (Some (PowerOnError i err), SetStatus i NodeDead (Now e w1) r, w1)
      | (None, w1) \<Rightarrow>
          (case waitForNodeReady e (attempts p) managerAddr w1 of
             (False, w2) \<Rightarrow> (Some (NodeNotReady i managerAddr), SetStatus i NodeDead (Now e w2) r, w2)
           | (True, w2) \<Rightarrow>
               (case deployFunctions e p managerAddr r w2 of
                  (failed, w3) \<Rightarrow>
                    if failed > 0 then
                      (case PowerOff e relayUID ch w3 of
                         (Some err, w4) \<Rightarrow>
                           (Some (DeployStuck i failed err), SetStatus i NodeDead (Now e w4) r, w4)
                       | (None, w4) \<Rightarrow>
                           (Some (DeployIncomplete i failed), SetStatus i NodeSleeping (Now e w4) r, w4))
                    else (None, SetStatus i NodeActive (Now e w3) r, w3))))"

text \<open>
  \<open>ActivateNode\<close> begins under the lock: what it finds there decides between the leader of
  a wake, a follower of a running one, and the two immediate answers.
\<close>

datatype begin_result =
    BeginUnknown
  | BeginActive
  | BeginFollow "nat option"
  | BeginLead nat string int string

definition activate_begin :: "string \<Rightarrow> registry \<Rightarrow> begin_result \<times> registry" where
  "activate_begin i r =
     (case nodes r i of
        None \<Rightarrow> (BeginUnknown, r)
      | Some n \<Rightarrow>
          if Status n = NodeActive then (BeginActive, r)
          else if Status n = NodeWaking then (BeginFollow (activations r i), r)
          else let act = next_act r
               in (BeginLead act (RelayUID n) (Channel n) (ManagerAddress n),
                   r\<lparr>activations := (activations r)(i \<mapsto> act), next_act := act + 1,
                     nodes := (nodes r)(i \<mapsto> n\<lparr>Status := NodeWaking\<rparr>)\<rparr>))"

definition activation_delete :: "string \<Rightarrow> registry \<Rightarrow> registry" where
  "activation_delete i r = r\<lparr>activations := (activations r)(i := None)\<rparr>"

definition activation_close :: "nat \<Rightarrow> reg_error option \<Rightarrow> registry \<Rightarrow> registry" where
  "activation_close act err r = r\<lparr>act_err := (act_err r)(act \<mapsto> err)\<rparr>"

text \<open>
  \<open>wait\<close> returns the result once the channel is closed. When nothing else runs, an open
  channel stays open until the safety time-out.
\<close>

definition activation_wait ::
  "'w ext \<Rightarrow> nat \<Rightarrow> string \<Rightarrow> registry \<Rightarrow> 'w \<Rightarrow> reg_error option \<times> 'w" where
  "activation_wait e act i r w =
     (case act_err r act of
        Some res \<Rightarrow> (res, w)
      | None \<Rightarrow> (Some (ActivateTimeout i), Sleep e activationSafetyTimeout w))"

definition ActivateNode ::
  "'w ext \<Rightarrow> params \<Rightarrow> string \<Rightarrow> registry \<times> 'w \<Rightarrow> reg_error option call \<times> registry \<times> 'w" where
  "ActivateNode e p i rw =
     (case rw of (r, w) \<Rightarrow>
      case activate_begin i r of
        (BeginUnknown, r1) \<Rightarrow> (Return (Some (UnknownNode i)), r1, w)
      | (BeginActive, r1) \<Rightarrow> (Return None, r1, w)
      | (BeginFollow None, r1) \<Rightarrow> (Panic NilDereference, r1, w)
      | (BeginFollow (Some act), r1) \<Rightarrow>
          (case activation_wait e act i r1 w of (res, w1) \<Rightarrow> (Return res, r1, w1))
      | (BeginLead act relayUID ch managerAddr, r1) \<Rightarrow>
          (case wakeNode e p i relayUID ch managerAddr (r1, w) of
             (err, r2, w2) \<Rightarrow>
               (Return err, activation_close act err (activation_delete i r2), w2)))"

section \<open>Whole-cluster operations\<close>

text \<open>
  A panic in one of the goroutines of \<open>PrewarmAll\<close> ends the process. The result is the
  number of active nodes that is logged.
\<close>

fun prewarm_each ::
  "'w ext \<Rightarrow> params \<Rightarrow> node list \<Rightarrow> registry \<times> 'w \<Rightarrow> unit call \<times> registry \<times> 'w" where
  "prewarm_each e p [] rw = (Return (), rw)"
| "prewarm_each e p (n # ns) rw =
     (if Local n then prewarm_each e p ns rw
      else case ActivateNode e p (ID n) rw of
             (Panic x, rw') \<Rightarrow> (Panic x, rw')
           | (Return _, rw') \<Rightarrow> prewarm_each e p ns rw')"

definition PrewarmAll ::
  "'w ext \<Rightarrow> params \<Rightarrow> string list \<Rightarrow> registry \<times> 'w \<Rightarrow> int call \<times> registry \<times> 'w" where
  "PrewarmAll e p ks rw =
     (case prewarm_each e p (ListNodes ks (fst rw)) rw of
        (Panic x, rw') \<Rightarrow> (Panic x, rw')
      | (Return _, rw') \<Rightarrow>
          (Return (count_if (\<lambda>n. Status n = NodeActive) (ListNodes ks (fst rw'))), rw'))"

definition recover_step ::
  "'w ext \<Rightarrow> duration \<Rightarrow> registry \<times> 'w \<Rightarrow> node \<Rightarrow> registry \<times> 'w" where
  "recover_step e cooldown rw n =
     (case rw of (r, w) \<Rightarrow>
      if Status n \<noteq> NodeDead then (r, w)
      else case healthy e (ManagerAddress n) w of
             (True, w1) \<Rightarrow> (SetStatus (ID n) NodeActive (Now e w1) r, w1)
           | (False, w1) \<Rightarrow>
               if time_sub (Now e w1) (DeadSince n) \<ge> cooldown
               then (SetStatus (ID n) NodeSleeping (Now e w1) r, w1) else (r, w1))"

definition RecoverDead ::
  "'w ext \<Rightarrow> duration \<Rightarrow> string list \<Rightarrow> registry \<times> 'w \<Rightarrow> registry \<times> 'w" where
  "RecoverDead e cooldown ks rw = foldl (recover_step e cooldown) rw (ListNodes ks (fst rw))"

text \<open>
  \<open>EnforceSleeping\<close> gives back the nodes it logs as not powered off.
\<close>

fun enforce_each :: "'w ext \<Rightarrow> node list \<Rightarrow> 'w \<Rightarrow> string list \<times> 'w" where
  "enforce_each e [] w = ([], w)"
| "enforce_each e (n # ns) w =
     (if Local n \<or> Status n \<noteq> NodeSleeping then enforce_each e ns w
      else case PowerOff e (RelayUID n) (Channel n) w of
             (Some _, w1) \<Rightarrow> (case enforce_each e ns w1 of (bad, w2) \<Rightarrow> (ID n # bad, w2))
           | (None, w1) \<Rightarrow> enforce_each e ns w1)"

definition EnforceSleeping ::
  "'w ext \<Rightarrow> string list \<Rightarrow> registry \<Rightarrow> 'w \<Rightarrow> string list \<times> 'w" where
  "EnforceSleeping e ks r w = enforce_each e (ListNodes ks r) w"

definition DeactivateNode ::
  "'w ext \<Rightarrow> string \<Rightarrow> registry \<times> 'w \<Rightarrow> reg_error option \<times> registry \<times> 'w" where
  "DeactivateNode e i rw =
     (case rw of (r, w) \<Rightarrow>
      case nodes r i of
        None \<Rightarrow> (Some (UnknownNode i), r, w)
      | Some n \<Rightarrow>
          if Local n then (Some (LocalNode i), r, w)
          else case PowerOff e (RelayUID n) (Channel n) w of
                 (Some err, w1) \<Rightarrow> (Some (PowerOffError i err), r, w1)
               | (None, w1) \<Rightarrow> (None, SetStatus i NodeSleeping (Now e w1) r, w1))"

end
