(* ===== verification/Http_Front.thy ===== *)
theory Http_Front
  imports RProxy Scheduler Registry_Facts
begin

text \<open>
  \<^verbatim>\<open>pkg/http/http.go\<close>: the handler of an invocation on the leader. It picks a node, wakes
  it when it must, and either calls the function here or forwards the request, counting
  the request into the node's load while it runs.
\<close>

section \<open>The handler\<close>

text \<open>
  The orders in which its range loops meet the nodes, the request's headers and the
  headers passed on, and the random number of the local call.
\<close>

record choices =
  ch_nodes :: "string list"
  ch_headers :: "string list"
  ch_out :: "string list"
  ch_random :: nat

type_synonym 'w front = "rproxy \<times> registry \<times> 'w"

fun copy_headers :: "(string \<times> string list) list \<Rightarrow> (string \<rightharpoonup> string) \<Rightarrow> (string \<rightharpoonup> string) call" where
  "copy_headers [] h = Return h"
| "copy_headers ((k, v) # kvs) h =
     (case v of [] \<Rightarrow> Panic IndexOutOfRange | x # _ \<Rightarrow> copy_headers kvs (h(k \<mapsto> x)))"

text \<open>\<open>req.Header.Get\<close> gives the first value, or the empty string.\<close>

definition is_async :: "http_request \<Rightarrow> bool" where
  "is_async req =
     (case Header req (CanonicalHeaderKey ''X-tinyFaaS-Async'') of
        None \<Rightarrow> False | Some [] \<Rightarrow> False | Some (v # _) \<Rightarrow> v \<noteq> [])"

definition node_header :: "node \<Rightarrow> (string \<rightharpoonup> string)" where
  "node_header n = header_set ''X-tinyFaaS-Node'' (ID n) Map.empty"

definition serve_local ::
  "'w ext \<Rightarrow> choices \<Rightarrow> node \<Rightarrow> string \<Rightarrow> string \<Rightarrow> bool \<Rightarrow> (string \<rightharpoonup> string) \<Rightarrow> 'w front \<Rightarrow>
   http_response call \<times> 'w front" where
  "serve_local e c n p req_body async headers s =
     (case s of (rp, reg, w) \<Rightarrow>
      case Call e (ch_random c) (ch_out c) p req_body async headers (rp, w) of
        (Panic x, rp1, w1) \<Rightarrow> (Panic x, rp1, reg, w1)
      | (Return (st, res), rp1, w1) \<Rightarrow>
          (let reg1 = (if st = StatusOK \<or> st = StatusAccepted
                       then TouchNode (ID n) (Now e w1) reg else reg)
           in (case st of
                 StatusOK \<Rightarrow> respond HTTP_OK (node_header n) res
               | StatusAccepted \<Rightarrow> respond HTTP_Accepted (node_header n) []
               | StatusNotFound \<Rightarrow> respond HTTP_NotFound (node_header n) []
               | StatusError \<Rightarrow> respond HTTP_InternalServerError (node_header n) [],
               rp1, reg1, w1)))"

definition forward_headers :: "(string \<rightharpoonup> string) \<Rightarrow> string list \<Rightarrow> (string \<rightharpoonup> string)" where
  "forward_headers headers ho = foldl (\<lambda>h (k, v). header_set k v h) Map.empty (range_items headers ho)"

definition forward_url :: "node \<Rightarrow> string \<Rightarrow> string" where
  "forward_url n p = ''http://'' @ Address n @ ''/'' @ p"

definition serve_remote ::
  "'w ext \<Rightarrow> choices \<Rightarrow> node \<Rightarrow> string \<Rightarrow> string \<Rightarrow> (string \<rightharpoonup> string) \<Rightarrow> 'w front \<Rightarrow>
   http_response call \<times> 'w front" where
  "serve_remote e c n p req_body headers s =
     (case s of (rp, reg, w) \<Rightarrow>
      if \<not> ValidURL e (forward_url n p)
      then (respond HTTP_InternalServerError (node_header n) [], rp, reg, w)
      else case HttpPost e (forward_url n p) (CallBody req_body (forward_headers headers (ch_out c))) w of
             (Inl _, w1) \<Rightarrow> (respond HTTP_BadGateway (node_header n) [], rp, reg, w1)
           | (Inr (_, None), w1) \<Rightarrow> (respond HTTP_InternalServerError (node_header n) [], rp, reg, w1)
           | (Inr (code, Some respBody), w1) \<Rightarrow>
               (let reg1 = (if code = HTTP_OK \<or> code = HTTP_Accepted
                            then TouchNode (ID n) (Now e w1) reg else reg)
                in (respond code (node_header n) respBody, rp, reg1, w1)))"

text \<open>\<open>defer reg.DecLoad\<close> runs on every way out, a panic included.\<close>

definition serve ::
  "'w ext \<Rightarrow> params \<Rightarrow> int \<Rightarrow> choices \<Rightarrow> http_request \<Rightarrow> 'w front \<Rightarrow>
   http_response call \<times> 'w front" where
  "serve e p thr c req s =
     (case s of (rp, reg, w) \<Rightarrow>
      let path = strip_slashes (URLPath req);
          async = is_async req
      in case Body req of
        None \<Rightarrow> (respond HTTP_InternalServerError Map.empty [], s)
      | Some req_body \<Rightarrow>
        (case copy_headers (range_items (Header req) (ch_headers c)) Map.empty of
           Panic x \<Rightarrow> (Panic x, s)
         | Return headers \<Rightarrow>
           (case PickNode (ListNodes (ch_nodes c) reg) thr of
              (_, False) \<Rightarrow> (respond HTTP_ServiceUnavailable Map.empty [], s)
            | (node, True) \<Rightarrow>
              (case ActivateNode e p (ID node) (reg, w) of
                 (Panic x, reg1, w1) \<Rightarrow> (Panic x, rp, reg1, w1)
               | (Return (Some _), reg1, w1) \<Rightarrow>
                   (respond HTTP_InternalServerError Map.empty [], rp, reg1, w1)
               | (Return None, reg1, w1) \<Rightarrow>
                   (let s2 = (rp, IncLoad (ID node) reg1, w1)
                    in case (if Local node
                             then serve_local e c node path req_body async headers s2
                             else serve_remote e c node path req_body headers s2) of
                         (out, rp3, reg3, w3) \<Rightarrow> (out, rp3, DecLoad (ID node) reg3, w3))))))"

section \<open>Loads\<close>

text \<open>Between the two counting steps the load of no node changes.\<close>

definition load_of :: "registry \<Rightarrow> string \<Rightarrow> int option" where
  "load_of r i = map_option Load (nodes r i)"

lemma load_of_Touch [simp]: "load_of (TouchNode i t r) j = load_of r j"
  by (cases "nodes r j") (auto simp: load_of_def nodes_TouchNode)

lemma load_of_Inc: "load_of (IncLoad i r) j =
    (if j = i then map_option (\<lambda>l. wrap64 (l + 1)) (load_of r i) else load_of r j)"
  by (cases "nodes r i") (auto simp: load_of_def nodes_IncLoad)

lemma load_of_Dec: "load_of (DecLoad i r) j =
    (if j = i then map_option (\<lambda>l. if l > 0 then l - 1 else l) (load_of r i) else load_of r j)"
  by (cases "nodes r i") (auto simp: load_of_def nodes_DecLoad)

lemma load_of_Activate:
  assumes "ActivateNode e p i (r, w) = (c, r', w')"
  shows "load_of r' = load_of r"
  using ActivateNode_nodes [OF assms] by (auto simp: load_of_def fun_eq_iff)

lemma serve_local_load:
  assumes "serve_local e c n p b a h (rp, r, w) = (out, rp', r', w')"
  shows "load_of r' = load_of r"
  using assms by (auto simp: serve_local_def Let_def fun_eq_iff split: call.splits prod.splits if_splits)

lemma serve_remote_load:
  assumes "serve_remote e c n p b h (rp, r, w) = (out, rp', r', w')"
  shows "load_of r' = load_of r"
  using assms
  by (auto simp: serve_remote_def Let_def fun_eq_iff split: sum.splits option.splits prod.splits if_splits)

text \<open>A load that the counter can hold.\<close>

definition loads_ok :: "registry \<Rightarrow> bool" where
  "loads_ok r \<longleftrightarrow> (\<forall>i l. load_of r i = Some l \<longrightarrow> 0 \<le> l \<and> l < max_int64)"

lemma load_of_Dec_Inc:
  assumes "loads_ok r" "load_of r2 = load_of (IncLoad i r)"
  shows "load_of (DecLoad i r2) = load_of r"
proof
  fix j
  have "in_int64 (l + 1) \<and> 0 \<le> l" if "load_of r i = Some l" for l
    using assms(1) that by (fastforce simp: loads_ok_def in_int64_def min_int64_def)
  then have "\<And>l. load_of r i = Some l \<Longrightarrow> wrap64 (l + 1) = l + 1 \<and> 0 \<le> l" by simp
  then show "load_of (DecLoad i r2) j = load_of r j"
    using assms(2) by (cases "load_of r i") (auto simp: load_of_Dec load_of_Inc)
qed

section \<open>The ways through the handler\<close>

lemma serve_cases:
  assumes "serve e p thr c req (rp, reg, w) = (out, rp', reg', w')"
  obtains
    (body) "Body req = None" "out = Return \<lparr>Code = 500, RespHeader = Map.empty, RespBody = []\<rparr>"
      "rp' = rp" "reg' = reg" "w' = w"
  | (headers) x where "copy_headers (range_items (Header req) (ch_headers c)) Map.empty = Panic x"
      "out = Panic x" "rp' = rp" "reg' = reg" "w' = w"
  | (none) "pick_spec (ListNodes (ch_nodes c) reg) thr = None"
      "out = Return \<lparr>Code = 503, RespHeader = Map.empty, RespBody = []\<rparr>"
      "rp' = rp" "reg' = reg" "w' = w"
  | (panics) n x where "pick_spec (ListNodes (ch_nodes c) reg) thr = Some n"
      "ActivateNode e p (ID n) (reg, w) = (Panic x, reg', w')" "out = Panic x" "rp' = rp"
  | (failed) n x where "pick_spec (ListNodes (ch_nodes c) reg) thr = Some n"
      "ActivateNode e p (ID n) (reg, w) = (Return (Some x), reg', w')"
      "out = Return \<lparr>Code = 500, RespHeader = Map.empty, RespBody = []\<rparr>" "rp' = rp"
  | (here) n b a h reg1 w1 reg3 where "pick_spec (ListNodes (ch_nodes c) reg) thr = Some n" "Local n"
      "ActivateNode e p (ID n) (reg, w) = (Return None, reg1, w1)"
      "serve_local e c n (strip_slashes (URLPath req)) b a h (rp, IncLoad (ID n) reg1, w1) =
         (out, rp', reg3, w')" "reg' = DecLoad (ID n) reg3" "Body req = Some b"
  | (remote) n b h reg1 w1 reg3 where "pick_spec (ListNodes (ch_nodes c) reg) thr = Some n" "\<not> Local n"
      "ActivateNode e p (ID n) (reg, w) = (Return None, reg1, w1)"
      "serve_remote e c n (strip_slashes (URLPath req)) b h (rp, IncLoad (ID n) reg1, w1) =
         (out, rp', reg3, w')" "reg' = DecLoad (ID n) reg3" "Body req = Some b"
proof (cases "Body req")
  case None
  have "out = Return \<lparr>Code = 500, RespHeader = Map.empty, RespBody = []\<rparr> \<and> rp' = rp \<and> reg' = reg \<and> w' = w"
    using assms by (simp add: serve_def Let_def None)
  then show ?thesis using body None by blast
next
  case (Some b)
  note assm = assms [unfolded serve_def Let_def prod.case Some option.case]
  show ?thesis
  proof (cases "copy_headers (range_items (Header req) (ch_headers c)) Map.empty")
    case (Panic x)
    have "out = Panic x \<and> rp' = rp \<and> reg' = reg \<and> w' = w"
      using assm by (simp add: Panic)
    then show ?thesis using headers Panic by blast
  next
    case (Return h)
    note pick = PickNode_eq_spec [of "ListNodes (ch_nodes c) reg" thr]
    note assm1 = assm [unfolded Return call.case pick]
    show ?thesis
    proof (cases "pick_spec (ListNodes (ch_nodes c) reg) thr")
      case None
      have "out = Return \<lparr>Code = 503, RespHeader = Map.empty, RespBody = []\<rparr> \<and> rp' = rp \<and> reg' = reg \<and> w' = w"
        using assm1 by (simp add: None)
      then show ?thesis using none None by blast
    next
      case (Some n)
      obtain x reg1 w1 where act: "ActivateNode e p (ID n) (reg, w) = (x, reg1, w1)"
        using prod_cases3 by blast
      note assm2 = assm1 [unfolded Some option.case prod.case bool.case act]
      show ?thesis
      proof (cases x)
        case (Panic y)
        have "out = Panic y \<and> rp' = rp \<and> reg' = reg1 \<and> w' = w1"
          using assm2 by (simp add: Panic)
        then show ?thesis using panics [OF Some] act Panic by blast
      next
        case (Return y)
        note assm3 = assm2 [unfolded Return call.case]
        show ?thesis
        proof (cases y)
          case None
          show ?thesis
          proof (cases "Local n")
            case True
            show ?thesis
              using assm3 here [OF Some True act [unfolded Return None] _ _ \<open>Body req = Some b\<close>]
              by (simp add: None True split: prod.splits)
          next
            case False
            show ?thesis
              using assm3 remote [OF Some False act [unfolded Return None] _ _ \<open>Body req = Some b\<close>]
              by (simp add: None False split: prod.splits)
          qed
        next
          case (Some z)
          have "out = Return \<lparr>Code = 500, RespHeader = Map.empty, RespBody = []\<rparr> \<and> rp' = rp \<and>
              reg' = reg1 \<and> w' = w1"
            using assm3 by (simp add: Some)
          then show ?thesis using failed [OF \<open>pick_spec _ _ = _\<close>] act Return Some by blast
        qed
      qed
    qed
  qed
qed

lemma serve_load:
  assumes "loads_ok reg" and "serve e p thr c req (rp, reg, w) = (out, rp', reg', w')"
  shows "load_of reg' = load_of reg"
  using assms(2)
proof (cases rule: serve_cases)
  case (panics n x)
  then show ?thesis by (intro load_of_Activate)
next
  case (failed n x)
  then show ?thesis by (intro load_of_Activate)
next
  case (here n b a h reg1 w1 reg3)
  have eq: "load_of reg1 = load_of reg" using load_of_Activate [OF here(3)] .
  have "loads_ok reg1" using assms(1) eq by (simp add: loads_ok_def)
  then show ?thesis using load_of_Dec_Inc serve_local_load [OF here(4)] here(5) eq by simp
next
  case (remote n b h reg1 w1 reg3)
  have eq: "load_of reg1 = load_of reg" using load_of_Activate [OF remote(3)] .
  have "loads_ok reg1" using assms(1) eq by (simp add: loads_ok_def)
  then show ?thesis using load_of_Dec_Inc serve_remote_load [OF remote(4)] remote(5) eq by simp
qed simp_all

section \<open>Usage times\<close>

text \<open>
  A request leaves the usage time of every node alone, or it was answered with 200 or
  202 and it sets the usage time of the node that answered.
\<close>

definition used_of :: "registry \<Rightarrow> string \<Rightarrow> time option" where
  "used_of r i = map_option LastUsed (nodes r i)"

lemma used_of_Load [simp]: "used_of (IncLoad i r) = used_of r" "used_of (DecLoad i r) = used_of r"
proof -
  show "used_of (IncLoad i r) = used_of r"
    by (rule ext, cases "nodes r i") (auto simp: used_of_def nodes_IncLoad)
  show "used_of (DecLoad i r) = used_of r"
    by (rule ext, cases "nodes r i") (auto simp: used_of_def nodes_DecLoad)
qed

lemma used_of_Touch:
  "used_of (TouchNode i t r) j = (if j = i then map_option (\<lambda>_. t) (used_of r i) else used_of r j)"
  by (cases "nodes r i") (auto simp: used_of_def nodes_TouchNode)

lemma used_of_Activate:
  assumes "ActivateNode e p i (r, w) = (c, r', w')"
  shows "used_of r' = used_of r"
  using ActivateNode_nodes [OF assms] by (auto simp: used_of_def fun_eq_iff)

definition success :: "http_response call \<Rightarrow> bool" where
  "success out \<longleftrightarrow> (case out of Return resp \<Rightarrow> Code resp = HTTP_OK \<or> Code resp = HTTP_Accepted | Panic _ \<Rightarrow> False)"

lemma serve_local_used:
  assumes "serve_local e c n p b a h (rp, r, w) = (out, rp', r', w')"
  shows "r' = (if success out then TouchNode (ID n) (Now e w') r else r)"
  using assms
  by (auto simp: serve_local_def success_def Let_def split: call.splits prod.splits status.splits if_splits)

lemma serve_remote_used:
  assumes "serve_remote e c n p b h (rp, r, w) = (out, rp', r', w')"
  shows "r' = (if success out then TouchNode (ID n) (Now e w') r else r)"
  using assms
  by (auto simp: serve_remote_def success_def Let_def respond_def
      split: sum.splits option.splits prod.splits if_splits)

lemma serve_used:
  assumes "serve e p thr c req (rp, reg, w) = (out, rp', reg', w')"
  shows "used_of reg' = used_of reg \<and> \<not> success out \<or>
    (\<exists>n. pick_spec (ListNodes (ch_nodes c) reg) thr = Some n \<and> success out \<and>
       (\<forall>j. used_of reg' j =
          (if j = ID n then map_option (\<lambda>_. Now e w') (used_of reg j) else used_of reg j)))"
  using assms
proof (cases rule: serve_cases)
  case (panics n x)
  then show ?thesis using used_of_Activate [of e p "ID n" reg w] by (simp add: success_def)
next
  case (failed n x)
  then show ?thesis using used_of_Activate [of e p "ID n" reg w] by (simp add: success_def)
next
  case (here n b a h reg1 w1 reg3)
  then show ?thesis
    using used_of_Activate [OF here(3)] serve_local_used [OF here(4)]
    by (cases "success out") (simp_all add: used_of_Touch)
next
  case (remote n b h reg1 w1 reg3)
  then show ?thesis
    using used_of_Activate [OF remote(3)] serve_remote_used [OF remote(4)]
    by (cases "success out") (simp_all add: used_of_Touch)
qed (simp_all add: success_def)

section \<open>Attribution\<close>

text \<open>A response that carries a node's name carries the scheduler's choice.\<close>

lemma serve_local_header:
  assumes "serve_local e c n p b a h (rp, r, w) = (Return resp, s')"
  shows "RespHeader resp = node_header n"
  using assms by (auto simp: serve_local_def Let_def split: call.splits prod.splits status.splits)

lemma serve_remote_header:
  assumes "serve_remote e c n p b h (rp, r, w) = (Return resp, s')"
  shows "RespHeader resp = node_header n"
  using assms
  by (auto simp: serve_remote_def Let_def respond_def split: sum.splits option.splits prod.splits if_splits)

text \<open>
  When no node is eligible, a readable request is answered with 503 and changes
  nothing.
\<close>

lemma no_capacity_is_503:
  assumes "Body req = Some b" and "copy_headers (range_items (Header req) (ch_headers c)) Map.empty = Return h"
    and "list_all (\<lambda>n. \<not> eligible n) (ListNodes (ch_nodes c) reg)"
  shows "serve e p thr c req (rp, reg, w) =
    (Return \<lparr>Code = 503, RespHeader = Map.empty, RespBody = []\<rparr>, rp, reg, w)"
proof -
  have "pick_spec (ListNodes (ch_nodes c) reg) thr = None"
    using assms(3) by (simp add: pick_spec_None list_all_iff)
  then show ?thesis by (simp add: serve_def Let_def assms(1,2) PickNode_eq_spec)
qed

end
