(* ===== verification/Power_Agreement.thy ===== *)
theory Power_Agreement
  imports Registry_Facts
begin

text \<open>
  Recorded statuses against relays: in any world whose power controller keeps the
  contract of \<open>Relay\<close>, and whose network and clock leave the relays alone, waking and
  powering down nodes keeps every active worker switched on and every sleeping worker
  switched off. The leader's own world (the Tinkerforge controller and a network) is an
  instance, so the results hold of the program's relay controller.
\<close>

section \<open>Agreement\<close>

definition agrees_at :: "('w \<Rightarrow> string \<Rightarrow> int \<Rightarrow> bool option) \<Rightarrow> 'w \<Rightarrow> node \<Rightarrow> bool" where
  "agrees_at desired w n \<longleftrightarrow>
     Local n \<or>
     (Status n = NodeActive \<longrightarrow> desired w (RelayUID n) (Channel n) = Some True) \<and>
     (Status n = NodeSleeping \<longrightarrow> desired w (RelayUID n) (Channel n) = Some False)"

definition agrees :: "('w \<Rightarrow> string \<Rightarrow> int \<Rightarrow> bool option) \<Rightarrow> registry \<times> 'w \<Rightarrow> bool" where
  "agrees desired rw \<longleftrightarrow> (\<forall>i n. nodes (fst rw) i = Some n \<longrightarrow> agrees_at desired (snd rw) n)"

text \<open>Different workers hang on different outlets, and the leader is up.\<close>

definition separate :: "(string \<Rightarrow> string) \<Rightarrow> registry \<Rightarrow> bool" where
  "separate canon r \<longleftrightarrow>
     (\<forall>i j n m. nodes r i = Some n \<longrightarrow> nodes r j = Some m \<longrightarrow> \<not> Local n \<longrightarrow> \<not> Local m \<longrightarrow> i \<noteq> j \<longrightarrow>
        (canon (RelayUID n), Channel n) \<noteq> (canon (RelayUID m), Channel m))"

definition leader_up :: "registry \<Rightarrow> bool" where
  "leader_up r \<longleftrightarrow> (\<forall>i n. nodes r i = Some n \<longrightarrow> Local n \<longrightarrow> Status n = NodeActive)"

text \<open>Two registries with the same wiring: they differ in statuses, loads and times only.\<close>

definition wiring :: "node \<Rightarrow> string \<times> int \<times> bool" where
  "wiring n = (RelayUID n, Channel n, Local n)"

definition same_wiring :: "registry \<Rightarrow> registry \<Rightarrow> bool" where
  "same_wiring r r' \<longleftrightarrow> (\<forall>i. map_option wiring (nodes r' i) = map_option wiring (nodes r i))"

lemma same_wiring_upd:
  "nodes r i = Some n \<Longrightarrow> nodes r' = (nodes r)(i \<mapsto> n') \<Longrightarrow> wiring n' = wiring n \<Longrightarrow> same_wiring r r'"
  by (simp add: same_wiring_def)

lemma same_wiring_nodes: "nodes r' = nodes r \<Longrightarrow> same_wiring r r'"
  by (simp add: same_wiring_def)

lemma same_wiring_modify:
  "(\<And>n. wiring (f n) = wiring n) \<Longrightarrow> same_wiring r (modify i f r)"
  by (simp add: same_wiring_def nodes_modify option.map_comp comp_def)

lemma same_wiring_trans: "same_wiring r r' \<Longrightarrow> same_wiring r' r'' \<Longrightarrow> same_wiring r r''"
  by (simp add: same_wiring_def)

lemma same_wiringD:
  assumes "same_wiring r r'" and "nodes r' i = Some n'"
  obtains n where "nodes r i = Some n" "RelayUID n' = RelayUID n" "Channel n' = Channel n"
    "Local n' = Local n"
proof -
  have "Some (wiring n') = map_option wiring (nodes r i)"
    using assms unfolding same_wiring_def by (metis option.simps(9))
  then show ?thesis using that by (cases "nodes r i") (auto simp: wiring_def)
qed

lemma separate_wiring:
  assumes same: "same_wiring r r'" and sep: "separate canon r"
  shows "separate canon r'"
  unfolding separate_def
proof (intro allI impI)
  fix i j n m
  assume n: "nodes r' i = Some n" "\<not> Local n" and m: "nodes r' j = Some m" "\<not> Local m"
    and ij: "i \<noteq> j"
  obtain n0 where n0: "nodes r i = Some n0" "RelayUID n = RelayUID n0" "Channel n = Channel n0"
    "Local n = Local n0" by (rule same_wiringD [OF same n(1)])
  obtain m0 where m0: "nodes r j = Some m0" "RelayUID m = RelayUID m0" "Channel m = Channel m0"
    "Local m = Local m0" by (rule same_wiringD [OF same m(1)])
  have "(canon (RelayUID n0), Channel n0) \<noteq> (canon (RelayUID m0), Channel m0)"
    using sep n(2) m(2) n0 m0 ij unfolding separate_def by blast
  then show "(canon (RelayUID n), Channel n) \<noteq> (canon (RelayUID m), Channel m)"
    by (simp add: n0 m0)
qed

section \<open>Worlds with a power controller\<close>

locale power_world = power_controller "PowerOn e" "PowerOff e" desired canon invar
  for e :: "'w ext" and desired canon invar +
  assumes get_frame: "HttpGet e u w = (x, w') \<Longrightarrow> desired w' = desired w \<and> (invar w \<longrightarrow> invar w')"
    and post_frame: "HttpPost e u b w = (x, w') \<Longrightarrow> desired w' = desired w \<and> (invar w \<longrightarrow> invar w')"
    and sleep_frame: "desired (Sleep e d w) = desired w \<and> (invar w \<longrightarrow> invar (Sleep e d w))"
begin

definition quiet :: "'w \<Rightarrow> 'w \<Rightarrow> bool" where
  "quiet w w' \<longleftrightarrow> desired w' = desired w \<and> (invar w \<longrightarrow> invar w')"

lemma quiet_refl [simp]: "quiet w w"
  by (simp add: quiet_def)

lemma quiet_trans: "quiet w w' \<Longrightarrow> quiet w' w'' \<Longrightarrow> quiet w w''"
  by (simp add: quiet_def)

lemma quiet_steps:
  "HttpGet e u w = (x, w') \<Longrightarrow> quiet w w'"
  "HttpPost e u b w = (x, w') \<Longrightarrow> quiet w w'"
  "quiet w (Sleep e d w)"
  using get_frame post_frame sleep_frame by (auto simp: quiet_def)

lemma quiet_sleep: "quiet w x \<Longrightarrow> quiet (Sleep e d x) w' \<Longrightarrow> quiet w w'"
  using quiet_trans quiet_steps(3) by blast

lemma healthy_quiet: "healthy e a w = (x, w') \<Longrightarrow> quiet w w'"
  by (auto simp: healthy_def split: if_splits prod.splits sum.splits dest: quiet_steps(1))

lemma poll_quiet: "poll e a k w = (x, w') \<Longrightarrow> quiet w w'"
proof (induction k arbitrary: w)
  case 0
  then show ?case by simp
next
  case (Suc k)
  then show ?case
    by (auto split: prod.splits sum.splits if_splits dest!: quiet_steps(1) Suc.IH
        intro: quiet_sleep)
qed

lemma ready_quiet: "waitForNodeReady e k a w = (x, w') \<Longrightarrow> quiet w w'"
  by (simp add: waitForNodeReady_def poll_quiet)

lemma deploy_each_quiet: "deploy_each e p a fs k w = (x, w') \<Longrightarrow> quiet w w'"
proof (induction fs arbitrary: k w)
  case Nil
  then show ?case by simp
next
  case (Cons f fs)
  then show ?case
    by (cases f) (auto simp: deployFunction_def split: prod.splits option.splits sum.splits if_splits
        dest!: Cons.IH quiet_steps(2) intro: quiet_trans)
qed

lemma deploy_quiet: "deployFunctions e p a r w = (x, w') \<Longrightarrow> quiet w w'"
  by (simp add: deployFunctions_def Let_def deploy_each_quiet)

text \<open>What a switch of one outlet leaves alone.\<close>

definition others_kept :: "string \<Rightarrow> int \<Rightarrow> 'w \<Rightarrow> 'w \<Rightarrow> bool" where
  "others_kept u ch w w' \<longleftrightarrow>
     (\<forall>u' ch' b. (canon u', ch') \<noteq> (canon u, ch) \<longrightarrow> desired w u' ch' = Some b \<longrightarrow>
        desired w' u' ch' = Some b)"

lemma others_kept_trans:
  "others_kept u ch w w' \<Longrightarrow> others_kept u ch w' w'' \<Longrightarrow> others_kept u ch w w''"
  by (simp add: others_kept_def)

lemma others_kept_quiet: "quiet w w' \<Longrightarrow> others_kept u ch w w'"
  by (simp add: others_kept_def quiet_def)

lemma others_kept_switch:
  "invar w \<Longrightarrow> PowerOn e u ch w = (x, w') \<Longrightarrow> others_kept u ch w w'"
  "invar w \<Longrightarrow> PowerOff e u ch w = (x, w') \<Longrightarrow> others_kept u ch w w'"
  unfolding others_kept_def using on_keeps off_keeps by blast+

text \<open>The relay of a node after its wake, by the status it ends with.\<close>

lemma wakeNode_relay:
  assumes inv: "invar w" and run: "wakeNode e p i u ch a (r, w) = (err, r', w')"
  shows "invar w' \<and> others_kept u ch w w' \<and>
    (status_after err = NodeActive \<longrightarrow> desired w' u ch = Some True) \<and>
    (status_after err = NodeSleeping \<longrightarrow> desired w' u ch = Some False)"
proof -
  obtain x1 w1 where on: "PowerOn e u ch w = (x1, w1)" by fastforce
  have i1: "invar w1" and k1: "others_kept u ch w w1"
    using on_invar [OF inv on] others_kept_switch(1) [OF inv on] by auto
  show ?thesis
  proof (cases x1)
    case (Some x)
    then show ?thesis using run on i1 k1 by (auto simp: wakeNode_def)
  next
    case None
    have d1: "desired w1 u ch = Some True" using on_sets [OF inv] on None by blast
    obtain b w2 where rd: "waitForNodeReady e (attempts p) a w1 = (b, w2)" by fastforce
    note q2 = ready_quiet [OF rd]
    obtain m w3 where dp: "deployFunctions e p a r w2 = (m, w3)" by fastforce
    note q3 = quiet_trans [OF q2 deploy_quiet [OF dp]]
    obtain x4 w4 where off: "PowerOff e u ch w3 = (x4, w4)" by fastforce
    have i3: "invar w3" using q3 i1 by (simp add: quiet_def)
    have k2: "others_kept u ch w w2" "others_kept u ch w w3"
      using others_kept_trans [OF k1] others_kept_quiet q2 q3 by blast+
    have k4: "others_kept u ch w w4"
      using others_kept_trans [OF k2(2)] others_kept_switch(2) [OF i3 off] by blast
    have i4: "invar w4" and d4: "x4 = None \<Longrightarrow> desired w4 u ch = Some False"
      using off_invar [OF i3 off] off_sets [OF i3] off by auto
    show ?thesis
      using run on None rd dp off i1 i3 i4 k2 k4 d1 d4 q2 q3
      by (cases b; cases "m > 0"; cases x4) (auto simp: wakeNode_def quiet_def)
  qed
qed

lemma agrees_switch:
  assumes ag: "agrees desired (r, w)" and sep: "separate canon r"
    and n: "nodes r i = Some n" "\<not> Local n"
    and r': "nodes r' = (nodes r)(i \<mapsto> n')" "wiring n' = wiring n"
    and at: "agrees_at desired w' n'"
    and kept: "others_kept (RelayUID n) (Channel n) w w'"
  shows "agrees desired (r', w')"
  unfolding agrees_def
proof (intro allI impI, unfold fst_conv snd_conv)
  fix j m
  assume m: "nodes r' j = Some m"
  show "agrees_at desired w' m"
  proof (cases "j = i")
    case True
    then show ?thesis using m r'(1) at by simp
  next
    case False
    then have mr: "nodes r j = Some m" using m r'(1) by simp
    show ?thesis
    proof (cases "Local m")
      case True
      then show ?thesis by (simp add: agrees_at_def)
    next
      case remote: False
      have "(canon (RelayUID m), Channel m) \<noteq> (canon (RelayUID n), Channel n)"
        using sep mr n False remote unfolding separate_def by metis
      then have keep: "desired w (RelayUID m) (Channel m) = Some b \<Longrightarrow>
          desired w' (RelayUID m) (Channel m) = Some b" for b
        using kept unfolding others_kept_def by blast
      have "agrees_at desired w m" using ag mr unfolding agrees_def by simp
      with keep show ?thesis by (auto simp: agrees_at_def)
    qed
  qed
qed

definition settled :: "registry \<times> 'w \<Rightarrow> bool" where
  "settled rw \<longleftrightarrow> agrees desired rw \<and> separate canon (fst rw) \<and> leader_up (fst rw) \<and> invar (snd rw)"

lemma agrees_keep:
  assumes ag: "agrees desired (r, w)"
    and kept: "\<And>u ch b. desired w u ch = Some b \<Longrightarrow> desired w' u ch = Some b"
    and same: "\<And>j m. nodes r' j = Some m \<Longrightarrow>
      \<exists>k. nodes r j = Some k \<and> wiring m = wiring k \<and> Status m = Status k"
  shows "agrees desired (r', w')"
  unfolding agrees_def
proof (intro allI impI, unfold fst_conv snd_conv)
  fix j m
  assume "nodes r' j = Some m"
  then obtain k where k: "nodes r j = Some k" "wiring m = wiring k" "Status m = Status k"
    using same by blast
  then have "agrees_at desired w k" using ag unfolding agrees_def by simp
  then show "agrees_at desired w' m"
    using k(2,3) kept by (auto simp: agrees_at_def wiring_def)
qed

lemma settled_modify:
  assumes "settled (r, w)" and "\<And>n. wiring (f n) = wiring n" and "\<And>n. Status (f n) = Status n"
  shows "settled (modify i f r, w)"
proof -
  have n: "nodes (modify i f r) j = Some m \<Longrightarrow>
      \<exists>k. nodes r j = Some k \<and> wiring m = wiring k \<and> Status m = Status k" for j m
    using assms(2,3) by (auto simp: nodes_modify split: if_splits)
  have "leader_up (modify i f r)"
    using assms(1) n unfolding settled_def leader_up_def wiring_def by fastforce
  moreover have "agrees desired (modify i f r, w)"
    using agrees_keep [OF _ _ n, of w w] assms(1) by (simp add: settled_def)
  ultimately show ?thesis
    using assms(1) separate_wiring [OF same_wiring_modify [OF assms(2)]]
    by (simp add: settled_def)
qed

lemma settled_quiet: "settled (r, w) \<Longrightarrow> quiet w w' \<Longrightarrow> settled (r, w')"
  by (simp add: settled_def quiet_def agrees_def agrees_at_def)

lemma settled_ActivateNode:
  assumes st: "settled (r, w)" and run: "ActivateNode e p i (r, w) = (c, r', w')"
  shows "settled (r', w')"
  using activate_begin_cases [of r i]
proof cases
  case (lead n r1)
  have remote: "\<not> Local n" using st lead(1,2) by (auto simp: settled_def leader_up_def)
  obtain err r2 w2 where wk:
    "wakeNode e p i (RelayUID n) (Channel n) (ManagerAddress n) (r1, w) = (err, r2, w2)"
    using prod_cases3 by blast
  have w2: "w' = w2" and c: "c = Return err"
    using ActivateNode_lead [OF lead(1-3), of e p w] wk run lead(4) by auto
  obtain err' t where c': "c = Return err'" and
    nd: "nodes r' = (nodes r)(i \<mapsto> n\<lparr>Status := status_after err',
           DeadSince := (if status_after err' = NodeDead then t else 0)\<rparr>)"
    using ActivateNode_lead_result [OF lead(1-3) run] by blast
  have err': "err' = err" using c c' by simp
  have iw: "invar w" using st by (simp add: settled_def)
  note rel = wakeNode_relay [OF iw wk]
  have "agrees desired (r', w')"
    by (rule agrees_switch [where w = w, OF _ _ lead(1) remote nd])
      (use st rel w2 err' in \<open>simp_all add: settled_def wiring_def agrees_at_def\<close>)
  moreover have "separate canon r'"
    by (rule separate_wiring [OF same_wiring_upd [OF lead(1) nd]])
      (use st in \<open>simp_all add: wiring_def settled_def\<close>)
  moreover have "leader_up r'"
    using st nd remote by (auto simp: settled_def leader_up_def split: if_splits)
  ultimately show ?thesis using rel w2 by (simp add: settled_def)
next
  case (follow n)
  then show ?thesis
    using run st settled_quiet [OF st] quiet_steps(3)
    by (auto simp: ActivateNode_def activation_wait_def split: option.splits)
qed (use run st in \<open>auto simp: ActivateNode_def\<close>)

lemma settled_DeactivateNode:
  assumes st: "settled (r, w)" and run: "DeactivateNode e i (r, w) = (c, r', w')"
  shows "settled (r', w')"
proof (cases "nodes r i")
  case None
  then show ?thesis using run st by (simp add: DeactivateNode_def)
next
  case (Some n)
  show ?thesis
  proof (cases "Local n")
    case True
    then show ?thesis using run st Some by (simp add: DeactivateNode_def)
  next
    case remote: False
    have iw: "invar w" using st by (simp add: settled_def)
    obtain x w1 where off: "PowerOff e (RelayUID n) (Channel n) w = (x, w1)" by fastforce
    note k = others_kept_switch(2) [OF iw off] and i1 = off_invar [OF iw off]
    show ?thesis
    proof (cases x)
      case (Some err)
      have "desired w u ch = Some b \<Longrightarrow> desired w1 u ch = Some b" for u ch b
        using off_keeps [OF iw off] Some by blast
      then have "agrees desired (r, w1)"
        using agrees_keep [of r w w1 r] st by (simp add: settled_def)
      then show ?thesis
        using run st \<open>nodes r i = Some n\<close> remote off Some i1
        by (simp add: DeactivateNode_def settled_def)
    next
      case None
      let ?n' = "n\<lparr>Status := NodeSleeping, DeadSince := 0\<rparr>"
      have r': "r' = SetStatus i NodeSleeping (Now e w1) r" and w': "w' = w1"
        using run \<open>nodes r i = Some n\<close> remote off None by (auto simp: DeactivateNode_def)
      have nd: "nodes r' = (nodes r)(i \<mapsto> ?n')"
        unfolding r' using \<open>nodes r i = Some n\<close> by (auto simp: nodes_SetStatus)
      have d: "desired w1 (RelayUID n) (Channel n) = Some False"
        using off_sets [OF iw] off None by blast
      have "agrees desired (r', w')"
        by (rule agrees_switch [where w = w, OF _ _ \<open>nodes r i = Some n\<close> remote nd])
          (use st d k w' in \<open>simp_all add: settled_def wiring_def agrees_at_def\<close>)
      moreover have "separate canon r'"
        by (rule separate_wiring [OF same_wiring_upd [OF \<open>nodes r i = Some n\<close> nd]])
          (use st in \<open>simp_all add: wiring_def settled_def\<close>)
      moreover have "leader_up r'"
        using st nd remote by (auto simp: settled_def leader_up_def split: if_splits)
      ultimately show ?thesis using i1 w' by (simp add: settled_def)
    qed
  qed
qed

text \<open>Opening the relays at start-up.\<close>

lemma off_stays_off:
  assumes "invar w" and "PowerOff e u ch w = (x, w')" and "desired w u' ch' = Some False"
  shows "desired w' u' ch' = Some False"
proof (cases "x = None \<and> (canon u', ch') = (canon u, ch)")
  case True
  then have "desired w' u ch = Some False" using off_sets [OF assms(1)] assms(2) by blast
  then show ?thesis
    using True desired_canon [OF off_invar [OF assms(1,2)], of u' u ch] by simp
next
  case False
  then show ?thesis using off_keeps [OF assms(1,2)] assms(3) by blast
qed

lemma enforce_each_keeps:
  assumes "invar w" and "enforce_each e ns w = (bad, w')"
  shows "invar w' \<and> (desired w u ch = Some False \<longrightarrow> desired w' u ch = Some False)"
  using assms
proof (induction ns arbitrary: w bad)
  case Nil
  then show ?case by simp
next
  case (Cons n ns)
  show ?case
  proof (cases "Local n \<or> Status n \<noteq> NodeSleeping")
    case True
    then show ?thesis using Cons by simp
  next
    case False
    obtain x w1 where off: "PowerOff e (RelayUID n) (Channel n) w = (x, w1)" by fastforce
    obtain bad' w2 where rec: "enforce_each e ns w1 = (bad', w2)" by fastforce
    have "w' = w2" using Cons.prems(2) False off rec by (cases x) auto
    with rec have "enforce_each e ns w1 = (bad', w')" by simp
    with Cons.IH [OF off_invar [OF Cons.prems(1) off]] off_stays_off [OF Cons.prems(1) off]
    show ?thesis by blast
  qed
qed

lemma enforce_each_off:
  assumes "invar w" and "enforce_each e ns w = (bad, w')"
    and "n \<in> set ns" "\<not> Local n" "Status n = NodeSleeping" "ID n \<notin> set bad"
  shows "desired w' (RelayUID n) (Channel n) = Some False"
  using assms(1-3,6)
proof (induction ns arbitrary: w bad)
  case Nil
  then show ?case by simp
next
  case (Cons m ns)
  show ?case
  proof (cases "Local m \<or> Status m \<noteq> NodeSleeping")
    case True
    then have "m \<noteq> n" using assms(4,5) by auto
    then show ?thesis using Cons True by auto
  next
    case False
    obtain x w1 where off: "PowerOff e (RelayUID m) (Channel m) w = (x, w1)" by fastforce
    obtain bad' w2 where rec: "enforce_each e ns w1 = (bad', w2)" by fastforce
    note i1 = off_invar [OF Cons.prems(1) off]
    have w2: "w' = w2" and bad: "set bad' \<subseteq> set bad" "x \<noteq> None \<Longrightarrow> ID m \<in> set bad"
      using Cons.prems(2) False off rec by (cases x; auto)+
    note rec' = rec [folded w2]
    show ?thesis
    proof (cases "n \<in> set ns")
      case True
      then show ?thesis using Cons.IH [OF i1 rec'] Cons.prems(4) bad by blast
    next
      case False
      then have m: "m = n" using Cons.prems(3) by simp
      then have "x = None" using bad(2) Cons.prems(4) by blast
      then have "desired w1 (RelayUID n) (Channel n) = Some False"
        using off_sets [OF Cons.prems(1)] off m by blast
      then show ?thesis using enforce_each_keeps [OF i1 rec'] by blast
    qed
  qed
qed

text \<open>
  A fresh cluster: the leader active, every worker asleep. When every power-off of the
  start-up succeeds, the cluster is settled.
\<close>

lemma enforce_settles:
  assumes ord: "range_order (nodes r) ks" and "invar w" "separate canon r" "leader_up r"
    and fresh: "\<forall>i n. nodes r i = Some n \<longrightarrow> \<not> Local n \<longrightarrow> Status n = NodeSleeping"
    and run: "EnforceSleeping e ks r w = ([], w')"
  shows "settled (r, w')"
proof -
  have "desired w' (RelayUID n) (Channel n) = Some False" if "nodes r i = Some n" "\<not> Local n" for i n
    using that fresh ord enforce_each_off [OF assms(2) run [unfolded EnforceSleeping_def], of n]
    by (auto simp: ListNodes_def set_range_vals range_order_def)
  moreover have "invar w'"
    using enforce_each_keeps [OF assms(2) run [unfolded EnforceSleeping_def]] by blast
  ultimately show ?thesis
    using assms(3,4) fresh by (auto simp: settled_def agrees_def agrees_at_def)
qed

end

section \<open>The leader's world\<close>

text \<open>
  \<open>cmd/rproxy\<close> runs the registry over the Tinkerforge controller: its world is the
  controller with the hardware, and everything else.
\<close>

record 'n net =
  net_get :: "string \<Rightarrow> 'n \<Rightarrow> http_result \<times> 'n"
  net_post :: "string \<Rightarrow> http_body \<Rightarrow> 'n \<Rightarrow> http_result \<times> 'n"
  net_url :: "string \<Rightarrow> bool"
  net_now :: "'n \<Rightarrow> time"
  net_sleep :: "duration \<Rightarrow> 'n \<Rightarrow> 'n"

definition leader_ext :: "'h relay_hw \<Rightarrow> 'n net \<Rightarrow> ((tinkerforge \<times> 'h) \<times> 'n) ext" where
  "leader_ext hw net =
     \<lparr>PowerOn = (\<lambda>u ch (th, n). case tf_PowerOn hw u ch th of (x, th') \<Rightarrow> (x, th', n)),
      PowerOff = (\<lambda>u ch (th, n). case tf_PowerOff hw u ch th of (x, th') \<Rightarrow> (x, th', n)),
      HttpGet = (\<lambda>u (th, n). case net_get net u n of (x, n') \<Rightarrow> (x, th, n')),
      HttpPost = (\<lambda>u b (th, n). case net_post net u b n of (x, n') \<Rightarrow> (x, th, n')),
      ValidURL = net_url net,
      Now = (\<lambda>(th, n). net_now net n),
      Sleep = (\<lambda>d (th, n). (th, net_sleep net d n))\<rparr>"

definition relay_desired :: "(tinkerforge \<times> 'h) \<times> 'n \<Rightarrow> string \<Rightarrow> int \<Rightarrow> bool option" where
  "relay_desired w = tf_desired (fst w)"

definition relay_invar :: "string \<Rightarrow> (tinkerforge \<times> 'h) \<times> 'n \<Rightarrow> bool" where
  "relay_invar d w = tf_invar d (fst w)"

interpretation leader: power_world "leader_ext hw net" relay_desired "tf_canon d" "relay_invar d"
  for hw :: "'h relay_hw" and net :: "'n net" and d :: string
proof (unfold_locales, goal_cases)
  case (1 c u ch c')
  then show ?case
    by (auto simp: leader_ext_def relay_desired_def relay_invar_def split: prod.splits
        intro: tf.on_sets)
next
  case (2 c u ch c')
  then show ?case
    by (auto simp: leader_ext_def relay_desired_def relay_invar_def split: prod.splits
        intro: tf.off_sets)
next
  case (3 c u ch r c' u' ch' b)
  then show ?case
    unfolding leader_ext_def relay_desired_def relay_invar_def
    by (cases c) (auto split: prod.splits dest!: tf.on_keeps)
next
  case (4 c u ch r c' u' ch' b)
  then show ?case
    unfolding leader_ext_def relay_desired_def relay_invar_def
    by (cases c) (auto split: prod.splits dest!: tf.off_keeps)
next
  case (5 c u ch r c')
  then show ?case
    by (auto simp: leader_ext_def relay_invar_def split: prod.splits intro: tf.on_invar)
next
  case (6 c u ch r c')
  then show ?case
    by (auto simp: leader_ext_def relay_invar_def split: prod.splits intro: tf.off_invar)
next
  case (7 c u u' ch)
  then show ?case
    unfolding relay_desired_def relay_invar_def by (rule tf.desired_canon)
next
  case (8 u w x w')
  then show ?case
    by (cases w) (auto simp: leader_ext_def relay_desired_def relay_invar_def split: prod.splits)
next
  case (9 u b w x w')
  then show ?case
    by (cases w) (auto simp: leader_ext_def relay_desired_def relay_invar_def split: prod.splits)
next
  case (10 d w)
  then show ?case
    by (cases w) (simp add: leader_ext_def relay_desired_def relay_invar_def)
qed

end
