(* ===== verification/Controller.thy ===== *)
theory Controller
  imports Power_Agreement
begin

text \<open>
  \<^verbatim>\<open>pkg/cluster/controller.go\<close>: one round of the scale-down loop, and any number of
  rounds; with them what recovery of dead nodes does to each node. The lemmas bound what
  a round may power off from both sides.
\<close>

section \<open>A round of the loop\<close>

fun scale_down ::
  "'w ext \<Rightarrow> controller_config \<Rightarrow> node list \<Rightarrow> int \<Rightarrow> registry \<times> 'w \<Rightarrow> int \<times> registry \<times> 'w" where
  "scale_down e cfg [] activeCount rw = (activeCount, rw)"
| "scale_down e cfg (n # ns) activeCount rw =
     (if Local n then scale_down e cfg ns activeCount rw
      else if Status n \<noteq> NodeActive then scale_down e cfg ns activeCount rw
      else if Load n > 0 then scale_down e cfg ns activeCount rw
      else if activeCount \<le> MinActiveNodes cfg then scale_down e cfg ns activeCount rw
      else if time_sub (Now e (snd rw)) (LastUsed n) < IdleTimeout cfg
        then scale_down e cfg ns activeCount rw
      else case DeactivateNode e (ID n) rw of
             (Some _, rw') \<Rightarrow> scale_down e cfg ns activeCount rw'
           | (None, rw') \<Rightarrow> scale_down e cfg ns (activeCount - 1) rw')"

text \<open>
  \<open>ks1\<close> and \<open>ks2\<close> are the orders in which recovery and the controller list the nodes.
\<close>

definition controller_round ::
  "'w ext \<Rightarrow> controller_config \<Rightarrow> string list \<times> string list \<Rightarrow> registry \<times> 'w \<Rightarrow> registry \<times> 'w" where
  "controller_round e cfg ks rw =
     (let rw1 = (fst rw, Sleep e (CheckInterval cfg) (snd rw));
          rw2 = RecoverDead e (DeadRetry cfg) (fst ks) rw1;
          nodes = ListNodes (snd ks) (fst rw2);
          activeCount = count_if (\<lambda>n. Status n = NodeActive \<and> \<not> DispatchOnly n) nodes
      in snd (scale_down e cfg nodes activeCount rw2))"

text \<open>The loop after as many rounds as \<open>kss\<close> has entries.\<close>

definition StartController ::
  "'w ext \<Rightarrow> controller_config \<Rightarrow> (string list \<times> string list) list \<Rightarrow> registry \<times> 'w \<Rightarrow> registry \<times> 'w" where
  "StartController e cfg kss rw =
     (if \<not> Enabled cfg then rw else foldl (\<lambda>rw ks. controller_round e cfg ks rw) rw kss)"

section \<open>Powering a node down\<close>

lemma DeactivateNode_result:
  assumes "DeactivateNode e i (r, w) = (c, r', w')"
  shows "(c = None \<and> (\<exists>n t. nodes r i = Some n \<and> \<not> Local n \<and> r' = SetStatus i NodeSleeping t r \<and>
            PowerOff e (RelayUID n) (Channel n) w = (None, w'))) \<or>
         (c \<noteq> None \<and> r' = r \<and>
            (w' = w \<or> (\<exists>n x. nodes r i = Some n \<and> \<not> Local n \<and>
               PowerOff e (RelayUID n) (Channel n) w = (Some x, w'))))"
  using assms
  by (auto simp: DeactivateNode_def split: option.splits if_splits prod.splits)

definition executing_count :: "string list \<Rightarrow> registry \<Rightarrow> int" where
  "executing_count ks r = count_if executing (ListNodes ks r)"

lemma executing_count_Cons:
  "executing_count (k # ks) r =
     (case nodes r k of None \<Rightarrow> 0 | Some n \<Rightarrow> if executing n then 1 else 0) + executing_count ks r"
  by (simp add: executing_count_def ListNodes_def split: option.splits)

lemma executing_count_Nil: "executing_count [] r = 0"
  by (simp add: executing_count_def ListNodes_def)

lemma executing_count_absent:
  "i \<notin> set ks \<Longrightarrow> executing_count ks (SetStatus i st t r) = executing_count ks r"
  by (induction ks) (auto simp: executing_count_Cons executing_count_Nil nodes_SetStatus)

lemma executing_count_sleep:
  "distinct ks \<Longrightarrow> executing_count ks r - 1 \<le> executing_count ks (SetStatus i NodeSleeping t r)"
proof (induction ks)
  case Nil
  then show ?case by (simp add: executing_count_def ListNodes_def)
next
  case (Cons k ks)
  show ?case
  proof (cases "k = i")
    case True
    then have "executing_count ks (SetStatus i NodeSleeping t r) = executing_count ks r"
      using Cons.prems by (simp add: executing_count_absent)
    then show ?thesis
      using True by (auto simp: executing_count_Cons nodes_SetStatus executing_def split: option.splits)
  next
    case False
    then show ?thesis
      using Cons by (auto simp: executing_count_Cons nodes_SetStatus split: option.splits)
  qed
qed

section \<open>What a round may touch\<close>

definition idle_at :: "controller_config \<Rightarrow> time \<Rightarrow> node \<Rightarrow> bool" where
  "idle_at cfg t n \<longleftrightarrow> IdleTimeout cfg \<le> time_sub t (LastUsed n)"

definition may_sleep :: "node \<Rightarrow> bool" where
  "may_sleep n \<longleftrightarrow> \<not> Local n \<and> Status n = NodeActive \<and> Load n \<le> 0"

text \<open>The clock does not run backwards while a relay is switched.\<close>

definition clock_mono :: "'w ext \<Rightarrow> bool" where
  "clock_mono e \<longleftrightarrow> (\<forall>u ch w. Now e w \<le> Now e (snd (PowerOff e u ch w)))"

lemma time_sub_mono: "t \<le> t' \<Longrightarrow> time_sub t u \<le> time_sub t' u"
  by (simp add: time_sub_def sat64_def)

lemma idle_at_mono: "idle_at cfg t n \<Longrightarrow> t \<le> t' \<Longrightarrow> idle_at cfg t' n"
  using time_sub_mono unfolding idle_at_def by (meson order_trans)

lemma DeactivateNode_clock:
  "clock_mono e \<Longrightarrow> DeactivateNode e i (r, w) = (c, r', w') \<Longrightarrow> Now e w \<le> Now e w'"
  using DeactivateNode_result [of e i r w c r' w'] unfolding clock_mono_def
  by (metis order_refl snd_conv)

text \<open>One node of the snapshot: skipped, or powered down and marked asleep.\<close>

lemma scale_down_Cons:
  assumes "scale_down e cfg (n # ns) a (r, w) = (a', rw')"
  obtains
    (skip) "\<not> (may_sleep n \<and> MinActiveNodes cfg < a \<and> idle_at cfg (Now e w) n)"
      "scale_down e cfg ns a (r, w) = (a', rw')"
  | (failed) w1 where "may_sleep n" "MinActiveNodes cfg < a" "idle_at cfg (Now e w) n"
      "fst (DeactivateNode e (ID n) (r, w)) \<noteq> None"
      "scale_down e cfg ns a (r, w1) = (a', rw')" "clock_mono e \<Longrightarrow> Now e w \<le> Now e w1"
  | (down) m t w1 where "may_sleep n" "MinActiveNodes cfg < a" "idle_at cfg (Now e w) n"
      "nodes r (ID n) = Some m" "\<not> Local m"
      "scale_down e cfg ns (a - 1) (SetStatus (ID n) NodeSleeping t r, w1) = (a', rw')"
      "clock_mono e \<Longrightarrow> Now e w \<le> Now e w1"
proof (cases "may_sleep n \<and> MinActiveNodes cfg < a \<and> idle_at cfg (Now e w) n")
  case False
  then show ?thesis
    using assms skip by (auto simp: may_sleep_def idle_at_def split: if_splits)
next
  case True
  obtain c r1 w1 where d: "DeactivateNode e (ID n) (r, w) = (c, r1, w1)"
    using prod_cases3 by blast
  note res = DeactivateNode_result [OF d] and mono = DeactivateNode_clock [OF _ d]
  show ?thesis
  proof (cases c)
    case None
    then show ?thesis
      using assms True d res mono down
      by (auto simp: may_sleep_def idle_at_def)
  next
    case (Some x)
    then have "r1 = r" using res by auto
    then show ?thesis
      using assms True d Some mono failed [of w1] by (auto simp: may_sleep_def idle_at_def)
  qed
qed

section \<open>The floor\<close>

lemma scale_down_floor:
  assumes "scale_down e cfg ns a (r, w) = (a', rw')" and "distinct ks"
    and "a \<le> executing_count ks r"
  shows "min a (MinActiveNodes cfg) \<le> a' \<and> a' \<le> executing_count ks (fst rw')"
  using assms(1,3)
proof (induction ns arbitrary: a r w)
  case Nil
  then show ?case by auto
next
  case (Cons n ns)
  from Cons.prems(1) show ?case
  proof (cases rule: scale_down_Cons)
    case skip
    then show ?thesis using Cons.IH Cons.prems(2) by blast
  next
    case (failed w1)
    then show ?thesis using Cons.IH Cons.prems(2) by blast
  next
    case (down m t w1)
    have "a - 1 \<le> executing_count ks (SetStatus (ID n) NodeSleeping t r)"
      using executing_count_sleep [OF assms(2), of r "ID n" t] Cons.prems(2) by linarith
    then show ?thesis using Cons.IH [OF down(6)] down(2) by auto
  qed
qed

section \<open>Which nodes change\<close>

lemma scale_down_touches:
  assumes "scale_down e cfg ns a (r, w) = (a', r', w')" and mono: "clock_mono e"
  shows "Now e w \<le> Now e w' \<and>
    (nodes r' i = nodes r i \<or>
     (\<exists>n \<in> set ns. ID n = i \<and> may_sleep n \<and> idle_at cfg (Now e w') n \<and>
        (\<exists>m. nodes r i = Some m \<and> \<not> Local m \<and>
             nodes r' i = Some (m\<lparr>Status := NodeSleeping, DeadSince := 0\<rparr>))))"
  using assms(1)
proof (induction ns arbitrary: a r w)
  case Nil
  then show ?case by simp
next
  case (Cons n ns)
  from Cons.prems show ?case
  proof (cases rule: scale_down_Cons)
    case skip
    then show ?thesis using Cons.IH by fastforce
  next
    case (failed w1)
    then show ?thesis using Cons.IH [OF failed(5)] mono by fastforce
  next
    case (down m t w1)
    note ih = Cons.IH [OF down(6)]
    have le: "Now e w \<le> Now e w1" "Now e w1 \<le> Now e w'" using down(7) [OF mono] ih by auto
    show ?thesis
    proof (cases "i = ID n")
      case True
      have "nodes (SetStatus (ID n) NodeSleeping t r) i = Some (m\<lparr>Status := NodeSleeping, DeadSince := 0\<rparr>)"
        using down(4) True by (simp add: nodes_SetStatus)
      moreover have "idle_at cfg (Now e w') n"
        using idle_at_mono [OF down(3)] le by simp
      ultimately show ?thesis using ih True down(1,4,5) le by auto
    next
      case False
      then have "nodes (SetStatus (ID n) NodeSleeping t r) i = nodes r i"
        by (simp add: nodes_SetStatus)
      then show ?thesis using ih le by auto
    qed
  qed
qed

text \<open>When no power-off fails, the round stops only at the floor.\<close>

definition power_off_works :: "'w ext \<Rightarrow> bool" where
  "power_off_works e \<longleftrightarrow> (\<forall>u ch w. fst (PowerOff e u ch w) = None)"

definition asleep :: "registry \<Rightarrow> string \<Rightarrow> bool" where
  "asleep r i \<longleftrightarrow> (\<exists>m. nodes r i = Some m \<and> Status m = NodeSleeping)"

lemma asleep_sleep: "asleep r i \<Longrightarrow> asleep (SetStatus j NodeSleeping t r) i"
  by (auto simp: asleep_def nodes_SetStatus)

lemma scale_down_asleep:
  "scale_down e cfg ns a (r, w) = (a', r', w') \<Longrightarrow> asleep r i \<Longrightarrow> asleep r' i"
proof (induction ns arbitrary: a r w)
  case Nil
  then show ?case by simp
next
  case (Cons n ns)
  from Cons.prems(1) show ?case
    by (cases rule: scale_down_Cons) (auto intro: Cons.IH Cons.prems(2) asleep_sleep)
qed

lemma scale_down_count: "scale_down e cfg ns a (r, w) = (a', rw') \<Longrightarrow> a' \<le> a"
proof (induction ns arbitrary: a r w)
  case Nil
  then show ?case by simp
next
  case (Cons n ns)
  from Cons.prems show ?case
    by (cases rule: scale_down_Cons) (auto dest: Cons.IH)
qed

lemma DeactivateNode_works:
  assumes "power_off_works e" and "nodes r i = Some m" "\<not> Local m"
  shows "fst (DeactivateNode e i (r, w)) = None"
proof -
  obtain w1 where "PowerOff e (RelayUID m) (Channel m) w = (None, w1)"
    using assms(1) unfolding power_off_works_def by (metis prod.collapse)
  then show ?thesis using assms(2,3) by (simp add: DeactivateNode_def)
qed

lemma scale_down_complete:
  assumes "scale_down e cfg ns a (r, w) = (a', r', w')"
    and works: "power_off_works e" and mono: "clock_mono e"
    and "MinActiveNodes cfg < a'"
    and present: "\<forall>n \<in> set ns. may_sleep n \<longrightarrow> (\<exists>m. nodes r (ID n) = Some m \<and> \<not> Local m)"
    and "n \<in> set ns" "may_sleep n" "idle_at cfg (Now e w) n"
  shows "asleep r' (ID n)"
  using assms(1,4-8)
proof (induction ns arbitrary: a r w)
  case Nil
  then show ?case by simp
next
  case (Cons m ns)
  from Cons.prems(1) show ?case
  proof (cases rule: scale_down_Cons)
    case skip
    then have "m \<noteq> n"
      using Cons.prems(2,5,6) scale_down_count by fastforce
    then show ?thesis using Cons skip(2) by fastforce
  next
    case (failed w1)
    then show ?thesis using Cons.prems(3) DeactivateNode_works [OF works] by fastforce
  next
    case (down k t w1)
    let ?r1 = "SetStatus (ID m) NodeSleeping t r"
    show ?thesis
    proof (cases "n = m")
      case True
      then have "asleep ?r1 (ID n)" using down(4) by (simp add: asleep_def nodes_SetStatus)
      then show ?thesis using scale_down_asleep [OF down(6)] by blast
    next
      case False
      have "\<forall>n \<in> set ns. may_sleep n \<longrightarrow> (\<exists>m. nodes ?r1 (ID n) = Some m \<and> \<not> Local m)"
        using Cons.prems(3) by (auto simp: nodes_SetStatus)
      moreover have "idle_at cfg (Now e w1) n"
        using idle_at_mono [OF Cons.prems(6)] down(7) [OF mono] by blast
      ultimately show ?thesis using Cons False down(6) by auto
    qed
  qed
qed

section \<open>Recovery\<close>

lemma recover_step_other: "i \<noteq> ID n \<Longrightarrow> nodes (fst (recover_step e cd rw n)) i = nodes (fst rw) i"
  by (auto simp: recover_step_def nodes_SetStatus split: prod.splits bool.splits)

lemma recover_other:
  "i \<notin> ID ` set ns \<Longrightarrow> nodes (fst (foldl (recover_step e cd) rw ns)) i = nodes (fst rw) i"
  by (induction ns arbitrary: rw) (simp_all add: recover_step_other)

text \<open>The result for one node, whose health check runs in some world \<open>w1\<close>.\<close>

definition recovered :: "'w ext \<Rightarrow> duration \<Rightarrow> node \<Rightarrow> node \<Rightarrow> bool" where
  "recovered e cd n n' \<longleftrightarrow>
     (\<exists>w1 alive w2. healthy e (ManagerAddress n) w1 = (alive, w2) \<and>
        n' = (if alive then n\<lparr>Status := NodeActive, DeadSince := 0\<rparr>
              else if cd \<le> time_sub (Now e w2) (DeadSince n)
                then n\<lparr>Status := NodeSleeping, DeadSince := 0\<rparr> else n))"

lemma recover_step_self:
  assumes "nodes r (ID n) = Some n" "Status n = NodeDead"
  shows "\<exists>n'. nodes (fst (recover_step e cd (r, w) n)) (ID n) = Some n' \<and> recovered e cd n n'"
proof -
  obtain alive w2 where h: "healthy e (ManagerAddress n) w = (alive, w2)" by fastforce
  show ?thesis
    using assms h unfolding recovered_def
    by (cases alive) (auto simp: recover_step_def nodes_SetStatus)
qed

lemma foldl_recover:
  assumes "distinct (map ID ns)" and "\<forall>n \<in> set ns. nodes (fst rw) (ID n) = Some n"
    and "n \<in> set ns" "Status n = NodeDead"
  shows "\<exists>n'. nodes (fst (foldl (recover_step e cd) rw ns)) (ID n) = Some n' \<and> recovered e cd n n'"
  using assms(1-3)
proof (induction ns arbitrary: rw)
  case Nil
  then show ?case by simp
next
  case (Cons m ns)
  obtain r w where rw: "rw = (r, w)" by (cases rw)
  show ?case
  proof (cases "n = m")
    case True
    then have "ID n \<notin> ID ` set ns" using Cons.prems(1) by auto
    then have "nodes (fst (foldl (recover_step e cd) rw (m # ns))) (ID n) =
        nodes (fst (recover_step e cd (r, w) n)) (ID n)"
      using recover_other True rw by simp
    moreover have "nodes r (ID n) = Some n" using Cons.prems(2) True rw by simp
    ultimately show ?thesis using recover_step_self [of r n e cd w] assms(4) by metis
  next
    case False
    have "\<forall>k \<in> set ns. nodes (fst (recover_step e cd rw m)) (ID k) = Some k"
      using Cons.prems(1,2) by (metis image_eqI list.set_map distinct.simps(2) list.simps(9)
          list.set_intros(2) recover_step_other)
    then show ?thesis using Cons False by auto
  qed
qed

lemma foldl_recover_alive:
  assumes "\<forall>n \<in> set ns. ID n = i \<longrightarrow> Status n \<noteq> NodeDead"
  shows "nodes (fst (foldl (recover_step e cd) rw ns)) i = nodes (fst rw) i"
  using assms
proof (induction ns arbitrary: rw)
  case Nil
  then show ?case by simp
next
  case (Cons m ns)
  have "nodes (fst (recover_step e cd rw m)) i = nodes (fst rw) i"
    using Cons.prems recover_step_other [of i m e cd rw]
    by (cases "ID m = i") (auto simp: recover_step_def split: prod.splits)
  with Cons show ?case by simp
qed

lemma ListNodes_IDs:
  "keyed r \<Longrightarrow> map ID (ListNodes ks r) = filter (\<lambda>k. nodes r k \<noteq> None) ks"
  by (induction ks) (auto simp: ListNodes_def keyed_def split: option.splits)

lemma ListNodes_distinct: "keyed r \<Longrightarrow> distinct ks \<Longrightarrow> distinct (map ID (ListNodes ks r))"
  by (simp add: ListNodes_IDs)

lemma RecoverDead_nodes:
  assumes key: "keyed r" and ord: "range_order (nodes r) ks"
    and n: "nodes r i = Some n"
  shows "\<exists>n'. nodes (fst (RecoverDead e cd ks (r, w))) i = Some n' \<and>
    (if Status n = NodeDead then recovered e cd n n' else n' = n)"
proof (cases "Status n = NodeDead")
  case True
  have i: "ID n = i" using key n by (simp add: keyed_def)
  have mem: "m \<in> set (ListNodes ks r) \<longleftrightarrow> nodes r (ID m) = Some m" for m
    by (rule ListNodes_mem [OF key ord])
  show ?thesis
    using foldl_recover [OF ListNodes_distinct [OF key range_order_distinct [OF ord]],
        of "(r, w)" n e cd] mem n i True
    by (auto simp: RecoverDead_def)
next
  case False
  have "\<forall>m \<in> set (ListNodes ks r). ID m = i \<longrightarrow> Status m \<noteq> NodeDead"
    using ListNodes_mem [OF key ord] n False by auto
  then have "nodes (fst (foldl (recover_step e cd) (r, w) (ListNodes ks r))) i = Some n"
    using foldl_recover_alive [of "ListNodes ks r" i e cd "(r, w)"] n by simp
  then show ?thesis using False by (simp add: RecoverDead_def)
qed

section \<open>Rounds and the relays\<close>

context power_world
begin

lemma settled_scale_down:
  "settled rw \<Longrightarrow> scale_down e cfg ns a rw = (a', rw') \<Longrightarrow> settled rw'"
proof (induction ns arbitrary: a rw)
  case Nil
  then show ?case by simp
next
  case (Cons n ns)
  obtain r w where rw: "rw = (r, w)" by (cases rw)
  obtain c r1 w1 where d: "DeactivateNode e (ID n) (r, w) = (c, r1, w1)"
    using prod_cases3 by blast
  have "settled (r1, w1)" using settled_DeactivateNode Cons.prems(1) d rw by blast
  then show ?case
    using Cons d rw by (auto split: if_splits option.splits)
qed

text \<open>Recovery does nothing when no node is dead, so a round keeps the agreement.\<close>

lemma recover_idle:
  assumes "\<forall>n \<in> set ns. Status n \<noteq> NodeDead"
  shows "foldl (recover_step e cd) rw ns = rw"
  using assms by (induction ns) (auto simp: recover_step_def split: prod.splits)

lemma settled_round:
  assumes "settled rw" and "\<forall>i n. nodes (fst rw) i = Some n \<longrightarrow> Status n \<noteq> NodeDead"
  shows "settled (controller_round e cfg ks rw)"
proof -
  obtain r w where rw: "rw = (r, w)" by (cases rw)
  let ?w1 = "Sleep e (CheckInterval cfg) w"
  have "RecoverDead e (DeadRetry cfg) (fst ks) (r, ?w1) = (r, ?w1)"
    using assms(2) rw
    by (auto simp: RecoverDead_def ListNodes_def set_range_vals intro!: recover_idle)
  moreover have "settled (r, ?w1)"
    using settled_quiet quiet_steps(3) assms(1) rw by blast
  ultimately show ?thesis
    using settled_scale_down rw
    by (simp add: controller_round_def Let_def) (metis prod.collapse)
qed

text \<open>A node that did not answer after its wake keeps its relay on through recovery.\<close>

lemma healthy_pair_quiet: "healthy e a w = (b, w') \<Longrightarrow> desired w' = desired w"
  using healthy_quiet by (simp add: quiet_def)

lemma recover_desired: "desired (snd (foldl (recover_step e cd) rw ns)) = desired (snd rw)"
proof (induction ns arbitrary: rw)
  case Nil
  then show ?case by simp
next
  case (Cons n ns)
  have "desired (snd (recover_step e cd rw n)) = desired (snd rw)"
    by (cases rw) (auto simp: recover_step_def split: prod.splits bool.splits
        dest: healthy_pair_quiet)
  with Cons show ?case by simp
qed

lemma not_ready_stays_on:
  assumes inv: "invar w" and n: "nodes r i = Some n" "Status n \<noteq> NodeActive" "Status n \<noteq> NodeWaking"
    and run: "ActivateNode e p i (r, w) = (Return (Some (NodeNotReady j a)), r', w')"
  shows "desired w' (RelayUID n) (Channel n) = Some True"
proof -
  obtain err r2 w2 r1 where wk:
    "wakeNode e p i (RelayUID n) (Channel n) (ManagerAddress n) (r1, w) = (err, r2, w2)"
    and out: "err = Some (NodeNotReady j a)" "w' = w2"
    using ActivateNode_lead [OF n, of e p w] run by (auto split: prod.splits)
  obtain x1 w1 where on: "PowerOn e (RelayUID n) (Channel n) w = (x1, w1)" by fastforce
  have x1: "x1 = None" using wk on out by (cases x1) (auto simp: wakeNode_def)
  obtain b w3 where rd: "waitForNodeReady e (attempts p) (ManagerAddress n) w1 = (b, w3)"
    by fastforce
  have "b = False \<and> w2 = w3"
    using wk on x1 rd out
    by (cases b) (auto simp: wakeNode_def split: prod.splits option.splits if_splits)
  then show ?thesis
    using on_sets [OF inv] on x1 ready_quiet [OF rd] out by (auto simp: quiet_def)
qed

end

end
