(* ===== verification/Interleaving.thy ===== *)
theory Interleaving
  imports Controller
begin

text \<open>
  The goroutines of the leader that share the registry, interleaved: any number of
  requests, each of which activates its node and counts itself into its load, and the
  loop of \<^verbatim>\<open>StartController\<close>. A step is what happens under one hold of the registry's
  lock, or one call outside it (the relay, the health checks, the deployment). The theory
  \<open>Registry\<close> has the same code as a function; run alone, the steps of a request compute it.
\<close>

section \<open>A request\<close>

text \<open>Where a request stands in \<open>ActivateNode\<close>, and after it in the handler.\<close>

datatype pc =
    Ready
  | PoweringOn nat string int string
  | AwaitingReady nat string int string
  | Deploying nat string int string
  | PoweringOff nat int string int
  | Settling nat node_status "reg_error option"
  | Deleting nat "reg_error option"
  | Closing nat "reg_error option"
  | Waiting "nat option"
  | Activated
  | Failed reg_error
  | Crashed panic
  | Serving
  | Served

fun answer :: "reg_error option \<Rightarrow> pc" where
  "answer None = Activated"
| "answer (Some err) = Failed err"

fun act_step ::
  "'w ext \<Rightarrow> params \<Rightarrow> string \<Rightarrow> pc \<Rightarrow> registry \<times> 'w \<Rightarrow> (pc \<times> registry \<times> 'w) option" where
  "act_step e p i Ready (r, w) =
     (case activate_begin i r of
        (BeginUnknown, r1) \<Rightarrow> Some (Failed (UnknownNode i), r1, w)
      | (BeginActive, r1) \<Rightarrow> Some (Activated, r1, w)
      | (BeginFollow act, r1) \<Rightarrow> Some (Waiting act, r1, w)
      | (BeginLead act u ch a, r1) \<Rightarrow> Some (PoweringOn act u ch a, r1, w))"
| "act_step e p i (PoweringOn act u ch a) (r, w) =
     (case PowerOn e u ch w of
        (Some err, w1) \<Rightarrow> Some (Settling act NodeDead (Some (PowerOnError i err)), r, w1)
      | (None, w1) \<Rightarrow> Some (AwaitingReady act u ch a, r, w1))"
| "act_step e p i (AwaitingReady act u ch a) (r, w) =
     (case waitForNodeReady e (attempts p) a w of
        (False, w1) \<Rightarrow> Some (Settling act NodeDead (Some (NodeNotReady i a)), r, w1)
      | (True, w1) \<Rightarrow> Some (Deploying act u ch a, r, w1))"
| "act_step e p i (Deploying act u ch a) (r, w) =
     (case deployFunctions e p a r w of
        (failed, w1) \<Rightarrow>
          Some (if failed > 0 then PoweringOff act failed u ch else Settling act NodeActive None, r, w1))"
| "act_step e p i (PoweringOff act failed u ch) (r, w) =
     (case PowerOff e u ch w of
        (Some err, w1) \<Rightarrow> Some (Settling act NodeDead (Some (DeployStuck i failed err)), r, w1)
      | (None, w1) \<Rightarrow> Some (Settling act NodeSleeping (Some (DeployIncomplete i failed)), r, w1))"
| "act_step e p i (Settling act st err) (r, w) =
     Some (Deleting act err, SetStatus i st (Now e w) r, w)"
| "act_step e p i (Deleting act err) (r, w) = Some (Closing act err, activation_delete i r, w)"
| "act_step e p i (Closing act err) (r, w) = Some (answer err, activation_close act err r, w)"
| "act_step e p i (Waiting None) (r, w) = Some (Crashed NilDereference, r, w)"
| "act_step e p i (Waiting (Some act)) (r, w) =
     (case act_err r act of None \<Rightarrow> None | Some res \<Rightarrow> Some (answer res, r, w))"
| "act_step e p i Activated (r, w) = Some (Serving, IncLoad i r, w)"
| "act_step e p i Serving (r, w) = Some (Served, DecLoad i r, w)"
| "act_step e p i (Failed err) (r, w) = None"
| "act_step e p i (Crashed x) (r, w) = None"
| "act_step e p i Served (r, w) = None"

section \<open>The loop\<close>

datatype loop_pc =
    LoopIdle
  | Recovering "node list"
  | RecoverSet string node_status "node list"
  | Scaling "node list" int
  | ScaleSet string "node list" int

text \<open>
  \<open>rec\<close> is true for the code as it is; with \<open>rec\<close> false the loop leaves out its
  recovery of dead nodes.
\<close>

fun loop_step ::
  "bool \<Rightarrow> 'w ext \<Rightarrow> controller_config \<Rightarrow> loop_pc \<Rightarrow> registry \<times> 'w \<Rightarrow>
   (loop_pc \<times> registry \<times> 'w) option" where
  "loop_step rec e cfg LoopIdle rw = None"
| "loop_step rec e cfg (Recovering []) rw = None"
| "loop_step rec e cfg (Recovering (n # ns)) (r, w) =
     (if \<not> rec \<or> Status n \<noteq> NodeDead then Some (Recovering ns, r, w)
      else case healthy e (ManagerAddress n) w of
             (True, w1) \<Rightarrow> Some (RecoverSet (ID n) NodeActive ns, r, w1)
           | (False, w1) \<Rightarrow>
               if time_sub (Now e w1) (DeadSince n) \<ge> DeadRetry cfg
               then Some (RecoverSet (ID n) NodeSleeping ns, r, w1) else Some (Recovering ns, r, w1))"
| "loop_step rec e cfg (RecoverSet i st ns) (r, w) =
     Some (Recovering ns, SetStatus i st (Now e w) r, w)"
| "loop_step rec e cfg (Scaling [] a) rw = Some (LoopIdle, rw)"
| "loop_step rec e cfg (Scaling (n # ns) a) (r, w) =
     (if Local n \<or> Status n \<noteq> NodeActive \<or> Load n > 0 \<or> a \<le> MinActiveNodes cfg \<or>
         time_sub (Now e w) (LastUsed n) < IdleTimeout cfg
      then Some (Scaling ns a, r, w)
      else case nodes r (ID n) of
             None \<Rightarrow> Some (Scaling ns a, r, w)
           | Some m \<Rightarrow>
               if Local m then Some (Scaling ns a, r, w)
               else case PowerOff e (RelayUID m) (Channel m) w of
                      (Some _, w1) \<Rightarrow> Some (Scaling ns a, r, w1)
                    | (None, w1) \<Rightarrow> Some (ScaleSet (ID n) ns a, r, w1))"
| "loop_step rec e cfg (ScaleSet i ns a) (r, w) =
     Some (Scaling ns (a - 1), SetStatus i NodeSleeping (Now e w) r, w)"

section \<open>All of them together\<close>

text \<open>
  A configuration has the registry and the world, where each request stands, and where
  the loop stands. \<open>tgt\<close> is the node each request was given by the scheduler.
\<close>

type_synonym 'w config = "registry \<times> 'w \<times> (nat \<Rightarrow> pc) \<times> loop_pc"

inductive astep ::
  "bool \<Rightarrow> 'w ext \<Rightarrow> params \<Rightarrow> controller_config \<Rightarrow> (nat \<Rightarrow> string) \<Rightarrow> 'w config \<Rightarrow> 'w config \<Rightarrow> bool"
  for rec :: bool and e :: "'w ext" and p :: params and cfg :: controller_config
    and tgt :: "nat \<Rightarrow> string" where
  request: "act_step e p (tgt t) (pcs t) (r, w) = Some (pc', r', w') \<Longrightarrow>
     astep rec e p cfg tgt (r, w, pcs, lp) (r', w', pcs(t := pc'), lp)"
| timeout: "pcs t = Waiting (Some act) \<Longrightarrow>
     astep rec e p cfg tgt (r, w, pcs, lp) (r, w, pcs(t := Failed (ActivateTimeout (tgt t))), lp)"
| round: "Enabled cfg \<Longrightarrow> range_order (nodes r) ks \<Longrightarrow>
     astep rec e p cfg tgt (r, w, pcs, LoopIdle) (r, w, pcs, Recovering (ListNodes ks r))"
| scaling: "range_order (nodes r) ks \<Longrightarrow>
     astep rec e p cfg tgt (r, w, pcs, Recovering [])
       (r, w, pcs, Scaling (ListNodes ks r)
          (count_if (\<lambda>n. Status n = NodeActive \<and> \<not> DispatchOnly n) (ListNodes ks r)))"
| loop: "loop_step rec e cfg lp (r, w) = Some (lp', r', w') \<Longrightarrow>
     astep rec e p cfg tgt (r, w, pcs, lp) (r', w', pcs, lp')"

inductive_cases astepE: "astep rec e p cfg tgt (r, w, pcs, lp) c'"

text \<open>Nothing runs yet, and no node is waking.\<close>

definition at_rest :: "'w config \<Rightarrow> bool" where
  "at_rest c \<longleftrightarrow> (case c of (r, w, pcs, lp) \<Rightarrow>
     keyed r \<and> (\<forall>i n. nodes r i = Some n \<longrightarrow> Status n \<noteq> NodeWaking) \<and>
     activations r = Map.empty \<and> (\<forall>a. act_err r a \<noteq> None \<longrightarrow> a < next_act r) \<and>
     (\<forall>t. pcs t = Ready) \<and> lp = LoopIdle)"

definition reach ::
  "bool \<Rightarrow> 'w ext \<Rightarrow> params \<Rightarrow> controller_config \<Rightarrow> (nat \<Rightarrow> string) \<Rightarrow> 'w config \<Rightarrow> 'w config \<Rightarrow> bool"
  where "reach rec e p cfg tgt = (astep rec e p cfg tgt)\<^sup>*\<^sup>*"

section \<open>A request alone\<close>

text \<open>Up to \<open>k\<close> steps of one request, as far as its answer.\<close>

fun solo :: "'w ext \<Rightarrow> params \<Rightarrow> string \<Rightarrow> nat \<Rightarrow> pc \<Rightarrow> registry \<times> 'w \<Rightarrow> pc \<times> registry \<times> 'w" where
  "solo e p i 0 pc rw = (pc, rw)"
| "solo e p i (Suc k) pc rw =
     (if pc = Activated then (pc, rw)
      else case act_step e p i pc rw of None \<Rightarrow> (pc, rw) | Some (pc', rw') \<Rightarrow> solo e p i k pc' rw')"

fun pc_of :: "reg_error option call \<Rightarrow> pc" where
  "pc_of (Return res) = answer res"
| "pc_of (Panic x) = Crashed x"

lemma solo_done [simp]: "solo e p i k (answer res) rw = (answer res, rw)"
  by (cases k; cases res; cases rw) auto

lemma solo_stays [simp]: "solo e p i k Activated rw = (Activated, rw)"
    "solo e p i k (Failed err) rw = (Failed err, rw)"
  using solo_done [of e p i k None rw] solo_done [of e p i k "Some err" rw] by simp_all

lemma solo_step:
  "pc \<noteq> Activated \<Longrightarrow> act_step e p i pc rw = Some (pc', rw') \<Longrightarrow>
     solo e p i (Suc k) pc rw = solo e p i k pc' rw'"
  by simp

lemma solo_Settling:
  "solo e p i (Suc (Suc (Suc k))) (Settling act st err) (r, w) =
     (answer err, activation_close act err (activation_delete i (SetStatus i st (Now e w) r)), w)"
  by simp

lemma solo_Deploying:
  "solo e p i (Suc (Suc (Suc (Suc (Suc k))))) (Deploying act u ch a) (r, w) =
     (case deployFunctions e p a r w of (failed, w3) \<Rightarrow>
        if failed > 0 then
          (case PowerOff e u ch w3 of
             (Some err, w4) \<Rightarrow> (answer (Some (DeployStuck i failed err)),
                activation_close act (Some (DeployStuck i failed err))
                  (activation_delete i (SetStatus i NodeDead (Now e w4) r)), w4)
           | (None, w4) \<Rightarrow> (answer (Some (DeployIncomplete i failed)),
                activation_close act (Some (DeployIncomplete i failed))
                  (activation_delete i (SetStatus i NodeSleeping (Now e w4) r)), w4))
        else (answer None, activation_close act None
                  (activation_delete i (SetStatus i NodeActive (Now e w3) r)), w3))"
proof -
  obtain f w3 where d: "deployFunctions e p a r w = (f, w3)" by fastforce
  obtain x w4 where off: "PowerOff e u ch w3 = (x, w4)" by fastforce
  show ?thesis
    by (cases x; cases "f > 0") (simp_all add: d off)
qed

lemma solo_lead:
  "solo e p i (Suc (Suc (Suc (Suc (Suc (Suc (Suc k))))))) (PoweringOn act u ch a) (r, w) =
     (case wakeNode e p i u ch a (r, w) of
        (err, r2, w2) \<Rightarrow> (answer err, activation_close act err (activation_delete i r2), w2))"
proof -
  obtain x w1 where on: "PowerOn e u ch w = (x, w1)" by fastforce
  obtain b w2 where rd: "waitForNodeReady e (attempts p) a w1 = (b, w2)" by fastforce
  note steps = solo_step [of "PoweringOn act u ch a"] solo_step [of "AwaitingReady act u ch a"]
    solo_step [of "Deploying act u ch a"]
  show ?thesis
  proof (cases x)
    case (Some err)
    then show ?thesis
      using solo_Settling [of e p i "Suc (Suc (Suc k))" act NodeDead "Some (PowerOnError i err)" r w1]
      by (simp only: steps act_step.simps on wakeNode_def prod.case option.case pc.distinct
          not_False_eq_True)
  next
    case None
    show ?thesis
    proof (cases b)
      case True
      then show ?thesis
        using None on rd solo_Deploying [of e p i k act u ch a r w2] 
        apply (simp only: steps act_step.simps on rd prod.case option.case bool.case pc.distinct
          not_False_eq_True wakeNode_def)
        apply (auto split: prod.splits option.splits)
        done
    next
      case False
      then show ?thesis
        using solo_Settling [of e p i "Suc (Suc k)" act NodeDead "Some (NodeNotReady i a)" r w2]
        by (simp only: None steps act_step.simps on rd wakeNode_def prod.case option.case bool.case
            pc.distinct not_False_eq_True)
    qed
  qed
qed

text \<open>
  The nine steps of a request from its call to its answer. A follower that nobody
  answers waits; every other request computes what \<open>ActivateNode\<close> does.
\<close>

lemma solo_ActivateNode:
  assumes "\<And>n a. nodes r i = Some n \<Longrightarrow> Status n = NodeWaking \<Longrightarrow> activations r i = Some a \<Longrightarrow>
      act_err r a \<noteq> None"
  shows "solo e p i 9 Ready (r, w) =
    (case ActivateNode e p i (r, w) of (x, rw') \<Rightarrow> (pc_of x, rw'))"
proof -
  have nine: "(9::nat) = Suc (Suc (Suc (Suc (Suc (Suc (Suc (Suc (Suc 0))))))))" by simp
  show ?thesis
    using activate_begin_cases [of r i]
  proof cases
    case unknown
    then show ?thesis by (simp add: nine ActivateNode_def)
  next
    case (active n)
    then show ?thesis by (simp add: nine ActivateNode_def)
  next
    case (follow n)
    show ?thesis
    proof (cases "activations r i")
      case None
      then show ?thesis using follow(3) by (simp add: nine ActivateNode_def)
    next
      case (Some a)
      then obtain res where "act_err r a = Some res" using assms follow(1,2) by blast
      then show ?thesis
        using follow(3) Some by (simp add: nine ActivateNode_def activation_wait_def)
    qed
  next
    case (lead n r1)
    have "solo e p i 9 Ready (r, w) = solo e p i (Suc (Suc (Suc (Suc (Suc (Suc (Suc (Suc 0))))))))
        (PoweringOn (next_act r) (RelayUID n) (Channel n) (ManagerAddress n)) (r1, w)"
      unfolding nine by (rule solo_step) (simp_all add: lead(5))
    then show ?thesis
      unfolding solo_lead by (simp add: ActivateNode_def lead(5) split: prod.splits)
  qed
qed

section \<open>Statuses along the steps\<close>

definition status_of :: "registry \<Rightarrow> string \<Rightarrow> node_status option" where
  "status_of r i = map_option Status (nodes r i)"

lemma status_of_SetStatus:
  "status_of (SetStatus i st t r) j =
     (if j = i then map_option (\<lambda>_. st) (status_of r i) else status_of r j)"
  by (cases "nodes r i") (auto simp: status_of_def nodes_SetStatus)

lemma status_of_same [simp]:
  "status_of (IncLoad i r) = status_of r" "status_of (DecLoad i r) = status_of r"
  "status_of (activation_delete i r) = status_of r" "status_of (activation_close a x r) = status_of r"
proof -
  show "status_of (IncLoad i r) = status_of r"
    by (rule ext, cases "nodes r i") (auto simp: status_of_def nodes_IncLoad)
  show "status_of (DecLoad i r) = status_of r"
    by (rule ext, cases "nodes r i") (auto simp: status_of_def nodes_DecLoad)
qed (simp_all add: status_of_def reg_simps fun_eq_iff)

text \<open>The stretch of \<open>ActivateNode\<close> in which a request runs the wake of its node.\<close>

fun wakes :: "pc \<Rightarrow> bool" where
  "wakes (PoweringOn _ _ _ _) = True"
| "wakes (AwaitingReady _ _ _ _) = True"
| "wakes (Deploying _ _ _ _) = True"
| "wakes (PoweringOff _ _ _ _) = True"
| "wakes (Settling _ _ _) = True"
| "wakes _ = False"

lemma wakes_answer [simp]: "\<not> wakes (answer res)"
  by (cases res) simp_all

lemma act_step_status:
  assumes "act_step e p i pc (r, w) = Some (pc', r', w')"
  shows
    "(wakes pc' = wakes pc \<and> status_of r' = status_of r) \<or>
     (\<not> wakes pc \<and> wakes pc' \<and> (\<exists>st. status_of r i = Some st \<and> st \<noteq> NodeActive \<and> st \<noteq> NodeWaking) \<and>
        status_of r' = (status_of r)(i \<mapsto> NodeWaking)) \<or>
     (wakes pc \<and> \<not> wakes pc' \<and> (\<forall>j. j \<noteq> i \<longrightarrow> status_of r' j = status_of r j))"
proof (cases pc)
  case Ready
  show ?thesis
    using activate_begin_cases [of r i]
  proof cases
    case (lead n r1)
    have "status_of r1 = (status_of r)(i \<mapsto> NodeWaking)"
      by (rule ext) (simp add: status_of_def lead(4))
    then show ?thesis using assms Ready lead(1-3,5) by (auto simp: status_of_def)
  qed (use assms Ready in auto)
next
  case (Waiting act)
  then show ?thesis using assms by (cases act) (auto split: option.splits)
qed (use assms in \<open>auto simp: status_of_SetStatus split: prod.splits option.splits bool.splits if_splits\<close>)

lemma act_step_keyed:
  assumes "act_step e p i pc (r, w) = Some (pc', r', w')" and "keyed r"
  shows "keyed r'"
proof (cases pc)
  case Ready
  show ?thesis
    using activate_begin_cases [of r i]
  proof cases
    case (lead n r1)
    then have "keyed r1" using assms(2) by (auto simp: keyed_def)
    then show ?thesis using assms Ready lead by simp
  qed (use assms Ready in auto)
next
  case (Waiting act)
  then show ?thesis using assms by (cases act) (auto split: option.splits)
next
  case (Deleting act err)
  then show ?thesis using assms by (auto simp: keyed_def reg_simps)
next
  case (Closing act err)
  then show ?thesis using assms by (auto simp: keyed_def reg_simps)
qed (use assms in \<open>auto simp: keyed_ops split: prod.splits option.splits bool.splits if_splits\<close>)

section \<open>One waker per node\<close>

fun loop_ok :: "registry \<Rightarrow> loop_pc \<Rightarrow> bool" where
  "loop_ok r LoopIdle = True"
| "loop_ok r (Recovering ns) = True"
| "loop_ok r (RecoverSet _ _ _) = False"
| "loop_ok r (Scaling ns a) =
     (distinct (map ID ns) \<and>
      (\<forall>n \<in> set ns. Status n = NodeActive \<longrightarrow> status_of r (ID n) = Some NodeActive))"
| "loop_ok r (ScaleSet i ns a) =
     (distinct (map ID ns) \<and> i \<notin> ID ` set ns \<and> status_of r i = Some NodeActive \<and>
      (\<forall>n \<in> set ns. Status n = NodeActive \<longrightarrow> status_of r (ID n) = Some NodeActive))"

definition single_waker :: "(nat \<Rightarrow> string) \<Rightarrow> 'w config \<Rightarrow> bool" where
  "single_waker tgt c \<longleftrightarrow> (case c of (r, w, pcs, lp) \<Rightarrow>
     \<forall>t t'. wakes (pcs t) \<longrightarrow> wakes (pcs t') \<longrightarrow> tgt t = tgt t' \<longrightarrow> t = t')"

definition wake_inv :: "(nat \<Rightarrow> string) \<Rightarrow> 'w config \<Rightarrow> bool" where
  "wake_inv tgt c \<longleftrightarrow> single_waker tgt c \<and> (case c of (r, w, pcs, lp) \<Rightarrow>
     keyed r \<and> (\<forall>t. wakes (pcs t) \<longrightarrow> status_of r (tgt t) = Some NodeWaking) \<and> loop_ok r lp)"

lemma loop_ok_keep:
  "loop_ok r lp \<Longrightarrow> (\<And>j. status_of r j = Some NodeActive \<Longrightarrow> status_of r' j = Some NodeActive) \<Longrightarrow>
     loop_ok r' lp"
  by (cases lp) auto

lemma loop_step_ok:
  assumes "loop_step False e cfg lp (r, w) = Some (lp', r', w')" "loop_ok r lp" "keyed r"
  shows "loop_ok r' lp' \<and> keyed r' \<and>
    (\<forall>j. status_of r j = Some NodeWaking \<longrightarrow> status_of r' j = Some NodeWaking)"
proof (cases lp)
  case (Scaling ns a)
  then show ?thesis
    using assms by (cases ns) (auto split: if_splits option.splits prod.splits)
next
  case (ScaleSet i ns a)
  then show ?thesis
    using assms by (auto simp: status_of_SetStatus keyed_ops)
next
  case (Recovering ns)
  then show ?thesis using assms by (cases ns) auto
qed (use assms in auto)

text \<open>How one request's step changes who wakes what.\<close>

lemma single_waker_upd:
  assumes "single_waker tgt (r, w, pcs, lp)"
    and "wakes pc' \<Longrightarrow> (\<And>t'. t' \<noteq> t \<Longrightarrow> wakes (pcs t') \<Longrightarrow> tgt t' \<noteq> tgt t)"
  shows "single_waker tgt (r', w', pcs(t := pc'), lp')"
  using assms by (simp add: single_waker_def) metis

lemma wake_inv_step:
  assumes "astep False e p cfg tgt c c'" "wake_inv tgt c"
  shows "wake_inv tgt c'"
  using assms
proof (induction rule: astep.induct)
  case (request t pcs r w pc' r' w' lp)
  have inv: "\<forall>t t'. wakes (pcs t) \<longrightarrow> wakes (pcs t') \<longrightarrow> tgt t = tgt t' \<longrightarrow> t = t'"
    "\<forall>t. wakes (pcs t) \<longrightarrow> status_of r (tgt t) = Some NodeWaking" "loop_ok r lp" "keyed r"
    using request.prems by (auto simp: wake_inv_def single_waker_def)
  have single: "single_waker tgt (r, w, pcs, lp)" using request.prems by (simp add: wake_inv_def)
  have key: "keyed r'" using act_step_keyed [OF request.hyps] inv(4) .
  from act_step_status [OF request.hyps]
  consider (same) "wakes pc' = wakes (pcs t)" "status_of r' = status_of r"
    | (starts) st where "\<not> wakes (pcs t)" "wakes pc'" "status_of r (tgt t) = Some st" "st \<noteq> NodeActive"
      "st \<noteq> NodeWaking" "status_of r' = (status_of r)(tgt t \<mapsto> NodeWaking)"
    | (settle) "wakes (pcs t)" "\<not> wakes pc'" "\<forall>j. j \<noteq> tgt t \<longrightarrow> status_of r' j = status_of r j"
    by blast
  then show ?case
  proof cases
    case same
    have "single_waker tgt (r', w', pcs(t := pc'), lp)"
      using inv(1) same(1) single by (intro single_waker_upd) auto
    moreover have "loop_ok r' lp" using loop_ok_keep [OF inv(3)] same(2) by simp
    ultimately show ?thesis using inv(2) same key by (auto simp: wake_inv_def)
  next
    case starts
    have "\<not> (wakes (pcs t') \<and> tgt t' = tgt t)" for t' using inv(2) starts(3,5) by auto
    then have "single_waker tgt (r', w', pcs(t := pc'), lp)"
      using single by (intro single_waker_upd) auto
    moreover have "loop_ok r' lp"
      by (rule loop_ok_keep [OF inv(3)]) (use starts(3,4,6) in auto)
    ultimately show ?thesis using inv(2) starts(6) key by (auto simp: wake_inv_def)
  next
    case settle
    have "status_of r (tgt t) = Some NodeWaking" using inv(2) settle(1) by blast
    then have "status_of r' j = Some NodeActive" if "status_of r j = Some NodeActive" for j
      using settle(3) that by (cases "j = tgt t") auto
    then have "loop_ok r' lp" by (rule loop_ok_keep [OF inv(3)])
    moreover have "single_waker tgt (r', w', pcs(t := pc'), lp)"
      using settle(2) single by (intro single_waker_upd) auto
    moreover have "status_of r' (tgt t') = Some NodeWaking" if "wakes (pcs t')" "t' \<noteq> t" for t'
    proof -
      have "tgt t' \<noteq> tgt t" using inv(1) settle(1) that by blast
      then show ?thesis using inv(2) settle(3) that(1) by simp
    qed
    ultimately show ?thesis using settle(2) key by (auto simp: wake_inv_def)
  qed
next
  case (scaling r ks w pcs)
  have key: "keyed r" using scaling.prems by (simp add: wake_inv_def)
  have "distinct (map ID (ListNodes ks r))"
    using ListNodes_distinct key scaling.hyps range_order_distinct by blast
  moreover have "status_of r (ID n) = Some (Status n)" if "n \<in> set (ListNodes ks r)" for n
    using ListNodes_mem [OF key scaling.hyps] that by (simp add: status_of_def)
  ultimately show ?case using scaling.prems by (auto simp: wake_inv_def single_waker_def)
next
  case (loop lp r w lp' r' w' pcs)
  have "loop_ok r lp" "keyed r" using loop.prems by (simp_all add: wake_inv_def)
  then show ?case
    using loop_step_ok [OF loop.hyps] loop.prems by (auto simp: wake_inv_def single_waker_def)
qed (auto simp: wake_inv_def single_waker_def)

lemma wake_inv_start: "at_rest c \<Longrightarrow> wake_inv tgt c"
  by (cases c) (auto simp: at_rest_def wake_inv_def single_waker_def)

lemma wake_inv_reach: "reach False e p cfg tgt c c' \<Longrightarrow> wake_inv tgt c \<Longrightarrow> wake_inv tgt c'"
  unfolding reach_def by (induction rule: rtranclp_induct) (blast intro: wake_inv_step)+

section \<open>No follower is left behind\<close>

text \<open>
  The activation a request has yet to close, the one it has yet to take out of the map,
  and how many steps are left to it.
\<close>

fun carries :: "pc \<Rightarrow> nat option" where
  "carries (PoweringOn act _ _ _) = Some act"
| "carries (AwaitingReady act _ _ _) = Some act"
| "carries (Deploying act _ _ _) = Some act"
| "carries (PoweringOff act _ _ _) = Some act"
| "carries (Settling act _ _) = Some act"
| "carries (Deleting act _) = Some act"
| "carries (Closing act _) = Some act"
| "carries _ = None"

fun holds :: "pc \<Rightarrow> nat option" where
  "holds (Closing _ _) = None"
| "holds pc = carries pc"

fun steps_left :: "pc \<Rightarrow> nat" where
  "steps_left (PoweringOn _ _ _ _) = 7"
| "steps_left (AwaitingReady _ _ _ _) = 6"
| "steps_left (Deploying _ _ _ _) = 5"
| "steps_left (PoweringOff _ _ _ _) = 4"
| "steps_left (Settling _ _ _) = 3"
| "steps_left (Deleting _ _) = 2"
| "steps_left (Closing _ _) = 1"
| "steps_left _ = 0"

lemma carries_answer [simp]: "carries (answer res) = None" "holds (answer res) = None"
  "answer res \<noteq> Waiting a"
  by (cases res; simp)+

lemma holds_carries: "holds pc = Some a \<Longrightarrow> carries pc = Some a"
  by (cases pc) simp_all

lemma carries_runs: "carries pc = Some a \<Longrightarrow> act_step e p i pc (r, w) \<noteq> None"
  by (cases pc) (auto split: prod.splits option.splits bool.splits)

lemma carries_next:
  assumes "carries pc = Some a" "act_step e p i pc (r, w) = Some (pc', r', w')"
  shows "(carries pc' = Some a \<and> steps_left pc' < steps_left pc) \<or>
     (\<exists>res. pc' = answer res \<and> act_err r' a = Some res)"
  using assms
  by (cases pc) (auto simp: activation_close_def split: prod.splits option.splits bool.splits if_splits)

lemma carries_steps:
  assumes "carries pc = Some a"
  obtains pc' r' w' where "act_step e p i pc (r, w) = Some (pc', r', w')"
    "(carries pc' = Some a \<and> steps_left pc' < steps_left pc) \<or>
     (\<exists>res. pc' = answer res \<and> act_err r' a = Some res)"
proof -
  obtain x where "act_step e p i pc (r, w) = Some x" using carries_runs [OF assms, of e p i r w] by auto
  moreover obtain pc' r' w' where "x = (pc', r', w')" by (cases x)
  ultimately have step: "act_step e p i pc (r, w) = Some (pc', r', w')" by simp
  then show thesis by (rule that) (rule carries_next [OF assms step])
qed

lemma carries_closes:
  "carries pc = Some a \<Longrightarrow> steps_left pc \<le> k \<Longrightarrow>
     \<exists>res r' w'. solo e p i k pc (r, w) = (answer res, r', w') \<and> act_err r' a = Some res"
proof (induction k arbitrary: pc r w)
  case 0
  then show ?case by (cases pc) simp_all
next
  case (Suc k)
  have "pc \<noteq> Activated" using Suc.prems(1) by auto
  obtain pc' r' w' where step: "act_step e p i pc (r, w) = Some (pc', r', w')"
    "(carries pc' = Some a \<and> steps_left pc' < steps_left pc) \<or>
     (\<exists>res. pc' = answer res \<and> act_err r' a = Some res)"
    using carries_steps [OF Suc.prems(1)] .
  have eq: "solo e p i (Suc k) pc (r, w) = solo e p i k pc' (r', w')"
    by (rule solo_step) (fact \<open>pc \<noteq> Activated\<close>, fact step(1))
  from step(2) show ?case
  proof (elim disjE exE conjE)
    assume "carries pc' = Some a" "steps_left pc' < steps_left pc"
    then show ?thesis unfolding eq using Suc.IH Suc.prems(2) by simp
  next
    fix res
    assume "pc' = answer res" "act_err r' a = Some res"
    then show ?thesis unfolding eq by simp
  qed
qed

definition wait_inv :: "(nat \<Rightarrow> string) \<Rightarrow> 'w config \<Rightarrow> bool" where
  "wait_inv tgt c \<longleftrightarrow> (case c of (r, w, pcs, lp) \<Rightarrow>
     (\<forall>i a. activations r i = Some a \<longrightarrow> (\<exists>t. tgt t = i \<and> holds (pcs t) = Some a)) \<and>
     (\<forall>t a. pcs t = Waiting (Some a) \<longrightarrow>
        act_err r a \<noteq> None \<or> (\<exists>t'. tgt t' = tgt t \<and> carries (pcs t') = Some a)))"

text \<open>What one step of a request does to the activations.\<close>

lemma act_step_acts:
  assumes "act_step e p i pc (r, w) = Some (pc', r', w')"
  shows
    "(\<forall>j. j \<noteq> i \<longrightarrow> activations r' j = activations r j) \<and>
     (\<forall>a. act_err r a \<noteq> None \<longrightarrow> act_err r' a \<noteq> None) \<and>
     (\<forall>a. activations r' i = Some a \<longrightarrow> holds pc' = Some a \<or>
        (activations r i = Some a \<and> holds pc \<noteq> Some a)) \<and>
     (\<forall>a. carries pc = Some a \<longrightarrow> carries pc' = Some a \<or> act_err r' a \<noteq> None) \<and>
     (\<forall>a. pc' = Waiting (Some a) \<longrightarrow> activations r i = Some a \<and> r' = r)"
proof (cases pc)
  case Ready
  show ?thesis
    using activate_begin_cases [of r i]
  proof cases
    case (lead n r1)
    then show ?thesis using assms Ready by auto
  qed (use assms Ready in auto)
next
  case (Waiting act)
  then show ?thesis using assms by (cases act) (auto split: option.splits)
next
  case (Deleting act err)
  then show ?thesis using assms by (auto simp: activation_delete_def)
next
  case (Closing act err)
  then show ?thesis using assms by (auto simp: activation_close_def)
next
  case Activated
  then show ?thesis using assms by (auto simp: IncLoad_def)
next
  case Serving
  then show ?thesis using assms by (auto simp: DecLoad_def)
qed (use assms in \<open>auto split: prod.splits option.splits bool.splits if_splits\<close>)

lemma loop_step_acts:
  "loop_step rec e cfg lp (r, w) = Some (lp', r', w') \<Longrightarrow>
     activations r' = activations r \<and> act_err r' = act_err r"
  by (cases "(rec, e, cfg, lp, (r, w))" rule: loop_step.cases)
    (auto split: if_splits option.splits prod.splits bool.splits)

lemma wait_inv_step:
  assumes "astep rec e p cfg tgt c c'" "wait_inv tgt c"
  shows "wait_inv tgt c'"
  using assms
proof (induction rule: astep.induct)
  case (request t pcs r w pc' r' w' lp)
  note acts = act_step_acts [OF request.hyps]
  have inv1: "\<And>i a. activations r i = Some a \<Longrightarrow> \<exists>t. tgt t = i \<and> holds (pcs t) = Some a"
    and inv2: "\<And>t a. pcs t = Waiting (Some a) \<Longrightarrow>
        act_err r a \<noteq> None \<or> (\<exists>t'. tgt t' = tgt t \<and> carries (pcs t') = Some a)"
    using request.prems by (auto simp: wait_inv_def)
  let ?pcs = "pcs(t := pc')"
  have "\<exists>t'. tgt t' = i \<and> holds (?pcs t') = Some a" if new: "activations r' i = Some a" for i a
  proof (cases "i = tgt t \<and> holds pc' = Some a")
    case True
    then show ?thesis by (intro exI [of _ t]) simp
  next
    case False
    then have old: "activations r i = Some a" and "i = tgt t \<Longrightarrow> holds (pcs t) \<noteq> Some a"
      using acts new by (metis (no_types))+
    moreover obtain t' where "tgt t' = i" "holds (pcs t') = Some a" using inv1 [OF old] by blast
    ultimately show ?thesis by (intro exI [of _ t']) auto
  qed
  moreover have "act_err r' a \<noteq> None \<or> (\<exists>t''. tgt t'' = tgt t' \<and> carries (?pcs t'') = Some a)"
    if new: "?pcs t' = Waiting (Some a)" for t' a
  proof -
    have "act_err r a \<noteq> None \<or> (\<exists>t''. tgt t'' = tgt t' \<and> carries (pcs t'') = Some a)"
    proof (cases "t' = t")
      case True
      then have "activations r (tgt t) = Some a" using acts new by simp
      then show ?thesis using inv1 holds_carries True by blast
    next
      case False
      then show ?thesis using inv2 new by simp
    qed
    then show ?thesis using acts by (metis fun_upd_apply)
  qed
  ultimately show ?case by (simp add: wait_inv_def)
next
  case (timeout pcs t act r w lp)
  then show ?case by (auto simp: wait_inv_def) (metis carries.simps(9) holds.simps(9) option.discI)+
next
  case (loop lp r w lp' r' w' pcs)
  then show ?case using loop_step_acts [OF loop.hyps] by (simp add: wait_inv_def)
qed (auto simp: wait_inv_def)

lemma wait_inv_reach: "reach rec e p cfg tgt c c' \<Longrightarrow> wait_inv tgt c \<Longrightarrow> wait_inv tgt c'"
  unfolding reach_def by (induction rule: rtranclp_induct) (blast intro: wait_inv_step)+

lemma wait_inv_start: "at_rest c \<Longrightarrow> wait_inv tgt c"
  by (cases c) (auto simp: at_rest_def wait_inv_def)

section \<open>Schedules that go wrong\<close>

lemma reach_refl: "reach rec e p cfg tgt c c"
  by (simp add: reach_def)

lemma reach_step: "reach rec e p cfg tgt c c' \<Longrightarrow> astep rec e p cfg tgt c' c'' \<Longrightarrow> reach rec e p cfg tgt c c''"
  by (simp add: reach_def rtranclp.rtrancl_into_rtrancl)

lemma reach_request:
  "reach rec e p cfg tgt c (r, w, pcs, lp) \<Longrightarrow> act_step e p (tgt t) (pcs t) (r, w) = Some (pc', r', w') \<Longrightarrow>
     reach rec e p cfg tgt c (r', w', pcs(t := pc'), lp)"
  by (erule reach_step) (rule astep.request)

lemma reach_loop:
  "reach rec e p cfg tgt c (r, w, pcs, lp) \<Longrightarrow> loop_step rec e cfg lp (r, w) = Some (lp', r', w') \<Longrightarrow>
     reach rec e p cfg tgt c (r', w', pcs, lp')"
  by (erule reach_step) (rule astep.loop)

lemma reach_recovered:
  "reach rec e p cfg tgt c (r, w, pcs, Recovering ns) \<Longrightarrow> \<forall>n \<in> set ns. Status n \<noteq> NodeDead \<Longrightarrow>
     reach rec e p cfg tgt c (r, w, pcs, Recovering [])"
proof (induction ns)
  case Nil
  then show ?case by simp
next
  case (Cons n ns)
  then have "reach rec e p cfg tgt c (r, w, pcs, Recovering ns)"
    by (auto intro: reach_loop)
  then show ?case using Cons by simp
qed

text \<open>
  A wake ends in two holds of the lock: the status first, the activation's removal after
  it. A second request that finds the node dead in between starts a wake of its own, and
  the removal takes the second activation out of the map; a third request then finds the
  node waking and no activation to wait on.
\<close>

lemma panic_reachable:
  assumes rest: "at_rest (r, w, pcs, lp)" and n: "nodes r i = Some n" "Status n \<noteq> NodeActive"
    and fails: "PowerOn e (RelayUID n) (Channel n) w = (Some err, w1)"
    and tgt: "tgt t0 = i" "tgt t1 = i" "tgt t2 = i" and ts: "distinct [t0, t1, t2]"
  shows "\<exists>r' w' pcs' lp'. reach rec e p cfg tgt (r, w, pcs, lp) (r', w', pcs', lp') \<and>
    pcs' t2 = Crashed NilDereference"
proof -
  let ?R = "reach rec e p cfg tgt (r, w, pcs, lp)"
  have pcs: "pcs t0 = Ready" "pcs t1 = Ready" "pcs t2 = Ready" and nw: "Status n \<noteq> NodeWaking"
    using rest n by (auto simp: at_rest_def)
  let ?a = "next_act r"
  let ?x = "Some (PowerOnError i err)"
  obtain r1 where b1: "activate_begin i r = (BeginLead ?a (RelayUID n) (Channel n) (ManagerAddress n), r1)"
    "nodes r1 i = Some (n\<lparr>Status := NodeWaking\<rparr>)"
    using n nw by (simp add: activate_begin_def Let_def)
  let ?r2 = "SetStatus i NodeDead (Now e w1) r1"
  let ?n2 = "n\<lparr>Status := NodeDead, DeadSince := Now e w1\<rparr>"
  have n2: "nodes ?r2 i = Some ?n2" using b1(2) by (simp add: nodes_SetStatus)
  obtain r3 where b2: "activate_begin i ?r2 =
      (BeginLead (next_act ?r2) (RelayUID n) (Channel n) (ManagerAddress n), r3)"
    "nodes r3 i = Some (?n2\<lparr>Status := NodeWaking\<rparr>)"
    using n2 by (simp add: activate_begin_def Let_def)
  let ?r4 = "activation_delete i r3"
  have b3: "activate_begin i ?r4 = (BeginFollow None, ?r4)"
    using b2(2) by (simp add: activate_begin_def activation_delete_def)
  let ?p1 = "pcs(t0 := PoweringOn ?a (RelayUID n) (Channel n) (ManagerAddress n))"
  have "?R (r1, w, ?p1, lp)"
    by (rule reach_request [OF reach_refl, where t = t0]) (simp add: pcs tgt b1)
  then have "?R (r1, w1, ?p1(t0 := Settling ?a NodeDead ?x), lp)"
    by (rule reach_request) (simp add: tgt fails)
  then have "?R (?r2, w1, ?p1(t0 := Settling ?a NodeDead ?x, t0 := Deleting ?a ?x), lp)"
    by (rule reach_request) (simp add: tgt)
  then have "?R (r3, w1, ?p1(t0 := Settling ?a NodeDead ?x, t0 := Deleting ?a ?x,
      t1 := PoweringOn (next_act ?r2) (RelayUID n) (Channel n) (ManagerAddress n)), lp)"
    by (rule reach_request) (use ts in \<open>simp add: tgt pcs b2\<close>)
  then have "?R (?r4, w1, ?p1(t0 := Settling ?a NodeDead ?x, t0 := Deleting ?a ?x,
      t1 := PoweringOn (next_act ?r2) (RelayUID n) (Channel n) (ManagerAddress n),
      t0 := Closing ?a ?x), lp)"
    by (rule reach_request) (use ts in \<open>simp add: tgt\<close>)
  then have "?R (?r4, w1, ?p1(t0 := Settling ?a NodeDead ?x, t0 := Deleting ?a ?x,
      t1 := PoweringOn (next_act ?r2) (RelayUID n) (Channel n) (ManagerAddress n),
      t0 := Closing ?a ?x, t2 := Waiting None), lp)"
    by (rule reach_request) (use ts in \<open>simp add: tgt pcs b3\<close>)
  then have "?R (?r4, w1, ?p1(t0 := Settling ?a NodeDead ?x, t0 := Deleting ?a ?x,
      t1 := PoweringOn (next_act ?r2) (RelayUID n) (Channel n) (ManagerAddress n),
      t0 := Closing ?a ?x, t2 := Waiting None, t2 := Crashed NilDereference), lp)"
    by (rule reach_request) simp
  then show ?thesis by (metis fun_upd_same)
qed

text \<open>
  Recovery decides on a snapshot. While it checks a dead node, a request may start to
  wake it; when recovery then sets it to sleeping, the next request wakes it again.
\<close>

lemma two_wakers_reachable:
  assumes rest: "at_rest (r, w, pcs, lp)" and on: "Enabled cfg"
    and n: "nodes r i = Some n" "Status n = NodeDead" and ks: "range_order (nodes r) (i # ks)"
    and down: "healthy e (ManagerAddress n) w = (False, w1)"
    and since: "DeadRetry cfg \<le> time_sub (Now e w1) (DeadSince n)"
    and tgt: "tgt t0 = i" "tgt t1 = i" and ts: "t0 \<noteq> t1"
  shows "\<exists>r' w' pcs' lp'. reach True e p cfg tgt (r, w, pcs, lp) (r', w', pcs', lp') \<and>
    wakes (pcs' t0) \<and> wakes (pcs' t1)"
proof -
  let ?R = "reach True e p cfg tgt (r, w, pcs, lp)"
  have pcs: "pcs t0 = Ready" "pcs t1 = Ready" and lp: "lp = LoopIdle" and id: "ID n = i"
    using rest n by (auto simp: at_rest_def keyed_def)
  have ls: "ListNodes (i # ks) r = n # ListNodes ks r" by (simp add: ListNodes_def n)
  let ?ns = "ListNodes ks r"
  let ?on = "\<lambda>a. PoweringOn a (RelayUID n) (Channel n) (ManagerAddress n)"
  obtain r1 where b1: "activate_begin i r =
      (BeginLead (next_act r) (RelayUID n) (Channel n) (ManagerAddress n), r1)"
    "nodes r1 i = Some (n\<lparr>Status := NodeWaking\<rparr>)"
    using n by (simp add: activate_begin_def Let_def)
  let ?r2 = "SetStatus i NodeSleeping (Now e w1) r1"
  obtain r3 where b2: "activate_begin i ?r2 =
      (BeginLead (next_act ?r2) (RelayUID n) (Channel n) (ManagerAddress n), r3)"
    using b1(2) by (simp add: activate_begin_def Let_def nodes_SetStatus)
  have "?R (r, w, pcs, Recovering (n # ?ns))"
    unfolding ls [symmetric] lp by (rule reach_step [OF reach_refl]) (rule astep.round [OF on ks])
  then have "?R (r, w1, pcs, RecoverSet i NodeSleeping ?ns)"
    by (rule reach_loop) (simp add: n down since id)
  then have "?R (r1, w1, pcs(t0 := ?on (next_act r)), RecoverSet i NodeSleeping ?ns)"
    by (rule reach_request) (simp add: tgt pcs b1)
  then have "?R (?r2, w1, pcs(t0 := ?on (next_act r)), Recovering ?ns)"
    by (rule reach_loop) simp
  then have "?R (r3, w1, pcs(t0 := ?on (next_act r), t1 := ?on (next_act ?r2)), Recovering ?ns)"
    by (rule reach_request) (use ts in \<open>simp add: tgt pcs b2\<close>)
  moreover have "wakes ((pcs(t0 := ?on (next_act r), t1 := ?on (next_act ?r2))) t)" if "t = t0 \<or> t = t1" for t
    using that by auto
  ultimately show ?thesis by blast
qed

text \<open>
  Between the snapshot of the loop and the relay, a request may have found the node
  active. The load it then counts comes too late.
\<close>

lemma busy_node_off:
  assumes rest: "at_rest (r, w, pcs, lp)" and on: "Enabled cfg"
    and n: "nodes r i = Some n" "Status n = NodeActive" "\<not> Local n" "Load n = 0"
    and alive: "\<forall>m \<in> set (ListNodes (i # ks) r). Status m \<noteq> NodeDead"
    and ks: "range_order (nodes r) (i # ks)"
    and spare: "MinActiveNodes cfg < count_if (\<lambda>n. Status n = NodeActive \<and> \<not> DispatchOnly n)
      (ListNodes (i # ks) r)"
    and idle: "IdleTimeout cfg \<le> time_sub (Now e w) (LastUsed n)"
    and off: "PowerOff e (RelayUID n) (Channel n) w = (None, w1)"
    and tgt: "tgt t0 = i"
  shows "\<exists>r' pcs' lp' m. reach True e p cfg tgt (r, w, pcs, lp) (r', w1, pcs', lp') \<and>
    pcs' t0 = Serving \<and> nodes r' i = Some m \<and> Load m = 1 \<and> Status m = NodeSleeping"
proof -
  let ?R = "reach True e p cfg tgt (r, w, pcs, lp)"
  have pcs: "pcs t0 = Ready" and lp: "lp = LoopIdle" and id: "ID n = i"
    using rest n by (auto simp: at_rest_def keyed_def)
  let ?ns = "ListNodes ks r"
  let ?a = "count_if (\<lambda>n. Status n = NodeActive \<and> \<not> DispatchOnly n) (ListNodes (i # ks) r)"
  have ls: "ListNodes (i # ks) r = n # ?ns" by (simp add: ListNodes_def n)
  have b: "activate_begin i r = (BeginActive, r)" using n by (simp add: activate_begin_def)
  let ?r1 = "IncLoad i r"
  let ?r2 = "SetStatus i NodeSleeping (Now e w1) ?r1"
  have "?R (r, w, pcs, Recovering (ListNodes (i # ks) r))"
    unfolding lp by (rule reach_step [OF reach_refl]) (rule astep.round [OF on ks])
  then have "?R (r, w, pcs, Recovering [])"
    by (rule reach_recovered) (rule alive)
  then have "?R (r, w, pcs, Scaling (ListNodes (i # ks) r) ?a)"
    by (rule reach_step) (rule astep.scaling [OF ks])
  then have "?R (r, w, pcs(t0 := Activated), Scaling (ListNodes (i # ks) r) ?a)"
    by (rule reach_request) (simp add: tgt pcs b)
  then have "?R (r, w1, pcs(t0 := Activated), ScaleSet i ?ns ?a)"
    unfolding ls by (rule reach_loop) (use spare idle in \<open>simp add: n id off ls\<close>)
  then have "?R (?r1, w1, pcs(t0 := Activated, t0 := Serving), ScaleSet i ?ns ?a)"
    by (rule reach_request) (simp add: tgt)
  then have "?R (?r2, w1, pcs(t0 := Activated, t0 := Serving), Scaling ?ns (?a - 1))"
    by (rule reach_loop) simp
  moreover have "nodes ?r2 i = Some (n\<lparr>Load := 1, Status := NodeSleeping, DeadSince := 0\<rparr>)"
    using n by (simp add: nodes_SetStatus nodes_IncLoad wrap64_def)
  ultimately show ?thesis by fastforce
qed

end
