(* ===== verification/Leader_Main.thy ===== *)
theory Leader_Main
  imports Http_Front Interleaving Cluster_Config
begin

text \<open>
  \<^verbatim>\<open>cmd/rproxy/main.go\<close>: the leader process. Its arguments and environment, the start of
  the cluster, and the endpoint through which the management service adds and deletes
  functions. The theory composes the leader's parts and shows what holds of them however
  its requests follow each other.
\<close>

section \<open>Configuration\<close>

definition defaultTinkerforgeHost :: string where "defaultTinkerforgeHost = ''localhost''"
definition defaultTinkerforgePort :: int where "defaultTinkerforgePort = 4223"
definition defaultTinkerforgeUID :: string where "defaultTinkerforgeUID = ''YOUR_UID''"

definition tinkerforgeConfigFromEnv :: "environment \<Rightarrow> string \<times> int \<times> string" where
  "tinkerforgeConfigFromEnv getenv =
     (let v = getenv ''TINKERFORGE_HOST'';
          h = (if v \<noteq> [] then v else defaultTinkerforgeHost);
          v = getenv ''TINKERFORGE_PORT'';
          p = (if v \<noteq> [] then (case Atoi v of Some p \<Rightarrow> p | None \<Rightarrow> defaultTinkerforgePort)
               else defaultTinkerforgePort);
          v = getenv ''TINKERFORGE_UID'';
          u = (if v \<noteq> [] then v else defaultTinkerforgeUID)
      in (h, p, u))"

definition defaultNodes :: "node list" where
  "defaultNodes = [zero_node\<lparr>ID := ''local'', Local := True, Status := NodeActive\<rparr>]"

text \<open>\<open>readFile\<close> and \<open>unmarshal\<close> stand for the file system and the JSON decoder.\<close>

definition loadTopology ::
  "environment \<Rightarrow> (string \<Rightarrow> string + string) \<Rightarrow> (string \<Rightarrow> string + node list) \<Rightarrow> load_error + node list"
  where
  "loadTopology getenv readFile unmarshal =
     (let path = getenv ''NODES_CONFIG''
      in if path = [] then Inr defaultNodes
         else case LoadNodes (readFile path) unmarshal of Inl err \<Rightarrow> Inl err | Inr ns \<Rightarrow> Inr ns)"

section \<open>Start of the process\<close>

definition ToLower :: "string \<Rightarrow> string" where
  "ToLower s = map to_lower s"

text \<open>The loop over the protocol arguments; \<open>None\<close> is the exit with the usage message.\<close>

fun parse_listeners :: "string list \<Rightarrow> (string \<rightharpoonup> string) \<Rightarrow> (string \<rightharpoonup> string) option" where
  "parse_listeners [] listenAddrs = Some listenAddrs"
| "parse_listeners (arg # args) listenAddrs =
     (case Cut (CHR '':'') arg of (prot, listenAddr, ok) \<Rightarrow>
        if \<not> ok then None
        else parse_listeners args (listenAddrs(ToLower prot \<mapsto> ToLower listenAddr)))"

datatype 'a startup = Usage | Fatal load_error | Running 'a

record leader_process =
  l_addr :: string
  l_listeners :: "string \<rightharpoonup> string"
  l_relays :: tinkerforge
  l_registry :: registry
  l_rproxy :: rproxy
  l_cfg :: controller_config

text \<open>
  \<open>argv\<close> is \<open>os.Args\<close>. The guard \<open>len(listenAddrs) == 0\<close> after the loop never holds,
  since more than three arguments leave at least one listener.
\<close>

definition leader_start ::
  "environment \<Rightarrow> (string \<Rightarrow> string + string) \<Rightarrow> (string \<Rightarrow> string + node list) \<Rightarrow> string list \<Rightarrow>
   leader_process startup" where
  "leader_start getenv readFile unmarshal argv =
     (if length argv \<le> 3 then Usage
      else case parse_listeners (drop 2 argv) Map.empty of
        None \<Rightarrow> Usage
      | Some listenAddrs \<Rightarrow>
          (case tinkerforgeConfigFromEnv getenv of (tfHost, tfPort, tfUID) \<Rightarrow>
             let ctrl = NewTinkerforgeController tfHost tfPort tfUID;
                 reg = NewRegistry NewFunctionStore;
                 cfg = ControllerConfigFromEnv getenv
             in case loadTopology getenv readFile unmarshal of
                  Inl err \<Rightarrow> Fatal err
                | Inr ns \<Rightarrow>
                    Running \<lparr>l_addr = argv ! 1, l_listeners = listenAddrs, l_relays = ctrl,
                      l_registry = foldl (\<lambda>reg n. AddNode n reg) reg ns, l_rproxy = New,
                      l_cfg = cfg\<rparr>))"

text \<open>
  The work in the background at the start. The result is the number of nodes a prewarmed
  cluster has up, or the nodes whose relay could not be opened.
\<close>

definition leader_power ::
  "'w ext \<Rightarrow> params \<Rightarrow> controller_config \<Rightarrow> string list \<Rightarrow> registry \<times> 'w \<Rightarrow>
   (string list + int) call \<times> registry \<times> 'w" where
  "leader_power e p cfg ks rw =
     (if Enabled cfg then
        (case EnforceSleeping e ks (fst rw) (snd rw) of (bad, w') \<Rightarrow> (Return (Inl bad), fst rw, w'))
      else
        (case PrewarmAll e p ks rw of
           (Panic x, rw') \<Rightarrow> (Panic x, rw')
         | (Return k, rw') \<Rightarrow> (Return (Inr k), rw')))"

section \<open>The configuration endpoint\<close>

definition set_funcs :: "(function_store \<Rightarrow> function_store) \<Rightarrow> registry \<Rightarrow> registry" where
  "set_funcs f reg = reg\<lparr>reg_funcs := f (reg_funcs reg)\<rparr>"

text \<open>
  \<open>decode\<close> is \<open>json.Unmarshal\<close> into the handler's struct and \<open>newStr\<close> the body; \<open>ks\<close> is
  the order in which the broadcast meets the nodes. The deletion answers with the status
  200 that \<^verbatim>\<open>net/http\<close> writes when a handler returns without one.
\<close>

definition config_handler ::
  "'w ext \<Rightarrow> params \<Rightarrow> (string \<Rightarrow> rproxy_config option) \<Rightarrow> string list \<Rightarrow> string \<Rightarrow> string \<Rightarrow>
   'w front \<Rightarrow> http_response call \<times> 'w front" where
  "config_handler e p decode ks meth newStr s =
     (case s of (r, reg, w) \<Rightarrow>
      if meth \<noteq> MethodPost then (respond HTTP_MethodNotAllowed Map.empty [], s)
      else case decode newStr of
        None \<Rightarrow> (respond HTTP_InternalServerError Map.empty [], s)
      | Some def \<Rightarrow>
          if rc_name def = [] then (Panic IndexOutOfRange, s)
          else
            let name = (if hd (rc_name def) = CHR ''/'' then tl (rc_name def) else rc_name def)
            in if length (rc_ips def) > 0 then
                 (case Add name (rc_ips def) r of
                    (Some _, r1) \<Rightarrow> (respond HTTP_InternalServerError Map.empty [], r1, reg, w)
                  | (None, r1) \<Rightarrow>
                      let fnDef = \<lparr>fd_env = rc_env def, fd_threads = rc_threads def,
                                   fd_envs = rc_envs def, fd_zip = rc_zip def\<rparr>;
                          reg1 = set_funcs (store_Set name fnDef) reg;
                          w1 = BroadcastFunction e p ks name fnDef reg1 w
                      in (respond HTTP_OK [''Content-Type'' \<mapsto> ''text/plain''] ''OK'', r1, reg1, w1))
               else
                 (case Del name r of
                    (Some _, r1) \<Rightarrow> (respond HTTP_InternalServerError Map.empty [], r1, reg, w)
                  | (None, r1) \<Rightarrow>
                      let reg1 = set_funcs (store_Remove name) reg;
                          w1 = BroadcastDelete e ks name reg1 w
                      in (respond HTTP_OK Map.empty [], r1, reg1, w1)))"

definition nodes_handler ::
  "(node list \<Rightarrow> string) \<Rightarrow> string list \<Rightarrow> string \<Rightarrow> 'w front \<Rightarrow> http_response call" where
  "nodes_handler encode ks meth s =
     (case s of (r, reg, w) \<Rightarrow>
      if meth \<noteq> MethodGet then respond HTTP_MethodNotAllowed Map.empty []
      else respond HTTP_OK [''Content-Type'' \<mapsto> ''application/json''] (encode (ListNodes ks reg)))"

definition lastused_handler ::
  "((string \<rightharpoonup> time) \<Rightarrow> string) \<Rightarrow> string list \<Rightarrow> string \<Rightarrow> 'w front \<Rightarrow> http_response call" where
  "lastused_handler encode ks meth s =
     (case s of (r, reg, w) \<Rightarrow>
      if meth \<noteq> MethodGet then respond HTTP_MethodNotAllowed Map.empty []
      else respond HTTP_OK [''Content-Type'' \<mapsto> ''application/json''] (encode (GetFunctionLastUsed ks r)))"

section \<open>Arguments\<close>

lemma parse_listeners_dom:
  "parse_listeners args m = Some m' \<Longrightarrow> dom m \<subseteq> dom m' \<and> (args \<noteq> [] \<longrightarrow> dom m' \<noteq> {})"
proof (induction args arbitrary: m)
  case Nil
  then show ?case by simp
next
  case (Cons a args)
  obtain q l ok where c: "Cut (CHR '':'') a = (q, l, ok)" using prod_cases3 by blast
  then have "parse_listeners args (m(ToLower q \<mapsto> ToLower l)) = Some m'"
    using Cons.prems by (simp split: if_splits)
  then have "dom (m(ToLower q \<mapsto> ToLower l)) \<subseteq> dom m'" using Cons.IH by blast
  then show ?case by auto
qed

section \<open>The start state\<close>

lemma AddNodes_table:
  assumes "distinct (map ID ns)"
  shows "nodes (foldl (\<lambda>reg n. AddNode n reg) (NewRegistry fs) ns) = map_of (map (\<lambda>n. (ID n, n)) ns)"
proof -
  have eq: "foldl (\<lambda>reg n. AddNode n reg) r ns =
      foldl (\<lambda>s (k, v). AddNode v s) r (map (\<lambda>n. (ID n, n)) ns)" for r
    by (simp add: foldl_map)
  have "nodes (foldl (\<lambda>s (k, v). AddNode v s) (NewRegistry fs) (map (\<lambda>n. (ID n, n)) ns)) =
      nodes (NewRegistry fs) ++ map_of (rev (map (\<lambda>n. (ID n, n)) ns))"
    by (rule node_table.lookup_puts) auto
  moreover have "map_of (rev (map (\<lambda>n. (ID n, n)) ns)) = map_of (map (\<lambda>n. (ID n, n)) ns)"
    using assms by (intro map_of_rev_distinct) (simp add: comp_def)
  ultimately show ?thesis by (simp add: eq NewRegistry_def)
qed

lemma AddNodes_rest:
  "reg_funcs (foldl (\<lambda>reg n. AddNode n reg) r ns) = reg_funcs r"
  "activations (foldl (\<lambda>reg n. AddNode n reg) r ns) = activations r"
  "act_err (foldl (\<lambda>reg n. AddNode n reg) r ns) = act_err r"
  by (induction ns arbitrary: r) (simp_all add: AddNode_def)

lemma loadTopology_valid: "loadTopology getenv readFile unmarshal = Inr ns \<Longrightarrow> valid_topology ns"
proof (cases "getenv ''NODES_CONFIG'' = []")
  case True
  have "valid_topology defaultNodes"
    by (simp add: valid_topology_def defaultNodes_def zero_node_def)
  then show "loadTopology getenv readFile unmarshal = Inr ns \<Longrightarrow> valid_topology ns"
    using True by (simp add: loadTopology_def)
next
  case False
  then show "loadTopology getenv readFile unmarshal = Inr ns \<Longrightarrow> valid_topology ns"
    using LoadNodes_Inr by (auto simp: loadTopology_def Let_def split: sum.splits)
qed

lemma leader_start_fields:
  assumes "leader_start getenv readFile unmarshal argv = Running l"
  obtains ns where "loadTopology getenv readFile unmarshal = Inr ns" "valid_topology ns"
    "l_registry l = foldl (\<lambda>reg n. AddNode n reg) (NewRegistry NewFunctionStore) ns"
    "nodes (l_registry l) = map_of (map (\<lambda>n. (ID n, n)) ns)"
    "tf_defaultUID (l_relays l) = snd (snd (tinkerforgeConfigFromEnv getenv))" "l_rproxy l = New"
    "l_cfg l = ControllerConfigFromEnv getenv" "3 < length argv"
proof -
  have len: "3 < length argv" using assms by (simp add: leader_start_def split: if_splits)
  obtain ns where ns: "loadTopology getenv readFile unmarshal = Inr ns"
    "l_registry l = foldl (\<lambda>reg n. AddNode n reg) (NewRegistry NewFunctionStore) ns"
    "tf_defaultUID (l_relays l) = snd (snd (tinkerforgeConfigFromEnv getenv))" "l_rproxy l = New"
    "l_cfg l = ControllerConfigFromEnv getenv"
    using assms
    by (auto simp: leader_start_def Let_def NewTinkerforgeController_def
        split: if_splits option.splits prod.splits sum.splits)
  have v: "valid_topology ns" by (rule loadTopology_valid [OF ns(1)])
  then have "nodes (l_registry l) = map_of (map (\<lambda>n. (ID n, n)) ns)"
    unfolding ns(2) valid_topology_def by (intro AddNodes_table) simp
  then show thesis using that ns v len by blast
qed

text \<open>
  In a valid topology no two workers share an outlet, unless one of them names the
  default relay by its UID and the other leaves the name empty.
\<close>

lemma valid_separate:
  assumes v: "valid_topology ns" and tab: "nodes r = map_of (map (\<lambda>n. (ID n, n)) ns)"
    and d: "\<forall>n \<in> set ns. \<not> Local n \<longrightarrow> RelayUID n \<noteq> d"
  shows "separate (tf_canon d) r"
  unfolding separate_def
proof (intro allI impI notI)
  fix i j n m
  assume n: "nodes r i = Some n" "nodes r j = Some m" "\<not> Local n" "\<not> Local m" "i \<noteq> j"
    and eq: "(tf_canon d (RelayUID n), Channel n) = (tf_canon d (RelayUID m), Channel m)"
  have mem: "n \<in> set ns" "ID n = i" "m \<in> set ns" "ID m = j"
    using map_of_SomeD [of "map (\<lambda>n. (ID n, n)) ns"] n(1,2) unfolding tab by auto
  then have "outlet n = outlet m"
    using eq d n(3,4) by (auto simp: outlet_def tf_canon_def relayOrDefault_def split: if_splits)
  moreover have "inj_on outlet (set (workers ns))"
    using v by (simp add: valid_topology_def distinct_map)
  moreover have "n \<in> set (workers ns)" "m \<in> set (workers ns)"
    using mem n by (simp_all add: workers_def)
  ultimately have "n = m" unfolding inj_on_def by blast
  then show False using mem n(5) by simp
qed

section \<open>Functions known and functions served\<close>

text \<open>
  The reverse proxy serves exactly the functions that are stored for redeployment, and
  each by at least one handler.
\<close>

definition front_ok :: "'w front \<Rightarrow> bool" where
  "front_ok s \<longleftrightarrow> (case s of (r, reg, w) \<Rightarrow>
     hosts_ok r \<and> (\<forall>name. hosts r name = None \<longleftrightarrow> funcs (reg_funcs reg) name = None))"

lemma set_funcs_simps [simp]:
  "nodes (set_funcs f reg) = nodes reg" "reg_funcs (set_funcs f reg) = f (reg_funcs reg)"
  by (simp_all add: set_funcs_def)

lemma config_front_ok:
  assumes "config_handler e p decode ks m b s = (out, s')" and "front_ok s"
  shows "front_ok s'"
  using assms
  by (auto simp: config_handler_def front_ok_def Let_def Add_def Del_def hosts_ok_def
      store_Set_def store_Remove_def split: prod.splits option.splits if_splits)

lemma reg_funcs_Load [simp]:
  "reg_funcs (IncLoad i r) = reg_funcs r" "reg_funcs (DecLoad i r) = reg_funcs r"
  "reg_funcs (TouchNode i t r) = reg_funcs r"
  by (simp_all add: IncLoad_def DecLoad_def TouchNode_def)

lemma reg_funcs_Activate:
  assumes "ActivateNode e p i (r, w) = (c, r', w')"
  shows "reg_funcs r' = reg_funcs r"
  using activate_begin_cases [of r i]
proof cases
  case (lead n r1)
  then show ?thesis using ActivateNode_lead_result [OF lead(1-3) assms] by blast
qed (use assms in \<open>auto simp: ActivateNode_def split: option.splits prod.splits\<close>)

lemma serve_front_ok:
  assumes "serve e p thr c req (rp, reg, w) = (out, rp', reg', w')" and "front_ok (rp, reg, w)"
  shows "front_ok (rp', reg', w')"
  using assms(1)
proof (cases rule: serve_cases)
  case (panics n x)
  then show ?thesis using assms(2) reg_funcs_Activate by (fastforce simp: front_ok_def)
next
  case (failed n x)
  then show ?thesis using assms(2) reg_funcs_Activate by (fastforce simp: front_ok_def)
next
  case (here n b a h reg1 w1 reg3)
  have "reg_funcs reg1 = reg_funcs reg" using reg_funcs_Activate [OF here(3)] .
  moreover have "hosts rp' = hosts rp"
    using here(4) Call_hosts by (fastforce simp: serve_local_def split: call.splits prod.splits)
  ultimately show ?thesis
    using assms(2) serve_local_used [OF here(4)] here(5)
    by (simp add: front_ok_def hosts_ok_def)
next
  case (remote n b h reg1 w1 reg3)
  have "reg_funcs reg1 = reg_funcs reg" using reg_funcs_Activate [OF remote(3)] .
  moreover have "rp' = rp"
    using remote(4) by (auto simp: serve_remote_def Let_def split: sum.splits option.splits prod.splits if_splits)
  ultimately show ?thesis
    using assms(2) serve_remote_used [OF remote(4)] remote(5)
    by (simp add: front_ok_def)
qed (use assms(2) in simp_all)

section \<open>The leader as a sequence of operations\<close>

text \<open>
  Requests, configuration changes and rounds of the loop, one after the other. A round is
  taken here only while no node is dead.
\<close>

definition none_dead :: "registry \<Rightarrow> bool" where
  "none_dead r \<longleftrightarrow> (\<forall>i n. nodes r i = Some n \<longrightarrow> Status n \<noteq> NodeDead)"

inductive leader_step ::
  "'w ext \<Rightarrow> (string \<Rightarrow> rproxy_config option) \<Rightarrow> controller_config \<Rightarrow> 'w front \<Rightarrow> 'w front \<Rightarrow> bool"
  for e :: "'w ext" and decode :: "string \<Rightarrow> rproxy_config option" and cfg :: controller_config where
  invocation: "serve e p (LoadThreshold cfg) c req s = (out, s') \<Longrightarrow> leader_step e decode cfg s s'"
| configuration: "config_handler e p decode ks m b s = (out, s') \<Longrightarrow> leader_step e decode cfg s s'"
| round: "none_dead reg \<Longrightarrow> controller_round e cfg ks (reg, w) = (reg', w') \<Longrightarrow>
     leader_step e decode cfg (r, reg, w) (r, reg', w')"

inductive_cases leader_stepE: "leader_step e decode cfg s s'"

lemma leader_steps_invariant:
  assumes "(leader_step e decode cfg)\<^sup>*\<^sup>* s s'" and "P s"
    and "\<And>s s'. P s \<Longrightarrow> leader_step e decode cfg s s' \<Longrightarrow> P s'"
  shows "P s'"
  using assms by (induction rule: rtranclp_induct) auto

lemma scale_down_funcs: "reg_funcs (fst (snd (scale_down e cfg ns a rw))) = reg_funcs (fst rw)"
proof (induction ns arbitrary: a rw)
  case Nil
  then show ?case by simp
next
  case (Cons n ns)
  obtain r w where rw: "rw = (r, w)" by (cases rw)
  obtain x r1 w1 where d: "DeactivateNode e (ID n) (r, w) = (x, r1, w1)"
    using prod_cases3 by blast
  have "reg_funcs r1 = reg_funcs r" using DeactivateNode_result [OF d] by auto
  then show ?case using Cons rw d by (simp split: option.splits)
qed

lemma recover_funcs: "reg_funcs (fst (foldl (recover_step e cd) rw ns)) = reg_funcs (fst rw)"
proof (induction ns arbitrary: rw)
  case Nil
  then show ?case by simp
next
  case (Cons n ns)
  have "reg_funcs (fst (recover_step e cd rw n)) = reg_funcs (fst rw)"
    by (cases rw) (auto simp: recover_step_def split: prod.splits bool.splits)
  with Cons show ?case by simp
qed

lemma round_funcs: "reg_funcs (fst (controller_round e cfg ks (reg, w))) = reg_funcs reg"
  by (simp add: controller_round_def Let_def scale_down_funcs RecoverDead_def recover_funcs)

lemma leader_step_front_ok: "front_ok s \<Longrightarrow> leader_step e decode cfg s s' \<Longrightarrow> front_ok s'"
proof (erule leader_stepE)
  fix p c req out
  assume "front_ok s" "serve e p (LoadThreshold cfg) c req s = (out, s')"
  then show ?thesis using serve_front_ok by (cases s; cases s') fastforce
next
  fix p ks m b out
  assume "front_ok s" "config_handler e p decode ks m b s = (out, s')"
  then show ?thesis using config_front_ok by blast
next
  fix reg ks w reg' w' r
  assume ok: "front_ok s" and run: "controller_round e cfg ks (reg, w) = (reg', w')"
    and s: "s = (r, reg, w)" "s' = (r, reg', w')"
  have "reg_funcs reg' = reg_funcs reg" using round_funcs [of e cfg ks reg w] run by simp
  then show ?thesis using ok s by (simp add: front_ok_def)
qed

lemma front_ok_start:
  assumes "leader_start getenv readFile unmarshal argv = Running l"
  shows "front_ok (l_rproxy l, l_registry l, w)"
  using assms
  by (auto simp: leader_start_def Let_def front_ok_def hosts_ok_New AddNodes_rest NewRegistry_def
      NewFunctionStore_def split: if_splits option.splits prod.splits sum.splits)
    (simp_all add: New_def)

section \<open>Relays under the leader's operations\<close>

context power_world
begin

lemma Call_quiet:
  assumes "Call e rnd ho name b a h (r, w) = (x, r', w')"
  shows "quiet w w'"
  using assms quiet_steps(2)
  by (auto simp: Call_def Let_def split: option.splits if_splits prod.splits sum.splits)

lemma serve_local_quiet:
  assumes "serve_local e c n p b a h (rp, r, w) = (out, rp', r', w')"
  shows "quiet w w'"
  using assms Call_quiet by (fastforce simp: serve_local_def Let_def split: call.splits prod.splits)

lemma serve_remote_quiet:
  assumes "serve_remote e c n p b h (rp, r, w) = (out, rp', r', w')"
  shows "quiet w w'"
  using assms quiet_steps(2)
  by (auto simp: serve_remote_def Let_def split: sum.splits option.splits prod.splits if_splits)

lemma settled_counts:
  assumes "settled (r, w)"
  shows "settled (IncLoad i r, w)" "settled (DecLoad i r, w)" "settled (TouchNode i t r, w)"
  using assms by (simp_all add: IncLoad_def DecLoad_def TouchNode_def settled_modify wiring_def)

lemma settled_serve:
  assumes st: "settled (reg, w)" and run: "serve e p thr c req (rp, reg, w) = (out, rp', reg', w')"
  shows "settled (reg', w')"
  using run
proof (cases rule: serve_cases)
  case (panics n x)
  then show ?thesis using settled_ActivateNode [OF st] by blast
next
  case (failed n x)
  then show ?thesis using settled_ActivateNode [OF st] by blast
next
  case (here n b a h reg1 w1 reg3)
  have "settled (IncLoad (ID n) reg1, w')"
    using settled_quiet [OF settled_counts(1) [OF settled_ActivateNode [OF st here(3)]]]
      serve_local_quiet [OF here(4)] by blast
  then show ?thesis
    using serve_local_used [OF here(4)] here(5) settled_counts by simp
next
  case (remote n b h reg1 w1 reg3)
  have "settled (IncLoad (ID n) reg1, w')"
    using settled_quiet [OF settled_counts(1) [OF settled_ActivateNode [OF st remote(3)]]]
      serve_remote_quiet [OF remote(4)] by blast
  then show ?thesis
    using serve_remote_used [OF remote(4)] remote(5) settled_counts by simp
qed (use st in simp_all)

lemma broadcast_quiet:
  "(\<And>n x w w'. send n w = (x, w') \<Longrightarrow> quiet w w') \<Longrightarrow> quiet w (broadcast_each send ns w)"
proof (induction ns arbitrary: w)
  case Nil
  then show ?case by simp
next
  case (Cons n ns)
  have "quiet w (snd (send n w))" using Cons.prems by (metis prod.collapse)
  then show ?case using Cons quiet_trans by fastforce
qed

lemma deployFunction_quiet: "deployFunction e eo a name def w = (x, w') \<Longrightarrow> quiet w w'"
  using quiet_steps(2) by (auto simp: deployFunction_def split: prod.splits sum.splits if_splits)

lemma deleteFunction_quiet: "deleteFunction e a name w = (x, w') \<Longrightarrow> quiet w w'"
  using quiet_steps(2) by (auto simp: deleteFunction_def split: prod.splits sum.splits if_splits)

lemma settled_set_funcs: "settled (reg, w) \<Longrightarrow> settled (set_funcs f reg, w)"
  by (simp add: settled_def agrees_def separate_def leader_up_def)

lemma settled_config:
  assumes "settled (reg, w)" and "config_handler e p decode ks m b (r, reg, w) = (out, r', reg', w')"
  shows "settled (reg', w')"
proof -
  have "quiet w (BroadcastFunction e p ks name def g w)" for name def g
    unfolding BroadcastFunction_def by (rule broadcast_quiet) (rule deployFunction_quiet)
  moreover have "quiet w (BroadcastDelete e ks name g w)" for name g
    unfolding BroadcastDelete_def by (rule broadcast_quiet) (rule deleteFunction_quiet)
  ultimately show ?thesis
    using assms settled_quiet [OF settled_set_funcs [OF assms(1)]]
    by (auto simp: config_handler_def Let_def split: option.splits prod.splits if_splits)
qed

lemma settled_leader_step:
  "settled (snd s) \<Longrightarrow> leader_step e decode cfg s s' \<Longrightarrow> settled (snd s')"
proof (erule leader_stepE)
  fix p c req out
  assume "settled (snd s)" "serve e p (LoadThreshold cfg) c req s = (out, s')"
  then show ?thesis using settled_serve by (cases s; cases s') fastforce
next
  fix p ks m b out
  assume "settled (snd s)" "config_handler e p decode ks m b s = (out, s')"
  then show ?thesis using settled_config by (cases s; cases s') fastforce
next
  fix reg ks w reg' w' r
  assume "settled (snd s)" "none_dead reg" "controller_round e cfg ks (reg, w) = (reg', w')"
    "s = (r, reg, w)" "s' = (r, reg', w')"
  then show ?thesis using settled_round [of "(reg, w)" cfg ks] by (simp add: none_dead_def)
qed

end

end
