(* ===== verification/Mgmt_Api.thy ===== *)
theory Mgmt_Api
  imports Manager_Facts Leader_Main
begin

text \<open>
  \<^verbatim>\<open>cmd/manager/main.go\<close>: the management process of a node. It reads the ports from the
  environment, starts the reverse proxy with them, and answers the HTTP endpoints of the
  management service. The handlers get the method and the body of the request; JSON
  decoders are arguments.
\<close>

section \<open>Ports\<close>

definition default_ports :: "string \<rightharpoonup> int" where
  "default_ports = [''coap'' \<mapsto> 5683, ''http'' \<mapsto> 8000, ''grpc'' \<mapsto> 9000]"

datatype port_error = NotAnInteger string | TooLarge string

text \<open>The range loop over \<open>ports\<close>, which may delete the key it is at.\<close>

fun read_ports :: "environment \<Rightarrow> string list \<Rightarrow> (string \<rightharpoonup> int) \<Rightarrow> port_error + (string \<rightharpoonup> int)" where
  "read_ports getenv [] ports = Inr ports"
| "read_ports getenv (p # ps) ports =
     (if ports p = None then read_ports getenv ps ports
      else let portstr = getenv (p @ ''_PORT'')
      in if portstr = [] then read_ports getenv ps ports
      else case Atoi portstr of
        None \<Rightarrow> Inl (NotAnInteger p)
      | Some port \<Rightarrow>
          if port < 0 then read_ports getenv ps (ports(p := None))
          else if port > 65535 then Inl (TooLarge p)
          else read_ports getenv ps (ports(p \<mapsto> port)))"

definition RProxyConfigPort :: int where "RProxyConfigPort = 8081"
definition RProxyListenAddress :: string where "RProxyListenAddress = []"

definition rproxyArgs :: "(string \<rightharpoonup> int) \<Rightarrow> string list \<Rightarrow> string list" where
  "rproxyArgs ports po =
     [RProxyListenAddress @ '':'' @ show_int RProxyConfigPort] @
     map (\<lambda>(prot, port). prot @ '':'' @ RProxyListenAddress @ '':'' @ show_int port) (range_items ports po)"

section \<open>Handlers\<close>

definition add_env :: "(string \<rightharpoonup> string) \<Rightarrow> string \<Rightarrow> (string \<rightharpoonup> string)" where
  "add_env envs e = (case Cut (CHR ''='') e of (k, v, ok) \<Rightarrow> if \<not> ok then envs else envs(k \<mapsto> v))"

definition parse_envs :: "string list \<Rightarrow> (string \<rightharpoonup> string)" where
  "parse_envs es = foldl add_env Map.empty es"

abbreviation reply :: "int \<Rightarrow> string \<Rightarrow> http_response call" where
  "reply c b \<equiv> respond c Map.empty b"

text \<open>How \<open>uploadHandler\<close> and \<open>urlUploadHandler\<close> answer.\<close>

fun upload_reply :: "(mgr_error + string) call \<Rightarrow> http_response call" where
  "upload_reply (Panic x) = Panic x"
| "upload_reply (Return (Inl err)) = reply HTTP_InternalServerError []"
| "upload_reply (Return (Inr res)) = reply HTTP_OK res"

definition uploadHandler ::
  "('h, 'w) node_env \<Rightarrow> string list \<Rightarrow> (string \<Rightarrow> upload_request option) \<Rightarrow> string \<Rightarrow> string \<Rightarrow>
   'h manager \<times> 'w \<Rightarrow> http_response call \<times> 'h manager \<times> 'w" where
  "uploadHandler v po decode meth body mw =
     (if meth \<noteq> MethodPost then (reply HTTP_BadRequest [], mw)
      else case decode body of
        None \<Rightarrow> (reply HTTP_BadRequest [], mw)
      | Some d \<Rightarrow>
          (case Upload v po (up_name d) (up_env d) (up_threads d) (up_zip d) (parse_envs (up_envs d)) mw of
             (res, mw1) \<Rightarrow> (upload_reply res, mw1)))"

definition deleteHandler ::
  "('h, 'w) node_env \<Rightarrow> (string \<Rightarrow> string option) \<Rightarrow> string \<Rightarrow> string \<Rightarrow>
   'h manager \<times> 'w \<Rightarrow> http_response call \<times> 'h manager \<times> 'w" where
  "deleteHandler v decode meth body mw =
     (if meth \<noteq> MethodPost then (reply HTTP_BadRequest [], mw)
      else case decode body of
        None \<Rightarrow> (reply HTTP_BadRequest [], mw)
      | Some name \<Rightarrow>
          (case Delete v name mw of
             (Panic x, mw1) \<Rightarrow> (Panic x, mw1)
           | (Return (Some _), mw1) \<Rightarrow> (reply HTTP_InternalServerError [], mw1)
           | (Return None, mw1) \<Rightarrow> (reply HTTP_OK [], mw1)))"

definition listHandler :: "string list \<Rightarrow> string \<Rightarrow> 'h manager \<Rightarrow> http_response call" where
  "listHandler ks meth ms =
     (if meth \<noteq> MethodGet then reply HTTP_BadRequest []
      else reply HTTP_OK (concat (map (\<lambda>f. f @ ''\<newline>'') (List ks ms))))"

definition wipeHandler ::
  "('h, 'w) node_env \<Rightarrow> string list \<Rightarrow> string \<Rightarrow> 'h manager \<times> 'w \<Rightarrow>
   http_response call \<times> 'h manager \<times> 'w" where
  "wipeHandler v ks meth mw =
     (if meth \<noteq> MethodPost then (reply HTTP_BadRequest [], mw)
      else case Wipe v ks mw of
        (Panic x, mw1) \<Rightarrow> (Panic x, mw1)
      | (Return (Some _), mw1) \<Rightarrow> (reply HTTP_InternalServerError [], mw1)
      | (Return None, mw1) \<Rightarrow> (reply HTTP_OK [], mw1))"

text \<open>\<open>name\<close> is the query parameter, empty when there is none.\<close>

definition logsHandler ::
  "('h, 'w) node_env \<Rightarrow> string list \<Rightarrow> string \<Rightarrow> string \<Rightarrow> 'h manager \<times> 'w \<Rightarrow> http_response call \<times> 'w" where
  "logsHandler v ks meth name mw =
     (if meth \<noteq> MethodGet then (reply HTTP_BadRequest [], snd mw)
      else case (if name = [] then Logs v ks mw else LogsFunction v name mw) of
        (Inl _, w1) \<Rightarrow> (reply HTTP_InternalServerError [], w1)
      | (Inr logs, w1) \<Rightarrow> (reply HTTP_OK logs, w1))"

record url_request =
  ur_name :: string
  ur_env :: string
  ur_threads :: int
  ur_url :: string
  ur_envs :: "string list"
  ur_subfolder :: string

definition urlUploadHandler ::
  "('h, 'w) node_env \<Rightarrow> string list \<Rightarrow> (string \<Rightarrow> url_request option) \<Rightarrow> string \<Rightarrow> string \<Rightarrow>
   'h manager \<times> 'w \<Rightarrow> http_response call \<times> 'h manager \<times> 'w" where
  "urlUploadHandler v po decode meth body mw =
     (if meth \<noteq> MethodPost then (reply HTTP_BadRequest [], mw)
      else case decode body of
        None \<Rightarrow> (reply HTTP_BadRequest [], mw)
      | Some d \<Rightarrow>
          (case UrlUpload v po (ur_name d) (ur_env d) (ur_threads d) (ur_url d) (ur_subfolder d)
                  (parse_envs (ur_envs d)) mw of
             (res, mw1) \<Rightarrow> (upload_reply res, mw1)))"

definition healthHandler :: "('h, 'w) node_env \<Rightarrow> string \<Rightarrow> 'w \<Rightarrow> http_response call \<times> 'w" where
  "healthHandler v meth w =
     (if meth \<noteq> MethodGet then (reply HTTP_MethodNotAllowed [], w)
      else case Healthy v w of
        (Some _, w1) \<Rightarrow> (reply HTTP_ServiceUnavailable [], w1)
      | (None, w1) \<Rightarrow> (reply HTTP_OK [], w1))"

text \<open>Not registered with the server: it answers and does nothing.\<close>

definition touchHandler :: "(string \<Rightarrow> string option) \<Rightarrow> string \<Rightarrow> string \<Rightarrow> http_response call" where
  "touchHandler decode meth body =
     (if meth \<noteq> MethodPost then reply HTTP_BadRequest []
      else case decode body of None \<Rightarrow> reply HTTP_BadRequest [] | Some _ \<Rightarrow> reply HTTP_OK [])"

section \<open>From one node to another\<close>

text \<open>Environment variables survive the way over \<open>key=value\<close> strings.\<close>

lemma add_env_pair: "CHR ''='' \<notin> set k \<Longrightarrow> add_env m (k @ ''='' @ v) = m(k \<mapsto> v)"
  by (simp add: add_env_def Cut_join)

lemma parse_envs_foldl:
  assumes "\<forall>kv \<in> set kvs. CHR ''='' \<notin> set (fst kv)"
  shows "foldl add_env m (map (\<lambda>(k, v). k @ ''='' @ v) kvs) = foldl (\<lambda>m (k, v). m(k \<mapsto> v)) m kvs"
  using assms
proof (induction kvs arbitrary: m)
  case Nil
  then show ?case by simp
next
  case (Cons kv kvs)
  have "add_env m (case kv of (k, v) \<Rightarrow> k @ ''='' @ v) = (case kv of (k, v) \<Rightarrow> m(k \<mapsto> v))"
    using Cons.prems add_env_pair by (cases kv) simp
  moreover have "foldl add_env m' (map (\<lambda>(k, v). k @ ''='' @ v) kvs) = foldl (\<lambda>m (k, v). m(k \<mapsto> v)) m' kvs"
    for m'
    by (rule Cons.IH) (use Cons.prems in simp)
  ultimately show ?case by (simp only: list.map foldl_Cons)
qed

lemma parse_envs_roundtrip:
  assumes "range_order m eo" and "\<forall>k \<in> dom m. CHR ''='' \<notin> set k"
  shows "parse_envs (map (\<lambda>(k, v). k @ ''='' @ v) (range_items m eo)) = m"
proof -
  have "\<forall>kv \<in> set (range_items m eo). CHR ''='' \<notin> set (fst kv)"
    using assms by (auto simp: range_items_order)
  then have "parse_envs (map (\<lambda>(k, v). k @ ''='' @ v) (range_items m eo)) =
      foldl (\<lambda>m (k, v). m(k \<mapsto> v)) Map.empty (range_items m eo)"
    unfolding parse_envs_def by (rule parse_envs_foldl)
  also have "\<dots> = m" by (rule gomap_copy [OF assms(1)])
  finally show ?thesis .
qed

text \<open>The keys that \<open>parse_envs\<close> itself produces have no separator.\<close>

lemma add_env_keys:
  assumes "\<forall>k \<in> dom m. CHR ''='' \<notin> set k"
  shows "\<forall>k \<in> dom (add_env m e). CHR ''='' \<notin> set k"
proof -
  obtain b a ok where c: "Cut (CHR ''='') e = (b, a, ok)" using prod_cases3 by blast
  then show ?thesis using assms Cut_before [OF c] by (auto simp: add_env_def)
qed

lemma parse_envs_keys: "\<forall>k \<in> dom (parse_envs es). CHR ''='' \<notin> set k"
  unfolding parse_envs_def
  by (rule foldl_invariant [where P = "\<lambda>m. \<forall>k \<in> dom m. CHR ''='' \<notin> set k"])
    (simp, rule add_env_keys)

lemma upload_roundtrip:
  assumes "range_order (fd_envs def) eo" and "\<forall>k \<in> dom (fd_envs def). CHR ''='' \<notin> set k"
    and "decode body = Some (upload_of eo name def)"
  shows "uploadHandler v po decode MethodPost body mw =
    (case createFunction v name (fd_env def) (fd_threads def) (fd_zip def) [] (fd_envs def) mw of
       (Panic x, mw1) \<Rightarrow> (Panic x, mw1)
     | (Return (Inl err), mw1) \<Rightarrow> (reply HTTP_InternalServerError [], mw1)
     | (Return (Inr n), mw1) \<Rightarrow> (reply HTTP_OK (endpoints (fst mw1) po n), mw1))"
  using assms parse_envs_roundtrip [OF assms(1,2)]
  by (simp add: uploadHandler_def Upload_def upload_of_def DecodeString_EncodeToString
      split: prod.splits call.splits sum.splits)

section \<open>Starting the reverse proxy\<close>

lemma to_lower_digit: "is_digit c \<Longrightarrow> to_lower c = c"
  by (simp add: is_digit_def to_lower_def is_upper_def code_of_def)

lemma show_nat_digits: "list_all is_digit (show_nat n)"
proof (induction n rule: less_induct)
  case (less n)
  have d: "is_digit (char_of (48 + k))" if "k < 10" for k :: nat
  proof -
    have "(of_char (char_of (48 + k) :: char) :: int) = int (of_char (char_of (48 + k) :: char))"
      by (simp only: of_nat_of_char)
    also have "(of_char (char_of (48 + k) :: char) :: nat) = 48 + k"
      using that by (simp only: of_char_of) simp
    finally have "(of_char (char_of (48 + k) :: char) :: int) = 48 + int k" by simp
    then show ?thesis using that by (simp add: is_digit_def)
  qed
  show ?case
  proof (cases "n < 10")
    case True
    then show ?thesis using d by (subst show_nat.simps) simp
  next
    case False
    then show ?thesis using less.IH [of "n div 10"] d [of "n mod 10"]
      by (subst show_nat.simps) simp
  qed
qed

lemma ToLower_show_int: "ToLower (show_int i) = show_int i"
proof -
  have d: "map to_lower (show_nat n) = show_nat n" for n
    using show_nat_digits [of n] to_lower_digit by (simp add: list_all_iff map_idI)
  have "to_lower (CHR ''-'') = CHR ''-''"
    by (simp add: to_lower_def is_upper_def code_of_def)
  then show ?thesis using d by (simp add: ToLower_def show_int_def)
qed

text \<open>The protocols of \<open>ports\<close>: lower case, and without a colon.\<close>

definition plain_prot :: "string \<Rightarrow> bool" where
  "plain_prot p \<longleftrightarrow> ToLower p = p \<and> CHR '':'' \<notin> set p"

lemma default_ports_plain: "p \<in> dom default_ports \<Longrightarrow> plain_prot p"
  by (auto simp: default_ports_def plain_prot_def ToLower_def to_lower_def is_upper_def code_of_def
      split: if_splits)

lemma read_ports_Cons:
  assumes "read_ports getenv (p # ps) ports = Inr ports'"
  obtains x where "read_ports getenv ps (ports(p := x)) = Inr ports'"
    "x = ports p \<or> (ports p \<noteq> None \<and> (\<forall>n. x = Some n \<longrightarrow> 0 \<le> n \<and> n \<le> 65535))"
proof -
  let ?v = "getenv (p @ ''_PORT'')"
  consider (skip) "ports p = None \<or> ?v = []" | (bad) "ports p \<noteq> None" "?v \<noteq> []" "Atoi ?v = None"
    | (port) n where "ports p \<noteq> None" "?v \<noteq> []" "Atoi ?v = Some n" by blast
  then show thesis
  proof cases
    case skip
    then have "read_ports getenv ps (ports(p := ports p)) = Inr ports'"
      using assms by (auto simp: Let_def split: if_splits)
    then show thesis using that by blast
  next
    case bad
    then show thesis using assms by (auto simp: Let_def split: if_splits)
  next
    case (port n)
    then have eq: "read_ports getenv (p # ps) ports =
        (if n < 0 then read_ports getenv ps (ports(p := None))
         else if n > 65535 then Inl (TooLarge p) else read_ports getenv ps (ports(p \<mapsto> n)))"
      by (simp only: read_ports.simps Let_def if_False option.case)
    show thesis
    proof (cases "n < 0")
      case True
      then show thesis using assms eq that [of None] port(1) by simp
    next
      case False
      then have "n \<le> 65535" "read_ports getenv ps (ports(p \<mapsto> n)) = Inr ports'"
        using assms eq by (auto split: if_splits)
      then show thesis using False that [of "Some n"] port(1) by simp
    qed
  qed
qed

lemma read_ports_dom: "read_ports getenv ps ports = Inr ports' \<Longrightarrow> dom ports' \<subseteq> dom ports"
proof (induction ps arbitrary: ports)
  case Nil
  then show ?case by simp
next
  case (Cons p ps)
  obtain x where x: "read_ports getenv ps (ports(p := x)) = Inr ports'"
    "x = ports p \<or> (ports p \<noteq> None \<and> (\<forall>n. x = Some n \<longrightarrow> 0 \<le> n \<and> n \<le> 65535))"
    by (rule read_ports_Cons [OF Cons.prems])
  have "dom (ports(p := x)) \<subseteq> dom ports" using x(2) by (cases x) (auto simp: dom_def)
  then show ?case using Cons.IH [OF x(1)] by blast
qed

lemma read_ports_range:
  assumes "read_ports getenv ps ports = Inr ports'"
    and "\<forall>p n. ports p = Some n \<longrightarrow> 0 \<le> n \<and> n \<le> 65535"
  shows "\<forall>p n. ports' p = Some n \<longrightarrow> 0 \<le> n \<and> n \<le> 65535"
  using assms
proof (induction ps arbitrary: ports)
  case Nil
  then show ?case by simp
next
  case (Cons p ps)
  obtain x where x: "read_ports getenv ps (ports(p := x)) = Inr ports'"
    "x = ports p \<or> (ports p \<noteq> None \<and> (\<forall>n. x = Some n \<longrightarrow> 0 \<le> n \<and> n \<le> 65535))"
    by (rule read_ports_Cons [OF Cons.prems(1)])
  have "\<forall>q n. (ports(p := x)) q = Some n \<longrightarrow> 0 \<le> n \<and> n \<le> 65535"
    using x(2) Cons.prems(2) by simp metis
  then show ?case by (rule Cons.IH [OF x(1)])
qed

lemma parse_listeners_args:
  assumes "\<forall>kv \<in> set kvs. plain_prot (fst kv)"
  shows "parse_listeners (map (\<lambda>(prot, port). prot @ '':'' @ RProxyListenAddress @ '':'' @ show_int port) kvs) m =
    Some (foldl (\<lambda>m (k, x). m(k \<mapsto> x)) m (map (\<lambda>(k, n). (k, '':'' @ show_int n)) kvs))"
  using assms
proof (induction kvs arbitrary: m)
  case Nil
  then show ?case by simp
next
  case (Cons kv kvs)
  obtain k n where kv: "kv = (k, n)" by (cases kv)
  have k: "ToLower k = k" "CHR '':'' \<notin> set k" using Cons.prems kv by (simp_all add: plain_prot_def)
  have "ToLower (CHR '':'' # show_int n) = CHR '':'' # show_int n"
    using ToLower_show_int [of n] by (simp add: ToLower_def to_lower_def is_upper_def code_of_def)
  then show ?case
    using Cons kv k Cut_join [OF k(2), of "CHR '':'' # show_int n"]
    by (simp add: RProxyListenAddress_def fun_upd_def)
qed

lemma rproxyArgs_parsed:
  assumes "range_order ports po" and "\<forall>p \<in> dom ports. plain_prot p"
  shows "parse_listeners (tl (rproxyArgs ports po)) Map.empty =
    Some (\<lambda>p. map_option (\<lambda>n. '':'' @ show_int n) (ports p))"
proof -
  let ?kvs = "range_items ports po"
  have pl: "\<forall>kv \<in> set ?kvs. plain_prot (fst kv)"
    using assms by (auto simp: range_items_order)
  have "foldl (\<lambda>m (k, x). m(k \<mapsto> x)) Map.empty (map (\<lambda>(k, n). (k, '':'' @ show_int n)) ?kvs) =
      map_of (map (\<lambda>(k, n). (k, '':'' @ show_int n)) ?kvs)"
  proof -
    have "distinct (map fst (map (\<lambda>(k, n). (k, '':'' @ show_int n)) ?kvs))"
      using distinct_range_items [OF range_order_distinct [OF assms(1)], of ports]
      by (simp add: comp_def split_beta)
    then show ?thesis
      using gomap.lookup_puts [where s = Map.empty and kvs = "map (\<lambda>(k, n). (k, '':'' @ show_int n)) ?kvs"]
        map_of_rev_distinct by fastforce
  qed
  also have "\<dots> = (\<lambda>p. map_option (\<lambda>n. '':'' @ show_int n) (map_of ?kvs p))"
    by (rule ext) (simp add: map_of_map)
  finally show ?thesis
    using parse_listeners_args [OF pl, of Map.empty] range_items_map_of [OF assms(1)]
    by (simp add: rproxyArgs_def)
qed

lemma rproxyArgs_length:
  assumes "range_order ports po"
  shows "length (rproxyArgs ports po) = 1 + card (dom ports)"
proof -
  have "length (range_items ports po) = length (map fst (range_items ports po))" by simp
  also have "\<dots> = length po"
    using range_order_set [OF assms] by (simp add: range_items_keys domIff filter_True)
  also have "\<dots> = card (dom ports)"
    using assms by (metis distinct_card range_order_def)
  finally show ?thesis by (simp add: rproxyArgs_def)
qed

end
