(* ===== verification/Samples.thy ===== *)
theory Samples
  imports Mgmt_Api
begin

text \<open>
  Small concrete worlds, topologies and configurations, at which the properties of the
  root theory are instantiated. Nothing else depends on them.
\<close>

section \<open>Worlds\<close>

text \<open>Every operation succeeds and every answer is 200; the world is a clock.\<close>

definition good_ext :: "int ext" where
  "good_ext =
     \<lparr>PowerOn = (\<lambda>u ch w. (None, w)), PowerOff = (\<lambda>u ch w. (None, w)),
      HttpGet = (\<lambda>u w. (Inr (200, Some ''ok''), w)), HttpPost = (\<lambda>u b w. (Inr (200, Some ''ok''), w)),
      ValidURL = (\<lambda>_. True), Now = (\<lambda>w. w), Sleep = (\<lambda>d w. w + d)\<rparr>"

text \<open>The same, with relays that cannot be reached and peers that do not answer.\<close>

definition dark_ext :: "int ext" where
  "dark_ext = good_ext\<lparr>PowerOn := (\<lambda>u ch w. (Some (OpenFailed u ''gone''), w)),
     HttpGet := (\<lambda>u w. (Inl (Transport ''refused''), w))\<rparr>"

text \<open>Relays work, peers do not answer.\<close>

definition mute_ext :: "int ext" where
  "mute_ext = good_ext\<lparr>HttpGet := (\<lambda>u w. (Inl (Transport ''refused''), w))\<rparr>"

text \<open>Bricklets that hold a pair of positions each, and a network without a clock.\<close>

definition sample_hw :: "(string \<Rightarrow> positions) relay_hw" where
  "sample_hw =
     \<lparr>hw_connect = (\<lambda>h p s. (None, s)), hw_open = (\<lambda>u s. (None, s)), hw_get = (\<lambda>u s. (Inr (s u), s)),
      hw_set = (\<lambda>u a b s. (None, s(u := (a, b)))), hw_close = (\<lambda>s. s)\<rparr>"

definition sample_net :: "unit net" where
  "sample_net =
     \<lparr>net_get = (\<lambda>u n. (Inr (200, Some ''ok''), n)), net_post = (\<lambda>u b n. (Inr (200, Some ''ok''), n)),
      net_url = (\<lambda>_. True), net_now = (\<lambda>n. 0), net_sleep = (\<lambda>d n. n)\<rparr>"

text \<open>The same without an answer to any GET.\<close>

definition mute_net :: "unit net" where
  "mute_net = sample_net\<lparr>net_get := (\<lambda>u n. (Inl (Transport ''refused''), n))\<rparr>"

section \<open>Nodes\<close>

definition head_node :: node where
  "head_node = zero_node\<lparr>ID := ''l'', Local := True, Status := NodeActive\<rparr>"

definition worker_node :: node where
  "worker_node = zero_node\<lparr>ID := ''w'', Address := ''10.0.0.2:8000'', ManagerAddress := ''10.0.0.2:8080'',
     Status := NodeSleeping\<rparr>"

definition second_worker :: node where
  "second_worker = worker_node\<lparr>ID := ''v'', Channel := 1\<rparr>"

definition one_node :: "node \<Rightarrow> registry" where
  "one_node n = (NewRegistry NewFunctionStore)\<lparr>nodes := [ID n \<mapsto> n]\<rparr>"

definition two_nodes :: "node \<Rightarrow> node \<Rightarrow> registry" where
  "two_nodes n m = (NewRegistry NewFunctionStore)\<lparr>nodes := [ID n \<mapsto> n, ID m \<mapsto> m]\<rparr>"

definition sample_params :: params where
  "sample_params = \<lparr>attempts = 1, func_order = [], env_order = (\<lambda>_. [])\<rparr>"

definition sample_choices :: "string list \<Rightarrow> choices" where
  "sample_choices ks = \<lparr>ch_nodes = ks, ch_headers = [], ch_out = [], ch_random = 0\<rparr>"

definition sample_request :: http_request where
  "sample_request = \<lparr>Method = ''POST'', URLPath = ''/f'', Header = Map.empty, Body = Some ''x''\<rparr>"

lemmas node_defs = head_node_def worker_node_def second_worker_def zero_node_def
lemmas ext_defs = good_ext_def dark_ext_def mute_ext_def

lemma one_node_simps [simp]:
  "nodes (one_node n) = [ID n \<mapsto> n]" "activations (one_node n) = Map.empty"
  "act_err (one_node n) = Map.empty" "next_act (one_node n) = 0"
  "reg_funcs (one_node n) = NewFunctionStore"
  by (simp_all add: one_node_def NewRegistry_def)

lemma two_nodes_simps [simp]:
  "nodes (two_nodes n m) = [ID n \<mapsto> n, ID m \<mapsto> m]" "activations (two_nodes n m) = Map.empty"
  "act_err (two_nodes n m) = Map.empty" "next_act (two_nodes n m) = 0"
  "reg_funcs (two_nodes n m) = NewFunctionStore"
  by (simp_all add: two_nodes_def NewRegistry_def)

lemma one_node_keyed: "keyed (one_node n)"
  by (simp add: keyed_def)

lemma one_node_order: "range_order (nodes (one_node n)) [ID n]"
  by (simp add: range_order_def)

lemma two_nodes_keyed: "keyed (two_nodes n m)"
  by (auto simp: keyed_def split: if_splits)

lemma two_nodes_order: "ID n \<noteq> ID m \<Longrightarrow> range_order (nodes (two_nodes n m)) [ID n, ID m]"
  by (auto simp: range_order_def split: if_splits)

lemma one_node_rest:
  "Status n \<noteq> NodeWaking \<Longrightarrow> at_rest (one_node n, w, \<lambda>_. Ready, LoopIdle)"
  by (auto simp: at_rest_def one_node_keyed split: if_splits)

lemma two_nodes_rest:
  "Status n \<noteq> NodeWaking \<Longrightarrow> Status m \<noteq> NodeWaking \<Longrightarrow>
     at_rest (two_nodes n m, w, \<lambda>_. Ready, LoopIdle)"
  by (auto simp: at_rest_def two_nodes_keyed split: if_splits)

definition woken :: registry where
  "woken = snd (activate_begin ''w'' (one_node worker_node))"

lemma worker_begin:
  "activate_begin ''w'' (one_node worker_node) = (BeginLead 0 [] 0 ''10.0.0.2:8080'', woken)"
  by (simp add: woken_def activate_begin_def Let_def node_defs)

lemma woken_simps [simp]: "activations woken = [''w'' \<mapsto> 0]" "act_err woken = Map.empty"
  "nodes woken = [''w'' \<mapsto> worker_node\<lparr>Status := NodeWaking\<rparr>]"
  by (simp_all add: woken_def activate_begin_def Let_def node_defs)

section \<open>A management service\<close>

text \<open>Handlers are numbers; the backend's answer to a start is its argument.\<close>

definition sample_env :: "string option \<Rightarrow> http_result \<Rightarrow> (nat, int) node_env" where
  "sample_env start res =
     \<lparr>m_ext = good_ext\<lparr>HttpPost := (\<lambda>u b w. (res, w)), HttpGet := (\<lambda>u w. (Inr (200, Some ''{}''), w))\<rparr>,
      m_be = \<lparr>be_Create = (\<lambda>n fe t d es w. (Return (Inr 7), w)), be_Stop = (\<lambda>w. (None, w)),
        be_Ping = (\<lambda>w. (None, w)), be_RemoveOrphans = (\<lambda>w. (Return None, w)), h_IPs = (\<lambda>h w. [''10.0.0.9'']), h_Start = (\<lambda>h w. (Return start, w)),
        h_Destroy = (\<lambda>h w. (None, w)), h_Logs = (\<lambda>h w. (Inr [], w))\<rparr>,
      m_fs = \<lparr>NewUUID = (\<lambda>w. (Inr ''u'', w)), MkdirAll = (\<lambda>p w. (None, w)),
        WriteFile = (\<lambda>p b w. (None, w)), Unzip = (\<lambda>z p w. (None, w)),
        RemoveAll = (\<lambda>p w. (None, w)), Remove = (\<lambda>p w. (None, w))\<rparr>\<rparr>"

definition sample_manager :: "nat manager" where
  "sample_manager = (New_manager [] [''http'' \<mapsto> 8000] 8081)\<lparr>functionHandlers := [''f'' \<mapsto> 3]\<rparr>"

section \<open>A leader\<close>

definition sample_getenv :: environment where
  "sample_getenv key = (if key = ''NODES_CONFIG'' then ''nodes.json'' else [])"

definition sample_topology :: "node list" where
  "sample_topology = [head_node, worker_node]"

definition sample_argv :: "string list" where
  "sample_argv = [''rproxy'', '':8081'', ''http::8000'', ''grpc::9000'']"

definition sample_leader :: leader_process where
  "sample_leader = \<lparr>l_addr = '':8081'', l_listeners = [''http'' \<mapsto> '':8000'', ''grpc'' \<mapsto> '':9000''],
     l_relays = NewTinkerforgeController ''localhost'' 4223 ''YOUR_UID'',
     l_registry = two_nodes head_node worker_node, l_rproxy = New,
     l_cfg = DefaultControllerConfig\<rparr>"

lemma sample_topology_valid: "ValidateNodes sample_topology = None"
  by (simp add: ValidateNodes_iff valid_topology_def worker_ok_def sample_topology_def node_defs)

lemma sample_load:
  "loadTopology sample_getenv (\<lambda>_. Inr []) (\<lambda>_. Inr sample_topology) = Inr sample_topology"
proof -
  have "map default_status sample_topology = sample_topology"
    by (simp add: sample_topology_def default_status_def node_defs)
  then show ?thesis
    by (simp add: loadTopology_def LoadNodes_def sample_getenv_def sample_topology_valid)
qed

lemma sample_cfg: "ControllerConfigFromEnv sample_getenv = DefaultControllerConfig"
  by (simp add: ControllerConfigFromEnv_def env_fallbacks sample_getenv_def Let_def)

lemma sample_start:
  "leader_start sample_getenv (\<lambda>_. Inr []) (\<lambda>_. Inr sample_topology) sample_argv = Running sample_leader"
proof -
  have "parse_listeners [''http::8000'', ''grpc::9000''] Map.empty =
      Some [''http'' \<mapsto> '':8000'', ''grpc'' \<mapsto> '':9000'']"
    by (simp add: ToLower_def to_lower_def is_upper_def code_of_def)
  moreover have "tinkerforgeConfigFromEnv sample_getenv = (''localhost'', 4223, ''YOUR_UID'')"
    by (simp add: tinkerforgeConfigFromEnv_def sample_getenv_def defaultTinkerforgeHost_def
        defaultTinkerforgePort_def defaultTinkerforgeUID_def)
  moreover have "foldl (\<lambda>reg n. AddNode n reg) (NewRegistry NewFunctionStore) sample_topology =
      two_nodes head_node worker_node"
    by (simp add: sample_topology_def AddNode_def two_nodes_def NewRegistry_def)
  ultimately show ?thesis
    by (simp add: leader_start_def sample_argv_def sample_load sample_cfg sample_leader_def)
qed

text \<open>
  The validation does not see that an empty relay name and the default relay's UID
  are the same relay: it accepts two workers on one physical outlet.
\<close>

lemma validation_misses_default_alias:
  "\<exists>ns n m. ValidateNodes ns = None \<and> n \<in> set ns \<and> m \<in> set ns \<and> ID n \<noteq> ID m \<and> \<not> Local n \<and> \<not> Local m \<and>
     (tf_canon defaultTinkerforgeUID (RelayUID n), Channel n) =
     (tf_canon defaultTinkerforgeUID (RelayUID m), Channel m)"
  by (intro exI [of _ "[head_node, worker_node, worker_node\<lparr>ID := ''u'', RelayUID := ''YOUR_UID''\<rparr>]"]
        exI [of _ worker_node] exI [of _ "worker_node\<lparr>ID := ''u'', RelayUID := ''YOUR_UID''\<rparr>"])
    (simp add: ValidateNodes_iff valid_topology_def worker_ok_def node_defs outlet_def tf_canon_def
      relayOrDefault_def defaultTinkerforgeUID_def)

end
