(* ===== verification/Docker.thy ===== *)
theory Docker
  imports Manager_Facts
begin

text \<open>
  \<^verbatim>\<open>pkg/docker/handler.go\<close>: the backend that runs functions in containers. The client of the
  Docker daemon and the two packages of its project that the source calls are the record
  \<open>docker_client\<close>; the file system and HTTP are those of the management service. A handler
  is a pointer in the source: it is a reference into a list of handlers, which is a part of
  the state.
\<close>

section \<open>State and interfaces\<close>

type_synonym labels = "(string \<times> string) list"

record container_config =
  cc_Image :: string
  cc_Labels :: labels
  cc_Env :: "string list"
  cc_NetworkMode :: string

text \<open>
  The lists take the label to filter for and give IDs; a started container is inspected for
  its address in each network; \<open>StdCopy\<close> splits a log stream into the two outputs.
\<close>

record 'd docker_client =
  dc_Ping :: "'d \<Rightarrow> string option \<times> 'd"
  dc_ContainerList :: "string \<Rightarrow> 'd \<Rightarrow> (string + string list) \<times> 'd"
  dc_NetworkList :: "string \<Rightarrow> 'd \<Rightarrow> (string + string list) \<times> 'd"
  dc_ContainerRemove :: "bool \<Rightarrow> string \<Rightarrow> 'd \<Rightarrow> string option \<times> 'd"
  dc_NetworkRemove :: "string \<Rightarrow> 'd \<Rightarrow> string option \<times> 'd"
  dc_ImageRemove :: "string \<Rightarrow> 'd \<Rightarrow> string option \<times> 'd"
  dc_Tar :: "string \<Rightarrow> 'd \<Rightarrow> (string + string) \<times> 'd"
  dc_ImageBuild :: "string \<Rightarrow> string \<Rightarrow> labels \<Rightarrow> 'd \<Rightarrow> string option \<times> 'd"
  dc_NetworkCreate :: "string \<Rightarrow> labels \<Rightarrow> 'd \<Rightarrow> (string + string) \<times> 'd"
  dc_ContainerCreate :: "container_config \<Rightarrow> string \<Rightarrow> 'd \<Rightarrow> (string + string) \<times> 'd"
  dc_ContainerStart :: "string \<Rightarrow> 'd \<Rightarrow> string option \<times> 'd"
  dc_ContainerInspect :: "string \<Rightarrow> 'd \<Rightarrow> (string + (string \<rightharpoonup> string)) \<times> 'd"
  dc_ContainerStop :: "int \<Rightarrow> string \<Rightarrow> 'd \<Rightarrow> string option \<times> 'd"
  dc_ContainerLogs :: "string \<Rightarrow> 'd \<Rightarrow> (string + string) \<times> 'd"
  dc_StdCopy :: "string \<Rightarrow> string + string \<times> string"

text \<open>
  What the backend works with; \<open>de_order\<close> is the order in which the range loop over the
  environment variables of a function runs.
\<close>

record 'd docker_env =
  de_client :: "'d docker_client"
  de_fs :: "'d files"
  de_copy_embed :: "string \<Rightarrow> string \<Rightarrow> 'd \<Rightarrow> string option \<times> 'd"
  de_copy_all :: "string \<Rightarrow> string \<Rightarrow> 'd \<Rightarrow> string option \<times> 'd"
  de_ext :: "'d ext"
  de_runtimesDir :: string
  de_order :: "(string \<rightharpoonup> string) \<Rightarrow> string list"

record docker_handler =
  dh_name :: string
  dh_env :: string
  dh_threads :: int
  uniqueName :: string
  filePath :: string
  dh_network :: string
  dh_containers :: "string list"
  handlerIPs :: "string list"

section \<open>Orphans\<close>

text \<open>Both log lines of the loop take the first twelve characters of the ID.\<close>

fun remove_containers :: "'d docker_client \<Rightarrow> string list \<Rightarrow> 'd \<Rightarrow> unit call \<times> 'd" where
  "remove_containers cl [] d = (Return (), d)"
| "remove_containers cl (c # cs) d =
     (case dc_ContainerRemove cl True c d of
        (_, d1) \<Rightarrow> if length c < 12 then (Panic SliceOutOfRange, d1) else remove_containers cl cs d1)"

fun remove_networks :: "'d docker_client \<Rightarrow> string list \<Rightarrow> 'd \<Rightarrow> 'd" where
  "remove_networks cl [] d = d"
| "remove_networks cl (n # ns) d = remove_networks cl ns (snd (dc_NetworkRemove cl n d))"

definition docker_RemoveOrphans :: "'d docker_client \<Rightarrow> 'd \<Rightarrow> string option call \<times> 'd" where
  "docker_RemoveOrphans cl d =
     (case dc_ContainerList cl ''tinyFaaS'' d of
        (Inl err, d1) \<Rightarrow> (Return (Some (''list orphaned containers: '' @ err)), d1)
      | (Inr cs, d1) \<Rightarrow>
          (case remove_containers cl cs d1 of
             (Panic x, d2) \<Rightarrow> (Panic x, d2)
           | (Return _, d2) \<Rightarrow>
               (case dc_NetworkList cl ''tinyFaaS'' d2 of
                  (Inl err, d3) \<Rightarrow> (Return (Some (''list orphaned networks: '' @ err)), d3)
                | (Inr ns, d3) \<Rightarrow> (Return None, remove_networks cl ns d3))))"

section \<open>Creating a handler\<close>

text \<open>The early return of the source: \<open>if err != nil { return nil, err }\<close>.\<close>

definition or_fail ::
  "('d \<Rightarrow> string option \<times> 'd) \<Rightarrow> ('d \<Rightarrow> (string + 'a) call \<times> 'd) \<Rightarrow> 'd \<Rightarrow> (string + 'a) call \<times> 'd" where
  "or_fail f k d = (case f d of (Some err, d1) \<Rightarrow> (Return (Inl err), d1) | (None, d1) \<Rightarrow> k d1)"

definition get_or_fail ::
  "('d \<Rightarrow> (string + 'b) \<times> 'd) \<Rightarrow> ('b \<Rightarrow> 'd \<Rightarrow> (string + 'a) call \<times> 'd) \<Rightarrow> 'd \<Rightarrow> (string + 'a) call \<times> 'd" where
  "get_or_fail f k d = (case f d of (Inl err, d1) \<Rightarrow> (Return (Inl err), d1) | (Inr x, d1) \<Rightarrow> k x d1)"

definition handler_labels :: "string \<Rightarrow> string \<Rightarrow> labels" where
  "handler_labels ident name = [(''tinyfaas-function'', name), (''tinyFaaS'', ident)]"

definition new_handler :: "string \<Rightarrow> string \<Rightarrow> int \<Rightarrow> string \<Rightarrow> docker_handler" where
  "new_handler name fenv threads uuid =
     \<lparr>dh_name = name, dh_env = fenv, dh_threads = threads, uniqueName = name @ ''-'' @ uuid,
      filePath = path_Join TmpDir (name @ ''-'' @ uuid), dh_network = [], dh_containers = [],
      handlerIPs = []\<rparr>"

text \<open>The folder from which the image is built: the runtime and, below \<open>fn\<close>, the function.\<close>

definition prepare_folder ::
  "'d docker_env \<Rightarrow> docker_handler \<Rightarrow> string \<Rightarrow> ('d \<Rightarrow> (string + 'a) call \<times> 'd) \<Rightarrow> 'd \<Rightarrow> (string + 'a) call \<times> 'd" where
  "prepare_folder de dh filedir k =
     or_fail (MkdirAll (de_fs de) (filePath dh))
       (or_fail (de_copy_embed de (path_Join (de_runtimesDir de) (dh_env dh)) (filePath dh))
         (or_fail (MkdirAll (de_fs de) (path_Join (filePath dh) ''fn''))
           (or_fail (de_copy_all de filedir (path_Join (filePath dh) ''fn'')) k)))"

definition build_image ::
  "'d docker_env \<Rightarrow> string \<Rightarrow> docker_handler \<Rightarrow> ('d \<Rightarrow> (string + 'a) call \<times> 'd) \<Rightarrow> 'd \<Rightarrow> (string + 'a) call \<times> 'd" where
  "build_image de ident dh k =
     get_or_fail (dc_Tar (de_client de) (filePath dh))
       (\<lambda>tar. or_fail (dc_ImageBuild (de_client de) tar (uniqueName dh) (handler_labels ident (dh_name dh))) k)"

text \<open>The loop over the threads; \<open>cs\<close> are the containers so far.\<close>

fun create_each ::
  "'d docker_client \<Rightarrow> container_config \<Rightarrow> string \<Rightarrow> nat list \<Rightarrow> string list \<Rightarrow> 'd \<Rightarrow> (string + string list) \<times> 'd" where
  "create_each cl cfg name [] cs d = (Inr cs, d)"
| "create_each cl cfg name (i # is) cs d =
     (case dc_ContainerCreate cl cfg (name @ ''-'' @ show_nat i) d of
        (Inl err, d1) \<Rightarrow> (Inl err, d1)
      | (Inr c, d1) \<Rightarrow> create_each cl cfg name is (cs @ [c]) d1)"

definition env_list :: "(string \<rightharpoonup> string) \<Rightarrow> string list \<Rightarrow> string list" where
  "env_list envs eo = map (\<lambda>(k, v). k @ ''='' @ v) (range_items envs eo)"

definition create_containers ::
  "'d docker_env \<Rightarrow> string \<Rightarrow> docker_handler \<Rightarrow> (string \<rightharpoonup> string) \<Rightarrow> 'd \<Rightarrow> (string + string list) \<times> 'd" where
  "create_containers de ident dh envs =
     create_each (de_client de)
       \<lparr>cc_Image = uniqueName dh, cc_Labels = handler_labels ident (dh_name dh),
        cc_Env = env_list envs (de_order de envs), cc_NetworkMode = uniqueName dh\<rparr>
       (uniqueName dh) [0..<nat (dh_threads dh)] []"

text \<open>
  From the network on. An early return gives nothing back: not the network, and not the
  containers that were created before the one that failed.
\<close>

definition provision ::
  "'d docker_env \<Rightarrow> string \<Rightarrow> docker_handler \<Rightarrow> (string \<rightharpoonup> string) \<Rightarrow> 'd \<Rightarrow> (string + docker_handler) call \<times> 'd" where
  "provision de ident dh envs =
     get_or_fail (dc_NetworkCreate (de_client de) (uniqueName dh) (handler_labels ident (dh_name dh))) (\<lambda>net.
       get_or_fail (create_containers de ident dh envs) (\<lambda>cs.
         or_fail (RemoveAll (de_fs de) (filePath dh))
           (\<lambda>d. (Return (Inr (dh\<lparr>dh_network := net, dh_containers := cs\<rparr>)), d))))"

text \<open>\<open>make\<close> panics on a negative capacity, before anything but the UUID has been made.\<close>

definition docker_Create ::
  "'d docker_env \<Rightarrow> string \<Rightarrow> string \<Rightarrow> string \<Rightarrow> int \<Rightarrow> string \<Rightarrow> (string \<rightharpoonup> string) \<Rightarrow> 'd \<Rightarrow>
   (string + docker_handler) call \<times> 'd" where
  "docker_Create de ident name fenv threads filedir envs =
     get_or_fail (NewUUID (de_fs de)) (\<lambda>uuid.
       if threads < 0 then (\<lambda>d. (Panic MakeSliceCapacity, d))
       else
         let dh = new_handler name fenv threads uuid
         in prepare_folder de dh filedir (build_image de ident dh (provision de ident dh envs)))"

section \<open>Logs\<close>

text \<open>
  A \<^verbatim>\<open>bufio.Scanner\<close> gives the lines of a text without their ends and stops with an error
  at a line that does not fit its buffer.
\<close>

definition max_token :: nat where "max_token = 65536"

definition dropCR :: "string \<Rightarrow> string" where
  "dropCR l = (if l \<noteq> [] \<and> last l = CHR 0x0D then butlast l else l)"

fun raw_lines :: "string \<Rightarrow> string \<Rightarrow> string list" where
  "raw_lines acc [] = (if acc = [] then [] else [acc])"
| "raw_lines acc (c # cs) = (if c = CHR ''\<newline>'' then acc # raw_lines [] cs else raw_lines (acc @ [c]) cs)"

definition scan_lines :: "string \<Rightarrow> string list \<times> string option" where
  "scan_lines s =
     (let ls = raw_lines [] s; good = takeWhile (\<lambda>l. length l < max_token) ls
      in (map dropCR good, if length good < length ls then Some ''bufio.Scanner: token too long'' else None))"

definition log_lines :: "string \<Rightarrow> string \<Rightarrow> string list \<Rightarrow> string" where
  "log_lines name c ls =
     concat (map (\<lambda>l. ''function='' @ name @ '' handler='' @ c @ '' '' @ l @ ''\<newline>'') ls)"

text \<open>The result is what was read so far and an error.\<close>

definition getContainerLogs ::
  "'d docker_client \<Rightarrow> docker_handler \<Rightarrow> string \<Rightarrow> 'd \<Rightarrow> (string \<times> string option) \<times> 'd" where
  "getContainerLogs cl dh c d =
     (case dc_ContainerLogs cl c d of
        (Inl err, d1) \<Rightarrow> (([], Some err), d1)
      | (Inr l, d1) \<Rightarrow>
          (case dc_StdCopy cl l of
             Inl err \<Rightarrow> (([], Some err), d1)
           | Inr (lstdout, lstderr) \<Rightarrow>
               (case scan_lines lstdout of
                  (ls, Some err) \<Rightarrow> ((log_lines (dh_name dh) c ls, Some err), d1)
                | (ls, None) \<Rightarrow>
                    (case scan_lines lstderr of (ls', err) \<Rightarrow>
                       ((log_lines (dh_name dh) c ls @ log_lines (dh_name dh) c ls', err), d1)))))"

fun docker_logs_each ::
  "'d docker_client \<Rightarrow> docker_handler \<Rightarrow> string list \<Rightarrow> string \<Rightarrow> 'd \<Rightarrow> (string + string) \<times> 'd" where
  "docker_logs_each cl dh [] logs d = (Inr logs, d)"
| "docker_logs_each cl dh (c # cs) logs d =
     (case getContainerLogs cl dh c d of
        ((_, Some err), d1) \<Rightarrow> (Inl err, d1)
      | ((l, None), d1) \<Rightarrow> docker_logs_each cl dh cs (logs @ l) d1)"

definition docker_Logs :: "'d docker_client \<Rightarrow> docker_handler \<Rightarrow> 'd \<Rightarrow> (string + string) \<times> 'd" where
  "docker_Logs cl dh d = docker_logs_each cl dh (dh_containers dh) [] d"

section \<open>Starting\<close>

text \<open>Errors of a start are only logged.\<close>

fun start_each :: "'d docker_client \<Rightarrow> string list \<Rightarrow> 'd \<Rightarrow> 'd" where
  "start_each cl [] d = d"
| "start_each cl (c # cs) d = start_each cl cs (snd (dc_ContainerStart cl c d))"

text \<open>A container that is not in the network has no settings for it: a \<open>nil\<close> pointer.\<close>

fun inspect_each ::
  "'d docker_client \<Rightarrow> string \<Rightarrow> string list \<Rightarrow> string list \<Rightarrow> 'd \<Rightarrow> string option call \<times> string list \<times> 'd" where
  "inspect_each cl net [] ips d = (Return None, ips, d)"
| "inspect_each cl net (c # cs) ips d =
     (case dc_ContainerInspect cl c d of
        (Inl err, d1) \<Rightarrow> (Return (Some err), ips, d1)
      | (Inr settings, d1) \<Rightarrow>
          (case settings net of
             None \<Rightarrow> (Panic NilDereference, ips, d1)
           | Some ip \<Rightarrow> inspect_each cl net cs (ips @ [ip]) d1))"

definition ready_url :: "string \<Rightarrow> string" where
  "ready_url ip = ''http://'' @ ip @ '':8000/health''"

definition ready :: "http_result \<Rightarrow> bool" where
  "ready r = (case r of Inl _ \<Rightarrow> False | Inr (code, _) \<Rightarrow> code = HTTP_OK)"

text \<open>The argument is \<open>maxRetries\<close> after its decrement.\<close>

fun wait_ready :: "'d ext \<Rightarrow> string \<Rightarrow> nat \<Rightarrow> 'd \<Rightarrow> bool \<times> 'd" where
  "wait_ready e ip 0 d = (False, d)"
| "wait_ready e ip (Suc k) d =
     (case HttpGet e (ready_url ip) d of
        (r, d1) \<Rightarrow> if ready r then (True, d1) else wait_ready e ip k (Sleep e Second d1))"

definition maxRetries :: nat where "maxRetries = 10"

definition not_ready :: "string \<Rightarrow> string" where
  "not_ready ip = ''container '' @ ip @ '' not ready after 10 retries''"

fun ready_each :: "'d docker_env \<Rightarrow> docker_handler \<Rightarrow> nat \<Rightarrow> string list \<Rightarrow> 'd \<Rightarrow> string option call \<times> 'd" where
  "ready_each de dh i [] d = (Return None, d)"
| "ready_each de dh i (ip # ips) d =
     (case wait_ready (de_ext de) ip (maxRetries - 1) d of
        (True, d1) \<Rightarrow> ready_each de dh (i + 1) ips d1
      | (False, d1) \<Rightarrow>
          if length (dh_containers dh) \<le> i then (Panic IndexOutOfRange, d1)
          else case getContainerLogs (de_client de) dh (dh_containers dh ! i) d1 of
            ((_, Some err), d2) \<Rightarrow>
              (Return (Some (not_ready ip @ '', error encountered when getting logs '' @ err)), d2)
          | ((_, None), d2) \<Rightarrow> (Return (Some (not_ready ip)), d2))"

text \<open>The handler that comes back has the addresses found so far, on every way out.\<close>

definition docker_Start ::
  "'d docker_env \<Rightarrow> docker_handler \<Rightarrow> 'd \<Rightarrow> string option call \<times> docker_handler \<times> 'd" where
  "docker_Start de dh d =
     (let cl = de_client de; cs = dh_containers dh
      in case inspect_each cl (uniqueName dh) cs (handlerIPs dh) (start_each cl cs d) of
           (Return None, ips, d1) \<Rightarrow>
             (let dh1 = dh\<lparr>handlerIPs := ips\<rparr>
              in case ready_each de dh1 0 ips d1 of (res, d2) \<Rightarrow> (res, dh1, d2))
         | (res, ips, d1) \<Rightarrow> (res, dh\<lparr>handlerIPs := ips\<rparr>, d1))"

section \<open>Destroying\<close>

fun destroy_each :: "'d docker_client \<Rightarrow> string list \<Rightarrow> 'd \<Rightarrow> 'd" where
  "destroy_each cl [] d = d"
| "destroy_each cl (c # cs) d =
     destroy_each cl cs (snd (dc_ContainerRemove cl False c (snd (dc_ContainerStop cl 1 c d))))"

definition docker_Destroy :: "'d docker_client \<Rightarrow> docker_handler \<Rightarrow> 'd \<Rightarrow> string option \<times> 'd" where
  "docker_Destroy cl dh d =
     (case dc_NetworkRemove cl (dh_network dh) (destroy_each cl (dh_containers dh) d) of
        (Some err, d1) \<Rightarrow> (Some err, d1)
      | (None, d1) \<Rightarrow> dc_ImageRemove cl (uniqueName dh) d1)"

section \<open>The backend of the management service\<close>

text \<open>A handler of the service is a position in the list of handlers.\<close>

type_synonym 'd docker_world = "docker_handler list \<times> 'd"

definition docker_backend :: "'d docker_env \<Rightarrow> string \<Rightarrow> (nat, 'd docker_world) backend" where
  "docker_backend de ident =
     \<lparr>be_Create = (\<lambda>name fenv threads filedir envs (hs, d).
        case docker_Create de ident name fenv threads filedir envs d of
          (Panic x, d1) \<Rightarrow> (Panic x, hs, d1)
        | (Return (Inl err), d1) \<Rightarrow> (Return (Inl err), hs, d1)
        | (Return (Inr dh), d1) \<Rightarrow> (Return (Inr (length hs)), hs @ [dh], d1)),
      be_Stop = (\<lambda>w. (None, w)),
      be_Ping = (\<lambda>(hs, d). case dc_Ping (de_client de) d of (err, d1) \<Rightarrow> (err, hs, d1)),
      be_RemoveOrphans = (\<lambda>(hs, d). case docker_RemoveOrphans (de_client de) d of (res, d1) \<Rightarrow> (res, hs, d1)),
      h_IPs = (\<lambda>h (hs, d). if h < length hs then handlerIPs (hs ! h) else []),
      h_Start = (\<lambda>h (hs, d). if length hs \<le> h then (Panic NilDereference, hs, d)
        else case docker_Start de (hs ! h) d of (res, dh, d1) \<Rightarrow> (res, hs[h := dh], d1)),
      h_Destroy = (\<lambda>h (hs, d). if length hs \<le> h then (None, hs, d)
        else case docker_Destroy (de_client de) (hs ! h) d of (err, d1) \<Rightarrow> (err, hs, d1)),
      h_Logs = (\<lambda>h (hs, d). if length hs \<le> h then (Inr [], hs, d)
        else case docker_Logs (de_client de) (hs ! h) d of (l, d1) \<Rightarrow> (l, hs, d1))\<rparr>"

end
