(* ===== verification/Backend_Contract.thy ===== *)
theory Backend_Contract
  imports Manager_Facts
begin

text \<open>
  What the management service (\<^verbatim>\<open>pkg/manager/manager.go\<close>) relies on in a backend. The locale
  \<open>function_node\<close> is the contract of the \<open>Backend\<close> and \<open>Handler\<close> interfaces: a created handler is new, it
  has an address for each of its threads once it has started, and no operation makes a
  handler disappear. Inside it, the service's table is shown to own its handlers, through
  every operation of the service.
\<close>

section \<open>The table owns its handlers\<close>

text \<open>\<open>live\<close> says that a handler has been created.\<close>

definition owned :: "('h \<Rightarrow> 'w \<Rightarrow> bool) \<Rightarrow> 'h manager \<Rightarrow> 'w \<Rightarrow> bool" where
  "owned live ms w \<longleftrightarrow> (\<forall>n h. functionHandlers ms n = Some h \<longrightarrow> live h w) \<and>
     inj_on (functionHandlers ms) (dom (functionHandlers ms))"

definition still_live :: "('h \<Rightarrow> 'w \<Rightarrow> bool) \<Rightarrow> 'w \<Rightarrow> 'w \<Rightarrow> bool" where
  "still_live live w w' \<longleftrightarrow> (\<forall>h. live h w \<longrightarrow> live h w')"

lemma still_live_refl [simp]: "still_live live w w"
  by (simp add: still_live_def)

lemma still_live_trans: "still_live live w w1 \<Longrightarrow> still_live live w1 w2 \<Longrightarrow> still_live live w w2"
  by (simp add: still_live_def)

lemma owned_still: "owned live ms w \<Longrightarrow> still_live live w w' \<Longrightarrow> owned live ms w'"
  by (simp add: owned_def still_live_def)

lemma owned_remove: "owned live ms w \<Longrightarrow> owned live (ms\<lparr>functionHandlers := (functionHandlers ms)(n := None)\<rparr>) w"
  unfolding owned_def by (auto simp: inj_on_def split: if_splits)

lemma owned_add:
  assumes "owned live ms w" "still_live live w w'" "live h w'" "\<not> live h w"
  shows "owned live (ms\<lparr>functionHandlers := (functionHandlers ms)(n \<mapsto> h)\<rparr>) w'"
proof -
  have no: "functionHandlers ms k \<noteq> Some h" for k using assms(1,4) unfolding owned_def by auto
  have all: "live h' w'" if "functionHandlers ms k = Some h'" for k h'
    using assms(1,2) that unfolding owned_def still_live_def by blast
  have inj: "inj_on (functionHandlers ms) (dom (functionHandlers ms))" using assms(1) by (simp add: owned_def)
  have "inj_on ((functionHandlers ms)(n \<mapsto> h)) (dom ((functionHandlers ms)(n \<mapsto> h)))"
  proof (rule inj_onI)
    fix x y
    assume xy: "x \<in> dom ((functionHandlers ms)(n \<mapsto> h))" "y \<in> dom ((functionHandlers ms)(n \<mapsto> h))"
      "((functionHandlers ms)(n \<mapsto> h)) x = ((functionHandlers ms)(n \<mapsto> h)) y"
    then show "x = y"
      using no no [symmetric] inj unfolding inj_on_def by (auto split: if_splits)
  qed
  then show ?thesis unfolding owned_def using all assms(3) by (auto split: if_splits)
qed

text \<open>
  The running service: uploads, deletions and rounds of the reaper in any order, with any
  results. A panic ends the request only, since the HTTP server recovers it; in the reaper
  it would end the process, so that a round is a step when it returns.
\<close>

inductive service_step ::
  "('h, 'w) node_env \<Rightarrow> (string \<Rightarrow> (string \<rightharpoonup> time) option) \<Rightarrow> duration \<Rightarrow> 'h manager \<times> 'w \<Rightarrow> 'h manager \<times> 'w \<Rightarrow> bool"
  for v decode d where
  upload: "Upload v po name fenv threads zipped envs s = (res, s') \<Longrightarrow> service_step v decode d s s'"
| url_upload: "UrlUpload v po name fenv threads url sub envs s = (res, s') \<Longrightarrow> service_step v decode d s s'"
| delete: "Delete v name s = (res, s') \<Longrightarrow> service_step v decode d s s'"
| wipe: "Wipe v ks s = (res, s') \<Longrightarrow> service_step v decode d s s'"
| reap: "reaper_round v d decode ks s = (Return (), s') \<Longrightarrow> service_step v decode d s s'"

inductive_cases service_stepE: "service_step v decode d s s'"

lemma names_ok_shrinks: "shrinks S ms ms' \<Longrightarrow> names_ok ms \<Longrightarrow> names_ok ms'"
  unfolding shrinks_def names_ok_def by metis

lemma Delete_names_ok: "Delete v name (ms, w) = (res, ms', w') \<Longrightarrow> names_ok ms \<Longrightarrow> names_ok ms'"
  by (drule Delete_table) (simp add: names_ok_def)

lemma Upload_names_ok:
  assumes "Upload v po name fenv threads zipped envs (ms, w) = (res, ms', w')" and "names_ok ms"
  shows "names_ok ms'"
  using assms
  by (auto simp: Upload_def split: option.splits call.splits sum.splits prod.splits
      dest: createFunction_names_ok)

lemma UrlUpload_names_ok:
  assumes "UrlUpload v po name fenv threads url sub envs (ms, w) = (res, ms', w')" and "names_ok ms"
  shows "names_ok ms'"
  using assms
  by (auto simp: UrlUpload_def split: option.splits call.splits sum.splits prod.splits
      dest: createFunction_names_ok)

lemma reaper_round_names_ok:
  "reaper_round v d decode ks (ms, w) = (res, ms', w') \<Longrightarrow> names_ok ms \<Longrightarrow> names_ok ms'"
  by (auto dest!: reaper_round_table intro: names_ok_shrinks)

lemma service_step_names_ok:
  assumes "service_step v decode d (ms, w) (ms', w')" and "names_ok ms"
  shows "names_ok ms'"
  using assms
  by (elim service_stepE)
    (auto simp: Wipe_def dest: Upload_names_ok UrlUpload_names_ok Delete_names_ok
      wipe_each_shrinks [THEN names_ok_shrinks] reaper_round_names_ok)

lemma service_steps_names_ok:
  assumes "(service_step v decode d)\<^sup>*\<^sup>* (ms, w) (ms', w')" and "names_ok ms"
  shows "names_ok ms'"
  using assms(1)
proof (induction "(ms', w')" arbitrary: ms' w' rule: rtranclp_induct)
  case base
  then show ?case using assms(2) by simp
next
  case (step y)
  then show ?case using service_step_names_ok [of v decode d "fst y" "snd y" ms' w'] by (cases y) simp
qed

section \<open>The contract\<close>

locale function_node =
  fixes v :: "('h, 'w) node_env"
    and live :: "'h \<Rightarrow> 'w \<Rightarrow> bool"
    and threads_of :: "'h \<Rightarrow> 'w \<Rightarrow> int"
  assumes created: "be_Create (m_be v) name fenv threads p envs w = (Return (Inr h), w') \<Longrightarrow>
      \<not> live h w \<and> live h w' \<and> threads_of h w' = threads \<and> h_IPs (m_be v) h w' = []"
    and started: "h_Start (m_be v) h w = (Return None, w') \<Longrightarrow> live h w \<Longrightarrow> h_IPs (m_be v) h w = [] \<Longrightarrow>
      int (length (h_IPs (m_be v) h w')) = threads_of h w"
    and live_Create: "live h w \<Longrightarrow> live h (snd (be_Create (m_be v) name fenv threads p envs w))"
    and live_Start: "live h w \<Longrightarrow> live h (snd (h_Start (m_be v) h' w))"
    and live_Destroy: "live h w \<Longrightarrow> live h (snd (h_Destroy (m_be v) h' w))"
    and live_Get: "live h w \<Longrightarrow> live h (snd (HttpGet (m_ext v) u w))"
    and live_Post: "live h w \<Longrightarrow> live h (snd (HttpPost (m_ext v) u b w))"
    and live_Sleep: "live h w \<Longrightarrow> live h (Sleep (m_ext v) t w)"
    and live_UUID: "live h w \<Longrightarrow> live h (snd (NewUUID (m_fs v) w))"
    and live_Mkdir: "live h w \<Longrightarrow> live h (snd (MkdirAll (m_fs v) f w))"
    and live_Write: "live h w \<Longrightarrow> live h (snd (WriteFile (m_fs v) f z w))"
    and live_Unzip: "live h w \<Longrightarrow> live h (snd (Unzip (m_fs v) f g w))"
    and live_RemoveAll: "live h w \<Longrightarrow> live h (snd (RemoveAll (m_fs v) f w))"
    and live_Remove: "live h w \<Longrightarrow> live h (snd (Remove (m_fs v) f w))"
begin

lemmas live_files = live_UUID live_Mkdir live_Write live_Unzip live_RemoveAll live_Remove

text \<open>The same facts for an operation whose result is known.\<close>

lemma live_at:
  assumes "live h w"
  shows "be_Create (m_be v) name fenv threads p envs w = (r1, w') \<Longrightarrow> live h w'"
    and "h_Start (m_be v) h' w = (r2, w') \<Longrightarrow> live h w'"
    and "h_Destroy (m_be v) h' w = (r3, w') \<Longrightarrow> live h w'"
    and "HttpGet (m_ext v) u w = (r4, w') \<Longrightarrow> live h w'"
    and "HttpPost (m_ext v) u b w = (r4, w') \<Longrightarrow> live h w'"
    and "NewUUID (m_fs v) w = (r5, w') \<Longrightarrow> live h w'"
    and "MkdirAll (m_fs v) f w = (r3, w') \<Longrightarrow> live h w'"
    and "WriteFile (m_fs v) f z w = (r3, w') \<Longrightarrow> live h w'"
    and "Unzip (m_fs v) f g w = (r3, w') \<Longrightarrow> live h w'"
    and "tell_rproxy (m_ext v) ms b w = (r6, w') \<Longrightarrow> live h w'"
  using live_Create [OF assms, of name fenv threads p envs] live_Start [OF assms, of h']
    live_Destroy [OF assms, of h'] live_Get [OF assms, of u] live_Post [OF assms, of u b]
    live_UUID [OF assms] live_Mkdir [OF assms, of f] live_Write [OF assms, of f z]
    live_Unzip [OF assms, of f g] live_Post [OF assms, of "rproxy_url ms" b]
  by (auto simp: tell_rproxy_def split: prod.splits sum.splits http_error.splits)

lemma still_live_Create: "be_Create (m_be v) name fenv threads p envs w = (r, w') \<Longrightarrow> still_live live w w'"
  by (simp add: still_live_def live_at(1))

lemma still_live_Start: "h_Start (m_be v) h w = (r, w') \<Longrightarrow> still_live live w w'"
  by (simp add: still_live_def live_at(2))

lemma still_live_Destroy: "h_Destroy (m_be v) h w = (r, w') \<Longrightarrow> still_live live w w'"
  by (simp add: still_live_def live_at(3))

lemma still_live_Get: "HttpGet (m_ext v) u w = (r, w') \<Longrightarrow> still_live live w w'"
  by (simp add: still_live_def live_at(4))

lemma still_live_tell: "tell_rproxy (m_ext v) ms b w = (r, w') \<Longrightarrow> still_live live w w'"
  by (simp add: still_live_def live_at(10))

lemma still_live_cleanup: "still_live live w (cleanup (m_fs v) p z w)"
  by (simp add: still_live_def cleanup_def live_files)

section \<open>What the operations keep\<close>

lemma install_owned:
  assumes "install v name fenv threads z p envs (ms, w) = (res, ms', w')" and o: "owned live ms w"
  shows "owned live ms' w'"
proof -
  obtain cr w1 where c: "be_Create (m_be v) name fenv threads p envs w = (cr, w1)" by fastforce
  note s1 = still_live_Create [OF c]
  show ?thesis
  proof (cases "\<exists>fh. cr = Return (Inr fh)")
    case False
    then have "ms' = ms" "w' = w1"
      using assms(1) c by (auto simp: install_def split: call.splits sum.splits)
    then show ?thesis using owned_still [OF o s1] by simp
  next
    case True
    then obtain fh where cr: "cr = Return (Inr fh)" by blast
    let ?ms1 = "ms\<lparr>functionHandlers := (functionHandlers ms)(name \<mapsto> fh)\<rparr>"
    have fresh: "\<not> live fh w" "live fh w1" using created [OF c [unfolded cr]] by simp_all
    have o1: "owned live ?ms1 w1" by (rule owned_add [OF o s1 fresh(2) fresh(1)])
    obtain st w2 where s: "h_Start (m_be v) fh w1 = (st, w2)" by fastforce
    have tail: "ms' = ?ms1 \<and> still_live live w2 w'"
      using assms(1) c cr s
      by (auto simp: install_def Let_def split: call.splits option.splits prod.splits
          dest!: still_live_tell still_live_Destroy intro: still_live_trans)
    then show ?thesis using owned_still [OF o1 still_live_trans [OF still_live_Start [OF s]]] by blast
  qed
qed

lemma createFunction_still:
  assumes "createFunction v name fenv threads z sub envs (ms, w) = (res, ms', w')"
  obtains
    (early) "ms' = ms" "still_live live w w'"
  | (ran) p w1 w2 where "still_live live w w1" "install v name fenv threads z p envs (ms, w1) = (res, ms', w2)"
      "still_live live w2 w'"
proof -
  obtain u w1 where u: "NewUUID (m_fs v) w = (u, w1)" by fastforce
  have s1: "still_live live w w1" by (simp add: still_live_def live_at(6) [OF _ u])
  show thesis
  proof (cases "IsAlphaNumeric name \<and> (\<exists>x. u = Inr x)")
    case False
    then show thesis
      using assms u s1 by (auto simp: createFunction_def split: sum.splits if_splits intro: early)
  next
    case True
    then obtain x where x: "u = Inr x" and an: "IsAlphaNumeric name" by blast
    let ?p = "path_Join TmpDir x" and ?z = "path_Join TmpDir (x @ ''.zip'')"
    obtain m w2 where m: "MkdirAll (m_fs v) ?p w1 = (m, w2)" by fastforce
    obtain f w3 where f: "WriteFile (m_fs v) ?z z w2 = (f, w3)" by fastforce
    obtain g w4 where g: "Unzip (m_fs v) ?z ?p w3 = (g, w4)" by fastforce
    have s2: "still_live live w w2"
      by (rule still_live_trans [OF s1]) (simp add: still_live_def live_at(7) [OF _ m])
    have s3: "still_live live w w3"
      by (rule still_live_trans [OF s2]) (simp add: still_live_def live_at(8) [OF _ f])
    have s4: "still_live live w w4"
      by (rule still_live_trans [OF s3]) (simp add: still_live_def live_at(9) [OF _ g])
    show thesis
    proof (cases "m = None \<and> f = None \<and> g = None")
      case False
      then show thesis
        using assms u x an m f g s2 s3 s4
        by (auto simp: createFunction_def Let_def split: option.splits intro: early)
    next
      case ok: True
      let ?p' = "if sub \<noteq> [] then path_Join ?p sub else ?p"
      obtain ms1 w5 where i: "install v name fenv threads z ?p' envs (ms, w4) = (res, ms1, w5)"
        and e: "ms' = ms1" "w' = cleanup (m_fs v) ?p' ?z w5"
        using assms u x an m f g ok by (auto simp: createFunction_def Let_def split: prod.splits)
      show thesis
        by (rule ran [OF s4 i [folded e(1)]]) (simp add: e(2) still_live_cleanup)
    qed
  qed
qed

lemma createFunction_owned:
  assumes "createFunction v name fenv threads z sub envs (ms, w) = (res, ms', w')" and o: "owned live ms w"
  shows "owned live ms' w'"
  using assms(1)
proof (cases rule: createFunction_still)
  case early
  then show ?thesis using owned_still [OF o] by simp
next
  case (ran p w1 w2)
  have "owned live ms' w2" by (rule install_owned [OF ran(2) owned_still [OF o ran(1)]])
  then show ?thesis by (rule owned_still [OF _ ran(3)])
qed

lemma Delete_owned:
  assumes "Delete v name (ms, w) = (res, ms', w')" and o: "owned live ms w"
  shows "owned live ms' w'"
proof -
  have "still_live live w w'"
    using assms(1)
    by (auto simp: Delete_def split: option.splits prod.splits call.splits
        dest!: still_live_tell still_live_Destroy intro: still_live_trans)
  then have "owned live ms w'" by (rule owned_still [OF o])
  then show ?thesis unfolding Delete_table [OF assms(1)] by (simp add: owned_remove)
qed

lemma wipe_each_owned:
  "wipe_each v ks (ms, w) = (res, ms', w') \<Longrightarrow> owned live ms w \<Longrightarrow> owned live ms' w'"
proof (induction ks arbitrary: ms w)
  case Nil
  then show ?case by simp
next
  case (Cons k ks)
  obtain x ms1 w1 where d: "Delete v k (ms, w) = (x, ms1, w1)" using prod_cases3 by blast
  show ?case
  proof (cases "functionHandlers ms k")
    case None
    then show ?thesis using Cons by simp
  next
    case (Some fh)
    then show ?thesis
      using Cons.prems(1) Cons.IH [of ms1 w1] Delete_owned [OF d Cons.prems(2)] d by (cases x) auto
  qed
qed

lemma reap_each_owned:
  "reap_each v ks (ms, w) = (res, ms', w') \<Longrightarrow> owned live ms w \<Longrightarrow> owned live ms' w'"
proof (induction ks arbitrary: ms w)
  case Nil
  then show ?case by simp
next
  case (Cons k ks)
  obtain x ms1 w1 where d: "Delete v k (ms, w) = (x, ms1, w1)" using prod_cases3 by blast
  show ?case
  proof (cases "functionHandlers ms k")
    case None
    then show ?thesis using Cons by simp
  next
    case (Some fh)
    then show ?thesis
      using Cons.prems(1) Cons.IH [of ms1 w1] Delete_owned [OF d Cons.prems(2)] d by (cases x) auto
  qed
qed

lemma reaper_round_owned:
  assumes "reaper_round v d decode ks (ms, w) = (res, ms', w')" and o: "owned live ms w"
  shows "owned live ms' w'"
proof -
  let ?w1 = "Sleep (m_ext v) (30 * Second) w"
  have s1: "still_live live w ?w1" by (simp add: still_live_def live_Sleep)
  obtain x w2 where g: "HttpGet (m_ext v) (rproxy_url ms @ ''/lastused'') ?w1 = (x, w2)" by fastforce
  have o1: "owned live ms ?w1" by (rule owned_still [OF o s1])
  have o2: "owned live ms w2" by (rule owned_still [OF o1 still_live_Get [OF g]])
  show ?thesis
    using assms(1) g o1 o2 reap_each_owned [of _ ms w2 res ms' w']
    by (auto simp: reaper_round_def Let_def split: if_splits sum.splits option.splits)
qed

lemma Upload_owned:
  assumes "Upload v po name fenv threads zipped envs (ms, w) = (res, ms', w')" and o: "owned live ms w"
  shows "owned live ms' w'"
proof (cases "DecodeString zipped")
  case None
  then show ?thesis using assms by (simp add: Upload_def)
next
  case (Some z)
  obtain x ms1 w1 where c: "createFunction v name fenv threads z [] envs (ms, w) = (x, ms1, w1)"
    using prod_cases3 by blast
  then have "ms' = ms1" "w' = w1"
    using assms(1) Some by (auto simp: Upload_def split: call.splits sum.splits)
  then show ?thesis using createFunction_owned [OF c o] by simp
qed

lemma UrlUpload_owned:
  assumes "UrlUpload v po name fenv threads url sub envs (ms, w) = (res, ms', w')" and o: "owned live ms w"
  shows "owned live ms' w'"
proof -
  obtain x w1 where g: "HttpGet (m_ext v) url w = (x, w1)" by fastforce
  have o1: "owned live ms w1" by (rule owned_still [OF o still_live_Get [OF g]])
  show ?thesis
  proof (cases "\<exists>code z. x = Inr (code, Some z)")
    case False
    then have "ms' = ms" "w' = w1"
      using assms(1) g by (auto simp: UrlUpload_def split: sum.splits option.splits)
    then show ?thesis using o1 by simp
  next
    case True
    then obtain code z where x: "x = Inr (code, Some z)" by blast
    obtain y ms1 w2 where c: "createFunction v name fenv threads z sub envs (ms, w1) = (y, ms1, w2)"
      using prod_cases3 by blast
    then have "ms' = ms1" "w' = w2"
      using assms(1) g x by (auto simp: UrlUpload_def split: call.splits sum.splits)
    then show ?thesis using createFunction_owned [OF c o1] by simp
  qed
qed

section \<open>The running service\<close>

lemma service_step_owned:
  assumes "service_step v decode d (ms, w) (ms', w')" and "owned live ms w"
  shows "owned live ms' w'"
  using assms
  by (elim service_stepE)
    (auto simp: Wipe_def dest: Upload_owned UrlUpload_owned Delete_owned wipe_each_owned reaper_round_owned)

lemma service_steps_owned:
  assumes "(service_step v decode d)\<^sup>*\<^sup>* (ms, w) (ms', w')" and "owned live ms w"
  shows "owned live ms' w'"
  using assms(1)
proof (induction "(ms', w')" arbitrary: ms' w' rule: rtranclp_induct)
  case base
  then show ?case using assms(2) by simp
next
  case (step y)
  then show ?case using service_step_owned by (cases y) blast
qed

text \<open>A creation that succeeds tells the reverse proxy one address for each thread.\<close>

lemma install_announces:
  assumes "install v name fenv threads z p envs (ms, w) = (Return (Inr n), ms', w')"
  obtains ips w2 w3 where "int (length ips) = threads"
    "tell_rproxy (m_ext v) ms' (ConfigBody \<lparr>rc_name = name, rc_ips = ips, rc_env = fenv,
       rc_threads = threads, rc_envs = envs, rc_zip = z\<rparr>) w2 = (Return None, w3)"
proof -
  obtain fh w1 w2 w3 where c: "be_Create (m_be v) name fenv threads p envs w = (Return (Inr fh), w1)"
    and s: "h_Start (m_be v) fh w1 = (Return None, w2)"
    and t: "tell_rproxy (m_ext v) ms' (ConfigBody \<lparr>rc_name = name, rc_ips = h_IPs (m_be v) fh w2,
       rc_env = fenv, rc_threads = threads, rc_envs = envs, rc_zip = z\<rparr>) w2 = (Return None, w3)"
    using install_success [OF assms] by blast
  have "int (length (h_IPs (m_be v) fh w2)) = threads"
    using started [OF s] created [OF c] by simp
  then show thesis using that t by blast
qed

lemma createFunction_announces:
  assumes "createFunction v name fenv threads z sub envs (ms, w) = (Return (Inr n), ms', w')"
  obtains ips w2 w3 where "IsAlphaNumeric name" "int (length ips) = threads"
    "tell_rproxy (m_ext v) ms' (ConfigBody \<lparr>rc_name = name, rc_ips = ips, rc_env = fenv,
       rc_threads = threads, rc_envs = envs, rc_zip = z\<rparr>) w2 = (Return None, w3)"
  using assms
proof (cases rule: createFunction_cases)
  case (early err)
  then show ?thesis by simp
next
  case (ran p w4 w5)
  then show ?thesis using install_announces [OF ran(2)] that by metis
qed

end

end
