(* ===== verification/Docker_Facts.thy ===== *)
theory Docker_Facts
  imports Docker Backend_Contract
begin

text \<open>
  What the Docker backend of \<^verbatim>\<open>pkg/docker/handler.go\<close> does: it keeps the contract of a backend, gives up on a silent
  container after nine probes, and, on a daemon that keeps its documented laws, gives back
  on destruction what it took on creation.
\<close>

section \<open>A node with Docker\<close>

definition over :: "('d \<Rightarrow> 'a \<times> 'd) \<Rightarrow> 's \<times> 'd \<Rightarrow> 'a \<times> 's \<times> 'd" where
  "over f w = (case w of (s, d) \<Rightarrow> case f d of (a, d1) \<Rightarrow> (a, s, d1))"

definition lift_ext :: "'d ext \<Rightarrow> ('s \<times> 'd) ext" where
  "lift_ext e =
     \<lparr>PowerOn = (\<lambda>u c. over (PowerOn e u c)), PowerOff = (\<lambda>u c. over (PowerOff e u c)),
      HttpGet = (\<lambda>u. over (HttpGet e u)), HttpPost = (\<lambda>u b. over (HttpPost e u b)),
      ValidURL = ValidURL e, Now = (\<lambda>w. Now e (snd w)), Sleep = (\<lambda>t w. (fst w, Sleep e t (snd w)))\<rparr>"

definition lift_files :: "'d files \<Rightarrow> ('s \<times> 'd) files" where
  "lift_files fs =
     \<lparr>NewUUID = over (NewUUID fs), MkdirAll = (\<lambda>p. over (MkdirAll fs p)),
      WriteFile = (\<lambda>p z. over (WriteFile fs p z)), Unzip = (\<lambda>z p. over (Unzip fs z p)),
      RemoveAll = (\<lambda>p. over (RemoveAll fs p)), Remove = (\<lambda>p. over (Remove fs p))\<rparr>"

definition docker_node :: "'d docker_env \<Rightarrow> string \<Rightarrow> (nat, 'd docker_world) node_env" where
  "docker_node de ident =
     \<lparr>m_ext = lift_ext (de_ext de), m_be = docker_backend de ident, m_fs = lift_files (de_fs de)\<rparr>"

definition created_handler :: "nat \<Rightarrow> 'd docker_world \<Rightarrow> bool" where
  "created_handler h w \<longleftrightarrow> h < length (fst w)"

definition container_count :: "nat \<Rightarrow> 'd docker_world \<Rightarrow> int" where
  "container_count h w = int (length (dh_containers (fst w ! h)))"

section \<open>Creating and starting\<close>

lemma create_each_length:
  "create_each cl cfg name is cs d = (Inr cs', d') \<Longrightarrow> length cs' = length cs + length is"
  by (induction "is" arbitrary: cs d) (auto split: prod.splits sum.splits)

lemma docker_Create_success:
  assumes "docker_Create de ident name fenv threads filedir envs d = (Return (Inr dh), d')"
  shows "int (length (dh_containers dh)) = threads \<and> handlerIPs dh = []"
  using assms
  by (auto simp: docker_Create_def get_or_fail_def or_fail_def prepare_folder_def build_image_def
      provision_def create_containers_def new_handler_def Let_def
      split: prod.splits sum.splits option.splits if_splits dest!: create_each_length)

lemma inspect_each_length:
  "inspect_each cl net cs ips d = (Return None, ips', d') \<Longrightarrow> length ips' = length ips + length cs"
  by (induction cs arbitrary: ips d) (auto split: prod.splits sum.splits option.splits)

lemma docker_Start_success:
  assumes "docker_Start de dh d = (Return None, dh', d')"
  shows "length (handlerIPs dh') = length (handlerIPs dh) + length (dh_containers dh)"
  using assms
  by (auto simp: docker_Start_def Let_def split: prod.splits call.splits option.splits
      dest!: inspect_each_length)

lemma over_fst [simp]: "fst (snd (over f w)) = fst w"
  by (simp add: over_def split: prod.splits)

interpretation dock: function_node "docker_node de ident" created_handler container_count
proof (unfold_locales, goal_cases)
  case (1 name fenv threads p envs w h w')
  then show ?case
    by (auto simp: docker_node_def docker_backend_def created_handler_def container_count_def
        split: prod.splits call.splits sum.splits dest: docker_Create_success)
next
  case (2 h w w')
  then show ?case
    by (auto simp: docker_node_def docker_backend_def created_handler_def container_count_def
        split: prod.splits if_splits dest!: docker_Start_success)
qed (auto simp: docker_node_def docker_backend_def created_handler_def lift_ext_def lift_files_def
    split: prod.splits call.splits sum.splits if_splits)

section \<open>Nine probes\<close>

definition probe :: "'d ext \<Rightarrow> string \<Rightarrow> 'd \<Rightarrow> 'd" where
  "probe e ip d = Sleep e Second (snd (HttpGet e (ready_url ip) d))"

lemma wait_ready_silent:
  assumes "\<forall>d. \<not> ready (fst (HttpGet e (ready_url ip) d))"
  shows "wait_ready e ip k d = (False, (probe e ip ^^ k) d)"
proof (induction k arbitrary: d)
  case 0
  then show ?case by simp
next
  case (Suc k)
  have "wait_ready e ip (Suc k) d = wait_ready e ip k (probe e ip d)"
    using assms by (simp add: probe_def split: prod.splits) (metis fst_conv)
  also have "\<dots> = (False, (probe e ip ^^ k) (probe e ip d))" by (rule Suc.IH)
  also have "(probe e ip ^^ k) (probe e ip d) = (probe e ip ^^ Suc k) d"
    by (simp add: funpow_swap1)
  finally show ?case .
qed

lemma wait_ready_answers:
  assumes "wait_ready e ip k d = (True, d')"
  shows "\<exists>d1. ready (fst (HttpGet e (ready_url ip) d1)) \<and> d' = snd (HttpGet e (ready_url ip) d1)"
  using assms
proof (induction k arbitrary: d)
  case 0
  then show ?case by simp
next
  case (Suc k)
  obtain r d1 where g: "HttpGet e (ready_url ip) d = (r, d1)" by fastforce
  show ?case
  proof (cases "ready r")
    case True
    then have "d' = d1" using Suc.prems g by simp
    then show ?thesis using g True by (intro exI [of _ d]) simp
  next
    case False
    then have "wait_ready e ip k (Sleep e Second d1) = (True, d')" using Suc.prems g by simp
    then show ?thesis by (rule Suc.IH)
  qed
qed

lemma ready_each_success:
  "ready_each de dh i ips d = (Return None, d') \<Longrightarrow> ip \<in> set ips \<Longrightarrow>
     \<exists>d1. ready (fst (HttpGet (de_ext de) (ready_url ip) d1))"
proof (induction ips arbitrary: i d)
  case Nil
  then show ?case by simp
next
  case (Cons a ips)
  obtain b d1 where w: "wait_ready (de_ext de) a (maxRetries - 1) d = (b, d1)" by fastforce
  show ?case
  proof (cases b)
    case True
    then show ?thesis using Cons w wait_ready_answers by fastforce
  next
    case False
    then show ?thesis using Cons.prems w by (auto split: if_splits prod.splits option.splits)
  qed
qed

section \<open>Resources of the daemon\<close>

record 'd daemon_view =
  conts :: "'d \<Rightarrow> string set"
  nets :: "'d \<Rightarrow> string set"
  imgs :: "'d \<Rightarrow> string set"

definition same :: "'d daemon_view \<Rightarrow> 'd \<Rightarrow> 'd \<Rightarrow> bool" where
  "same V d d' \<longleftrightarrow> conts V d' = conts V d \<and> nets V d' = nets V d \<and> imgs V d' = imgs V d"

text \<open>The operations that create and remove nothing.\<close>

definition quiet_ops :: "'d docker_env \<Rightarrow> 'd daemon_view \<Rightarrow> bool" where
  "quiet_ops de V \<longleftrightarrow>
     (\<forall>d. same V d (snd (NewUUID (de_fs de) d))) \<and>
     (\<forall>p d. same V d (snd (MkdirAll (de_fs de) p d))) \<and>
     (\<forall>p d. same V d (snd (RemoveAll (de_fs de) p d))) \<and>
     (\<forall>p q d. same V d (snd (de_copy_embed de p q d))) \<and>
     (\<forall>p q d. same V d (snd (de_copy_all de p q d))) \<and>
     (\<forall>p d. same V d (snd (dc_Tar (de_client de) p d))) \<and>
     (\<forall>c d. same V d (snd (dc_ContainerStart (de_client de) c d))) \<and>
     (\<forall>c d. same V d (snd (dc_ContainerInspect (de_client de) c d))) \<and>
     (\<forall>t c d. same V d (snd (dc_ContainerStop (de_client de) t c d))) \<and>
     (\<forall>c d. same V d (snd (dc_ContainerLogs (de_client de) c d))) \<and>
     (\<forall>l d. same V d (snd (dc_ContainerList (de_client de) l d))) \<and>
     (\<forall>l d. same V d (snd (dc_NetworkList (de_client de) l d))) \<and>
     (\<forall>u d. same V d (snd (HttpGet (de_ext de) u d))) \<and>
     (\<forall>t d. same V d (Sleep (de_ext de) t d))"

text \<open>
  The documented effect of the others: what a creation that succeeds adds is new, a removal
  that succeeds removes what it names, and one that fails does nothing. The answer to a
  build does not tell whether its stream ended in an image.
\<close>

definition creations :: "'d docker_client \<Rightarrow> 'd daemon_view \<Rightarrow> bool" where
  "creations cl V \<longleftrightarrow>
     (\<forall>t n ls d. let d' = snd (dc_ImageBuild cl t n ls d) in
        conts V d' = conts V d \<and> nets V d' = nets V d \<and> imgs V d' \<in> {imgs V d, insert n (imgs V d)}) \<and>
     (\<forall>n ls d d' i. dc_NetworkCreate cl n ls d = (Inr i, d') \<longrightarrow>
        i \<notin> nets V d \<and> nets V d' = insert i (nets V d) \<and> conts V d' = conts V d \<and> imgs V d' = imgs V d) \<and>
     (\<forall>n ls d d' x. dc_NetworkCreate cl n ls d = (Inl x, d') \<longrightarrow> same V d d') \<and>
     (\<forall>cfg n d d' i. dc_ContainerCreate cl cfg n d = (Inr i, d') \<longrightarrow>
        i \<notin> conts V d \<and> conts V d' = insert i (conts V d) \<and> nets V d' = nets V d \<and> imgs V d' = imgs V d) \<and>
     (\<forall>cfg n d d' x. dc_ContainerCreate cl cfg n d = (Inl x, d') \<longrightarrow> same V d d')"

definition removals :: "'d docker_client \<Rightarrow> 'd daemon_view \<Rightarrow> bool" where
  "removals cl V \<longleftrightarrow>
     (\<forall>f c d. case dc_ContainerRemove cl f c d of (x, d') \<Rightarrow>
        nets V d' = nets V d \<and> imgs V d' = imgs V d \<and>
        conts V d' = (if x = None then conts V d - {c} else conts V d)) \<and>
     (\<forall>n d. case dc_NetworkRemove cl n d of (x, d') \<Rightarrow>
        conts V d' = conts V d \<and> imgs V d' = imgs V d \<and>
        nets V d' = (if x = None then nets V d - {n} else nets V d)) \<and>
     (\<forall>n d. case dc_ImageRemove cl n d of (x, d') \<Rightarrow>
        conts V d' = conts V d \<and> nets V d' = nets V d \<and>
        imgs V d' = (if x = None then imgs V d - {n} else imgs V d))"

definition daemon_laws :: "'d docker_env \<Rightarrow> 'd daemon_view \<Rightarrow> bool" where
  "daemon_laws de V \<longleftrightarrow> quiet_ops de V \<and> creations (de_client de) V \<and> removals (de_client de) V"

text \<open>No container resists its removal.\<close>

definition containers_removable :: "'d docker_client \<Rightarrow> bool" where
  "containers_removable cl \<longleftrightarrow> (\<forall>f c d. fst (dc_ContainerRemove cl f c d) = None)"

lemma same_refl [simp]: "same V d d"
  by (simp add: same_def)

lemma same_trans: "same V d d1 \<Longrightarrow> same V d1 d2 \<Longrightarrow> same V d d2"
  by (simp add: same_def)

lemma quiet_at:
  assumes "quiet_ops de V"
  shows "NewUUID (de_fs de) d = (r1, d') \<Longrightarrow> same V d d'"
    and "MkdirAll (de_fs de) p d = (r2, d') \<Longrightarrow> same V d d'"
    and "RemoveAll (de_fs de) p d = (r2, d') \<Longrightarrow> same V d d'"
    and "de_copy_embed de p q d = (r2, d') \<Longrightarrow> same V d d'"
    and "de_copy_all de p q d = (r2, d') \<Longrightarrow> same V d d'"
    and "dc_Tar (de_client de) p d = (r1, d') \<Longrightarrow> same V d d'"
    and "dc_ContainerInspect (de_client de) p d = (r3, d') \<Longrightarrow> same V d d'"
    and "dc_ContainerLogs (de_client de) p d = (r1, d') \<Longrightarrow> same V d d'"
    and "HttpGet (de_ext de) p d = (r4, d') \<Longrightarrow> same V d d'"
    and "dc_ContainerList (de_client de) p d = (r5, d') \<Longrightarrow> same V d d'"
    and "dc_NetworkList (de_client de) p d = (r5, d') \<Longrightarrow> same V d d'"
  using assms unfolding quiet_ops_def by (metis snd_conv)+

section \<open>Creation and destruction\<close>

lemma or_fail_Inr: "or_fail f k d = (Return (Inr x), d') \<longleftrightarrow> (\<exists>d1. f d = (None, d1) \<and> k d1 = (Return (Inr x), d'))"
  by (auto simp: or_fail_def split: prod.splits option.splits)

lemma get_or_fail_Inr:
  "get_or_fail f k d = (Return (Inr x), d') \<longleftrightarrow> (\<exists>y d1. f d = (Inr y, d1) \<and> k y d1 = (Return (Inr x), d'))"
  by (auto simp: get_or_fail_def split: prod.splits sum.splits)

lemma prepare_folder_same:
  assumes q: "quiet_ops de V" and "prepare_folder de dh filedir k d = (Return (Inr x), d')"
  shows "\<exists>d1. same V d d1 \<and> k d1 = (Return (Inr x), d')"
proof -
  obtain d1 d2 d3 d4 where m: "MkdirAll (de_fs de) (filePath dh) d = (None, d1)"
    and c: "de_copy_embed de (path_Join (de_runtimesDir de) (dh_env dh)) (filePath dh) d1 = (None, d2)"
    and n: "MkdirAll (de_fs de) (path_Join (filePath dh) ''fn'') d2 = (None, d3)"
    and a: "de_copy_all de filedir (path_Join (filePath dh) ''fn'') d3 = (None, d4)"
    and k: "k d4 = (Return (Inr x), d')"
    using assms(2) unfolding prepare_folder_def or_fail_Inr by blast
  have "same V d d4"
    by (rule same_trans [OF quiet_at(2) [OF q m] same_trans [OF quiet_at(4) [OF q c]
          same_trans [OF quiet_at(2) [OF q n] quiet_at(5) [OF q a]]]])
  then show ?thesis using k by blast
qed

lemma created_network:
  assumes "creations cl V" "dc_NetworkCreate cl n ls d = (Inr i, d')"
  shows "i \<notin> nets V d" "nets V d' = insert i (nets V d)" "conts V d' = conts V d" "imgs V d' = imgs V d"
proof -
  have "\<forall>n ls d d' i. dc_NetworkCreate cl n ls d = (Inr i, d') \<longrightarrow>
     i \<notin> nets V d \<and> nets V d' = insert i (nets V d) \<and> conts V d' = conts V d \<and> imgs V d' = imgs V d"
    using assms(1) unfolding creations_def by (elim conjE)
  then show "i \<notin> nets V d" "nets V d' = insert i (nets V d)" "conts V d' = conts V d" "imgs V d' = imgs V d"
    using assms(2) by blast+
qed

lemma failed_container:
  assumes "creations cl V" "dc_ContainerCreate cl cfg n d = (Inl x, d')"
  shows "same V d d'"
proof -
  have "\<forall>cfg n d d' x. dc_ContainerCreate cl cfg n d = (Inl x, d') \<longrightarrow> same V d d'"
    using assms(1) unfolding creations_def by (elim conjE)
  then show ?thesis using assms(2) by blast
qed

lemma created_container:
  assumes "creations cl V" "dc_ContainerCreate cl cfg n d = (Inr i, d')"
  shows "i \<notin> conts V d" "conts V d' = insert i (conts V d)" "nets V d' = nets V d" "imgs V d' = imgs V d"
proof -
  have "\<forall>cfg n d d' i. dc_ContainerCreate cl cfg n d = (Inr i, d') \<longrightarrow>
     i \<notin> conts V d \<and> conts V d' = insert i (conts V d) \<and> nets V d' = nets V d \<and> imgs V d' = imgs V d"
    using assms(1) unfolding creations_def by (elim conjE)
  then show "i \<notin> conts V d" "conts V d' = insert i (conts V d)" "nets V d' = nets V d" "imgs V d' = imgs V d"
    using assms(2) by blast+
qed

lemma create_each_resources:
  assumes cr: "creations cl V"
  shows "create_each cl cfg name is cs d = (Inr cs', d') \<Longrightarrow>
    \<exists>new. cs' = cs @ new \<and> set new \<inter> conts V d = {} \<and> conts V d' = conts V d \<union> set new \<and>
      nets V d' = nets V d \<and> imgs V d' = imgs V d"
proof (induction "is" arbitrary: cs d)
  case Nil
  then show ?case by simp
next
  case (Cons i "is")
  obtain r d1 where c: "dc_ContainerCreate cl cfg (name @ ''-'' @ show_nat i) d = (r, d1)" by fastforce
  then obtain x where r: "r = Inr x" using Cons.prems by (cases r) simp_all
  have law: "x \<notin> conts V d \<and> conts V d1 = insert x (conts V d) \<and> nets V d1 = nets V d \<and> imgs V d1 = imgs V d"
    using created_container [OF cr c [unfolded r]] by blast
  have "create_each cl cfg name is (cs @ [x]) d1 = (Inr cs', d')" using Cons.prems c r by simp
  from Cons.IH [OF this] obtain new where "cs' = (cs @ [x]) @ new" "set new \<inter> conts V d1 = {}"
    "conts V d' = conts V d1 \<union> set new" "nets V d' = nets V d1" "imgs V d' = imgs V d1" by blast
  then show ?case using law by (intro exI [of _ "x # new"]) auto
qed

lemma build_image_resources:
  assumes q: "quiet_ops de V" and cr: "creations (de_client de) V"
    and "build_image de ident dh k d = (Return (Inr x), d')"
  shows "\<exists>d1. k d1 = (Return (Inr x), d') \<and> conts V d1 = conts V d \<and> nets V d1 = nets V d \<and>
    imgs V d1 \<in> {imgs V d, insert (uniqueName dh) (imgs V d)}"
proof -
  obtain tar d1 d2 where t: "dc_Tar (de_client de) (filePath dh) d = (Inr tar, d1)"
    and b: "dc_ImageBuild (de_client de) tar (uniqueName dh) (handler_labels ident (dh_name dh)) d1 = (None, d2)"
    and k: "k d2 = (Return (Inr x), d')"
    using assms(3) unfolding build_image_def get_or_fail_Inr or_fail_Inr by blast
  have "conts V d2 = conts V d1 \<and> nets V d2 = nets V d1 \<and> imgs V d2 \<in> {imgs V d1, insert (uniqueName dh) (imgs V d1)}"
    using cr [unfolded creations_def Let_def, THEN conjunct1, rule_format, of tar "uniqueName dh"] b
    by (metis snd_conv)
  moreover have "same V d d1" by (rule quiet_at(6) [OF q t])
  ultimately show ?thesis using k by (intro exI [of _ d2]) (simp add: same_def)
qed

lemma provision_resources:
  assumes q: "quiet_ops de V" and cr: "creations (de_client de) V"
    and "provision de ident dh0 envs d = (Return (Inr dh), d')"
  shows "uniqueName dh = uniqueName dh0 \<and> set (dh_containers dh) \<inter> conts V d = {} \<and>
    conts V d' = conts V d \<union> set (dh_containers dh) \<and>
    dh_network dh \<notin> nets V d \<and> nets V d' = insert (dh_network dh) (nets V d) \<and> imgs V d' = imgs V d"
proof -
  obtain net d1 cs d2 d3 where
    n: "dc_NetworkCreate (de_client de) (uniqueName dh0) (handler_labels ident (dh_name dh0)) d = (Inr net, d1)"
    and c: "create_containers de ident dh0 envs d1 = (Inr cs, d2)"
    and r: "RemoveAll (de_fs de) (filePath dh0) d2 = (None, d3)"
    and e: "(Return (Inr (dh0\<lparr>dh_network := net, dh_containers := cs\<rparr>)), d3) = (Return (Inr dh), d')"
    using assms(3) unfolding provision_def get_or_fail_Inr or_fail_Inr by blast
  have net: "net \<notin> nets V d" "nets V d1 = insert net (nets V d)" "conts V d1 = conts V d" "imgs V d1 = imgs V d"
    by (fact created_network [OF cr n])+
  have "set cs \<inter> conts V d1 = {} \<and> conts V d2 = conts V d1 \<union> set cs \<and> nets V d2 = nets V d1 \<and> imgs V d2 = imgs V d1"
    using create_each_resources [OF cr c [unfolded create_containers_def]] by auto
  moreover have "same V d2 d3" by (rule quiet_at(3) [OF q r])
  ultimately show ?thesis using net e by (auto simp: same_def)
qed

lemma docker_Create_starts:
  assumes "docker_Create de ident name fenv threads filedir envs d = (Return (Inr dh), d')"
  obtains uuid d1 where "NewUUID (de_fs de) d = (Inr uuid, d1)"
    "prepare_folder de (new_handler name fenv threads uuid) filedir
       (build_image de ident (new_handler name fenv threads uuid)
         (provision de ident (new_handler name fenv threads uuid) envs)) d1 = (Return (Inr dh), d')"
proof -
  obtain uuid d1 where u: "NewUUID (de_fs de) d = (Inr uuid, d1)"
    and k: "(if threads < 0 then (\<lambda>d. (Panic MakeSliceCapacity, d))
       else prepare_folder de (new_handler name fenv threads uuid) filedir
       (build_image de ident (new_handler name fenv threads uuid)
         (provision de ident (new_handler name fenv threads uuid) envs))) d1 = (Return (Inr dh), d')"
    using assms unfolding docker_Create_def get_or_fail_Inr [of "NewUUID (de_fs de)"] Let_def by blast
  from k show thesis by (cases "threads < 0") (simp_all add: that [OF u])
qed

lemma docker_Create_resources:
  assumes laws: "daemon_laws de V"
    and "docker_Create de ident name fenv threads filedir envs d = (Return (Inr dh), d')"
  shows "set (dh_containers dh) \<inter> conts V d = {} \<and> conts V d' = conts V d \<union> set (dh_containers dh) \<and>
    dh_network dh \<notin> nets V d \<and> nets V d' = insert (dh_network dh) (nets V d) \<and>
    imgs V d' \<in> {imgs V d, insert (uniqueName dh) (imgs V d)}"
proof -
  have q: "quiet_ops de V" and cr: "creations (de_client de) V" using laws by (simp_all add: daemon_laws_def)
  obtain uuid d1 where u: "NewUUID (de_fs de) d = (Inr uuid, d1)"
    and p: "prepare_folder de (new_handler name fenv threads uuid) filedir
       (build_image de ident (new_handler name fenv threads uuid)
         (provision de ident (new_handler name fenv threads uuid) envs)) d1 = (Return (Inr dh), d')"
    by (rule docker_Create_starts [OF assms(2)])
  let ?dh = "new_handler name fenv threads uuid"
  obtain d2 where s2: "same V d1 d2"
    and b: "build_image de ident ?dh (provision de ident ?dh envs) d2 = (Return (Inr dh), d')"
    using prepare_folder_same [OF q p] by blast
  obtain d3 where v: "provision de ident ?dh envs d3 = (Return (Inr dh), d')"
    and s3: "conts V d3 = conts V d2" "nets V d3 = nets V d2" "imgs V d3 \<in> {imgs V d2, insert (uniqueName ?dh) (imgs V d2)}"
    using build_image_resources [OF q cr b] by blast
  have "same V d d2" by (rule same_trans [OF quiet_at(1) [OF q u] s2])
  then show ?thesis using provision_resources [OF q cr v] s3 unfolding same_def by simp
qed

lemma start_each_same:
  assumes "quiet_ops de V"
  shows "same V d (start_each (de_client de) cs d)"
proof (induction cs arbitrary: d)
  case Nil
  then show ?case by simp
next
  case (Cons c cs)
  have "same V d (snd (dc_ContainerStart (de_client de) c d))"
    using assms by (simp add: quiet_ops_def)
  then show ?case using Cons.IH same_trans by fastforce
qed

lemma inspect_each_same:
  assumes q: "quiet_ops de V"
  shows "inspect_each (de_client de) net cs ips d = (res, ips', d') \<Longrightarrow> same V d d'"
proof (induction cs arbitrary: ips d)
  case Nil
  then show ?case by simp
next
  case (Cons c cs)
  obtain r d1 where i: "dc_ContainerInspect (de_client de) c d = (r, d1)" by fastforce
  have s1: "same V d d1" by (rule quiet_at(7) [OF q i])
  then show ?case
    using Cons i same_trans [OF s1]
    by (auto split: sum.splits option.splits)
qed

lemma wait_ready_same:
  assumes q: "quiet_ops de V"
  shows "wait_ready (de_ext de) ip k d = (b, d') \<Longrightarrow> same V d d'"
proof (induction k arbitrary: d)
  case 0
  then show ?case by simp
next
  case (Suc k)
  obtain r d1 where g: "HttpGet (de_ext de) (ready_url ip) d = (r, d1)" by fastforce
  have s1: "same V d d1" by (rule quiet_at(9) [OF q g])
  have s2: "same V d1 (Sleep (de_ext de) Second d1)" using q by (simp add: quiet_ops_def)
  show ?case
    using Suc.prems Suc.IH [of "Sleep (de_ext de) Second d1"] g s1 same_trans [OF s1] same_trans [OF s2]
    by (auto split: if_splits)
qed

lemma getContainerLogs_same:
  assumes q: "quiet_ops de V" and "getContainerLogs (de_client de) dh c d = (r, d')"
  shows "same V d d'"
proof -
  obtain x d1 where l: "dc_ContainerLogs (de_client de) c d = (x, d1)" by fastforce
  then have "d' = d1"
    using assms(2) by (auto simp: getContainerLogs_def split: sum.splits prod.splits option.splits)
  then show ?thesis using quiet_at(8) [OF q l] by simp
qed

lemma ready_each_same:
  assumes q: "quiet_ops de V"
  shows "ready_each de dh i ips d = (res, d') \<Longrightarrow> same V d d'"
proof (induction ips arbitrary: i d)
  case Nil
  then show ?case by simp
next
  case (Cons ip ips)
  obtain b d1 where w: "wait_ready (de_ext de) ip (maxRetries - 1) d = (b, d1)" by fastforce
  have s1: "same V d d1" by (rule wait_ready_same [OF q w])
  show ?case
  proof (cases b)
    case True
    then show ?thesis using Cons w same_trans [OF s1] by auto
  next
    case False
    then show ?thesis
      using Cons.prems w s1
      by (auto split: if_splits prod.splits option.splits dest!: getContainerLogs_same [OF q]
          intro: same_trans)
  qed
qed

lemma docker_Start_same:
  assumes q: "quiet_ops de V" and "docker_Start de dh d = (res, dh', d')"
  shows "same V d d' \<and> dh_containers dh' = dh_containers dh \<and> dh_network dh' = dh_network dh \<and>
    uniqueName dh' = uniqueName dh"
proof -
  let ?d0 = "start_each (de_client de) (dh_containers dh) d"
  obtain r ips d1 where i: "inspect_each (de_client de) (uniqueName dh) (dh_containers dh) (handlerIPs dh) ?d0 = (r, ips, d1)"
    using prod_cases3 by blast
  have s1: "same V d d1" by (rule same_trans [OF start_each_same [OF q] inspect_each_same [OF q i]])
  have "same V d1 d'"
    using assms(2) i
    by (auto simp: docker_Start_def Let_def split: call.splits option.splits prod.splits
        dest: ready_each_same [OF q])
  moreover have "dh' = dh\<lparr>handlerIPs := ips\<rparr>"
    using assms(2) i by (auto simp: docker_Start_def Let_def split: call.splits option.splits prod.splits)
  ultimately show ?thesis using same_trans [OF s1] by simp
qed

lemma removed_container:
  assumes "removals cl V" "dc_ContainerRemove cl f c d = (x, d')"
  shows "nets V d' = nets V d \<and> imgs V d' = imgs V d \<and>
    conts V d' = (if x = None then conts V d - {c} else conts V d)"
proof -
  have "\<forall>f c d. case dc_ContainerRemove cl f c d of (x, d') \<Rightarrow>
      nets V d' = nets V d \<and> imgs V d' = imgs V d \<and> conts V d' = (if x = None then conts V d - {c} else conts V d)"
    using assms(1) unfolding removals_def by (elim conjE)
  from this [THEN spec [of _ f], THEN spec [of _ c], THEN spec [of _ d]] show ?thesis by (simp add: assms(2))
qed

lemma removed_network:
  assumes "removals cl V" "dc_NetworkRemove cl n d = (x, d')"
  shows "conts V d' = conts V d \<and> imgs V d' = imgs V d \<and>
    nets V d' = (if x = None then nets V d - {n} else nets V d)"
proof -
  have "\<forall>n d. case dc_NetworkRemove cl n d of (x, d') \<Rightarrow>
      conts V d' = conts V d \<and> imgs V d' = imgs V d \<and> nets V d' = (if x = None then nets V d - {n} else nets V d)"
    using assms(1) unfolding removals_def by (elim conjE)
  from this [THEN spec [of _ n], THEN spec [of _ d]] show ?thesis by (simp add: assms(2))
qed

lemma removed_image:
  assumes "removals cl V" "dc_ImageRemove cl n d = (x, d')"
  shows "conts V d' = conts V d \<and> nets V d' = nets V d \<and>
    imgs V d' = (if x = None then imgs V d - {n} else imgs V d)"
proof -
  have "\<forall>n d. case dc_ImageRemove cl n d of (x, d') \<Rightarrow>
      conts V d' = conts V d \<and> nets V d' = nets V d \<and> imgs V d' = (if x = None then imgs V d - {n} else imgs V d)"
    using assms(1) unfolding removals_def by (elim conjE)
  from this [THEN spec [of _ n], THEN spec [of _ d]] show ?thesis by (simp add: assms(2))
qed

lemma destroy_each_resources:
  assumes q: "quiet_ops de V" and rm: "removals (de_client de) V" and ok: "containers_removable (de_client de)"
  shows "conts V (destroy_each (de_client de) cs d) = conts V d - set cs \<and>
    nets V (destroy_each (de_client de) cs d) = nets V d \<and> imgs V (destroy_each (de_client de) cs d) = imgs V d"
proof (induction cs arbitrary: d)
  case Nil
  then show ?case by simp
next
  case (Cons c cs)
  let ?d1 = "snd (dc_ContainerStop (de_client de) 1 c d)"
  obtain r d2 where r: "dc_ContainerRemove (de_client de) False c ?d1 = (r, d2)" by fastforce
  have "r = None" using ok r unfolding containers_removable_def by (metis fst_conv)
  then have "nets V d2 = nets V ?d1 \<and> imgs V d2 = imgs V ?d1 \<and> conts V d2 = conts V ?d1 - {c}"
    using removed_container [OF rm r] by simp
  moreover have "same V d ?d1" using q by (simp add: quiet_ops_def)
  ultimately show ?case using Cons.IH [of d2] r by (auto simp: same_def)
qed

lemma docker_Destroy_resources:
  assumes laws: "daemon_laws de V" and ok: "containers_removable (de_client de)"
    and d: "docker_Destroy (de_client de) dh d = (None, d')"
  shows "conts V d' = conts V d - set (dh_containers dh) \<and> nets V d' = nets V d - {dh_network dh} \<and>
    imgs V d' = imgs V d - {uniqueName dh}"
proof -
  have q: "quiet_ops de V" and rm: "removals (de_client de) V" using laws by (simp_all add: daemon_laws_def)
  let ?d1 = "destroy_each (de_client de) (dh_containers dh) d"
  obtain d2 where n: "dc_NetworkRemove (de_client de) (dh_network dh) ?d1 = (None, d2)"
    and i: "dc_ImageRemove (de_client de) (uniqueName dh) d2 = (None, d')"
    using d by (auto simp: docker_Destroy_def split: prod.splits option.splits)
  have "conts V d2 = conts V ?d1 \<and> imgs V d2 = imgs V ?d1 \<and> nets V d2 = nets V ?d1 - {dh_network dh}"
    using removed_network [OF rm n] by simp
  moreover have "conts V d' = conts V d2 \<and> nets V d' = nets V d2 \<and> imgs V d' = imgs V d2 - {uniqueName dh}"
    using removed_image [OF rm i] by simp
  ultimately show ?thesis using destroy_each_resources [OF q rm ok] by simp
qed

section \<open>Failed creations and orphans\<close>

text \<open>Everything before the containers works, and no container can be created.\<close>

definition works_until_containers :: "'d docker_env \<Rightarrow> bool" where
  "works_until_containers de \<longleftrightarrow>
     (\<forall>d. \<exists>u. fst (NewUUID (de_fs de) d) = Inr u) \<and>
     (\<forall>p d. fst (MkdirAll (de_fs de) p d) = None) \<and>
     (\<forall>p q d. fst (de_copy_embed de p q d) = None) \<and>
     (\<forall>p q d. fst (de_copy_all de p q d) = None) \<and>
     (\<forall>p d. \<exists>t. fst (dc_Tar (de_client de) p d) = Inr t) \<and>
     (\<forall>t n ls d. fst (dc_ImageBuild (de_client de) t n ls d) = None) \<and>
     (\<forall>n ls d. \<exists>i. fst (dc_NetworkCreate (de_client de) n ls d) = Inr i) \<and>
     (\<forall>cfg n d. \<exists>x. fst (dc_ContainerCreate (de_client de) cfg n d) = Inl x)"

lemma provision_leaks:
  assumes w: "works_until_containers de" and cr: "creations (de_client de) V" and t: "0 < dh_threads dh"
  shows "\<exists>err d' net. provision de ident dh envs d = (Return (Inl err), d') \<and> net \<notin> nets V d \<and>
    nets V d' = insert net (nets V d)"
proof -
  let ?cl = "de_client de"
  obtain net d1 where n: "dc_NetworkCreate ?cl (uniqueName dh) (handler_labels ident (dh_name dh)) d = (Inr net, d1)"
    using w unfolding works_until_containers_def by (metis prod.collapse)
  obtain k where k: "[0..<nat (dh_threads dh)] = 0 # k"
    using t by (metis upt_conv_Cons zero_less_nat_eq)
  let ?cfg = "\<lparr>cc_Image = uniqueName dh, cc_Labels = handler_labels ident (dh_name dh),
     cc_Env = env_list envs (de_order de envs), cc_NetworkMode = uniqueName dh\<rparr>"
  obtain x d2 where c: "dc_ContainerCreate ?cl ?cfg (uniqueName dh @ ''-'' @ show_nat 0) d1 = (Inl x, d2)"
    using w unfolding works_until_containers_def by (metis prod.collapse)
  have "provision de ident dh envs d = (Return (Inl x), d2)"
    using n c by (simp add: provision_def get_or_fail_def create_containers_def k)
  moreover have "nets V d2 = nets V d1" using failed_container [OF cr c] by (simp add: same_def)
  ultimately show ?thesis using created_network [OF cr n] by auto
qed

lemma docker_Create_leaks:
  assumes w: "works_until_containers de" and laws: "daemon_laws de V" and t: "0 < threads"
  shows "\<exists>err d' net. docker_Create de ident name fenv threads filedir envs d = (Return (Inl err), d') \<and>
    net \<notin> nets V d \<and> nets V d' = insert net (nets V d)"
proof -
  have q: "quiet_ops de V" and cr: "creations (de_client de) V" using laws by (simp_all add: daemon_laws_def)
  obtain uuid d1 where u: "NewUUID (de_fs de) d = (Inr uuid, d1)"
    using w unfolding works_until_containers_def by (metis prod.collapse)
  let ?dh = "new_handler name fenv threads uuid"
  obtain d2 where m: "MkdirAll (de_fs de) (filePath ?dh) d1 = (None, d2)"
    using w unfolding works_until_containers_def by (metis prod.collapse)
  obtain d3 where c: "de_copy_embed de (path_Join (de_runtimesDir de) (dh_env ?dh)) (filePath ?dh) d2 = (None, d3)"
    using w unfolding works_until_containers_def by (metis prod.collapse)
  obtain d4 where n: "MkdirAll (de_fs de) (path_Join (filePath ?dh) ''fn'') d3 = (None, d4)"
    using w unfolding works_until_containers_def by (metis prod.collapse)
  obtain d5 where a: "de_copy_all de filedir (path_Join (filePath ?dh) ''fn'') d4 = (None, d5)"
    using w unfolding works_until_containers_def by (metis prod.collapse)
  obtain tar d6 where r: "dc_Tar (de_client de) (filePath ?dh) d5 = (Inr tar, d6)"
    using w unfolding works_until_containers_def by (metis prod.collapse)
  obtain d7 where b: "dc_ImageBuild (de_client de) tar (uniqueName ?dh) (handler_labels ident (dh_name ?dh)) d6 = (None, d7)"
    using w unfolding works_until_containers_def by (metis prod.collapse)
  have run: "docker_Create de ident name fenv threads filedir envs d = provision de ident ?dh envs d7"
    using t u m c n a r b
    by (simp add: docker_Create_def prepare_folder_def build_image_def get_or_fail_def or_fail_def Let_def)
  have "same V d d6"
    by (rule same_trans [OF quiet_at(1) [OF q u] same_trans [OF quiet_at(2) [OF q m]
        same_trans [OF quiet_at(4) [OF q c] same_trans [OF quiet_at(2) [OF q n]
        same_trans [OF quiet_at(5) [OF q a] quiet_at(6) [OF q r]]]]]])
  moreover have "nets V d7 = nets V d6"
    using cr [unfolded creations_def Let_def, THEN conjunct1, THEN spec [of _ tar], THEN spec [of _ "uniqueName ?dh"],
        THEN spec [of _ "handler_labels ident (dh_name ?dh)"], THEN spec [of _ d6]] b by simp
  moreover have "0 < dh_threads ?dh" using t by (simp add: new_handler_def)
  ultimately show ?thesis using provision_leaks [OF w cr, of ?dh ident envs d7] unfolding run same_def by simp
qed

text \<open>Lists are complete, and nothing in them resists its removal.\<close>

definition orphans_removable :: "'d docker_client \<Rightarrow> 'd daemon_view \<Rightarrow> bool" where
  "orphans_removable cl V \<longleftrightarrow>
     (\<forall>d. \<exists>cs. fst (dc_ContainerList cl ''tinyFaaS'' d) = Inr cs \<and> set cs = conts V d \<and> (\<forall>c \<in> set cs. 12 \<le> length c)) \<and>
     (\<forall>d. \<exists>ns. fst (dc_NetworkList cl ''tinyFaaS'' d) = Inr ns \<and> set ns = nets V d) \<and>
     (\<forall>f c d. fst (dc_ContainerRemove cl f c d) = None) \<and> (\<forall>n d. fst (dc_NetworkRemove cl n d) = None)"

lemma remove_containers_resources:
  assumes rm: "removals cl V" and ok: "\<forall>f c d. fst (dc_ContainerRemove cl f c d) = None"
  shows "\<forall>c \<in> set cs. 12 \<le> length c \<Longrightarrow> \<exists>d'. remove_containers cl cs d = (Return (), d') \<and>
    conts V d' = conts V d - set cs \<and> nets V d' = nets V d \<and> imgs V d' = imgs V d"
proof (induction cs arbitrary: d)
  case Nil
  then show ?case by simp
next
  case (Cons c cs)
  obtain d1 where r: "dc_ContainerRemove cl True c d = (None, d1)" using ok by (metis prod.collapse)
  have "nets V d1 = nets V d \<and> imgs V d1 = imgs V d \<and> conts V d1 = conts V d - {c}" using removed_container [OF rm r] by simp
  moreover obtain d' where "remove_containers cl cs d1 = (Return (), d')" "conts V d' = conts V d1 - set cs" "nets V d' = nets V d1"
      "imgs V d' = imgs V d1"
    using Cons.IH [of d1] Cons.prems by auto
  ultimately show ?case using Cons.prems r by auto
qed

lemma remove_networks_resources:
  assumes rm: "removals cl V" and ok: "\<forall>n d. fst (dc_NetworkRemove cl n d) = None"
  shows "conts V (remove_networks cl ns d) = conts V d \<and> nets V (remove_networks cl ns d) = nets V d - set ns \<and>
    imgs V (remove_networks cl ns d) = imgs V d"
proof (induction ns arbitrary: d)
  case Nil
  then show ?case by simp
next
  case (Cons n ns)
  obtain d1 where r: "dc_NetworkRemove cl n d = (None, d1)" using ok by (metis prod.collapse)
  then show ?case using Cons.IH [of d1] removed_network [OF rm r] by auto
qed

lemma orphans_resources:
  assumes laws: "daemon_laws de V" and o: "orphans_removable (de_client de) V"
  shows "\<exists>d'. docker_RemoveOrphans (de_client de) d = (Return None, d') \<and> conts V d' = {} \<and> nets V d' = {} \<and>
    imgs V d' = imgs V d"
proof -
  let ?cl = "de_client de"
  have q: "quiet_ops de V" and rm: "removals ?cl V" using laws by (simp_all add: daemon_laws_def)
  have okc: "\<forall>f c d. fst (dc_ContainerRemove ?cl f c d) = None" and okn: "\<forall>n d. fst (dc_NetworkRemove ?cl n d) = None"
    using o by (simp_all add: orphans_removable_def)
  obtain cs d1 where l: "dc_ContainerList ?cl ''tinyFaaS'' d = (Inr cs, d1)" "set cs = conts V d" "\<forall>c \<in> set cs. 12 \<le> length c"
    using o unfolding orphans_removable_def by (metis prod.collapse)
  obtain d2 where r: "remove_containers ?cl cs d1 = (Return (), d2)" "conts V d2 = conts V d1 - set cs" "nets V d2 = nets V d1" "imgs V d2 = imgs V d1"
    using remove_containers_resources [OF rm okc l(3)] by blast
  obtain ns d3 where n: "dc_NetworkList ?cl ''tinyFaaS'' d2 = (Inr ns, d3)" "set ns = nets V d2"
    using o unfolding orphans_removable_def by (metis prod.collapse)
  have s: "same V d d1" "same V d2 d3" using quiet_at(10) [OF q l(1)] quiet_at(11) [OF q n(1)] by simp_all
  have "docker_RemoveOrphans ?cl d = (Return None, remove_networks ?cl ns d3)"
    using l(1) r(1) n(1) by (simp add: docker_RemoveOrphans_def)
  moreover have "conts V (remove_networks ?cl ns d3) = {} \<and> nets V (remove_networks ?cl ns d3) = {} \<and>
      imgs V (remove_networks ?cl ns d3) = imgs V d"
    using remove_networks_resources [OF rm okn, of ns d3] s l(2) r(2-4) n(2) unfolding same_def by simp
  ultimately show ?thesis by blast
qed

end
