(* ===== verification/Function_Runtime.thy ===== *)
theory Function_Runtime
  imports Leader_Main Docker_Facts
begin

text \<open>
  The servers that run inside a function's container,
  \<^verbatim>\<open>pkg/docker/runtimes/go/functionhandler.go\<close> and
  \<^verbatim>\<open>pkg/docker/runtimes/binary/functionhandler.go\<close>, and what becomes of their answers on
  the way back through the reverse proxy and the front end.
\<close>

section \<open>The two servers\<close>

text \<open>The branch of \<open>http.MethodGet\<close>, the same in both.\<close>

definition runtime_get :: "http_request \<Rightarrow> http_response call" where
  "runtime_get req =
     (if URLPath req = ''/health'' then respond HTTP_OK Map.empty ''OK''
      else respond HTTP_NotFound Map.empty [])"

text \<open>
  \<open>fn\<close> is the user's function with its result and its error, \<open>rerr\<close> the text of a
  failed read of the body, \<open>ho\<close> the order of the range loop over the headers. A failing
  write of the answer is left out: its status has been sent by then.
\<close>

type_synonym 'w user_fn = "string \<Rightarrow> (string \<rightharpoonup> string) \<Rightarrow> 'w \<Rightarrow> (string \<times> string option) \<times> 'w"
type_synonym 'w server = "http_request \<Rightarrow> 'w \<Rightarrow> http_response call \<times> 'w"

definition go_runtime ::
  "'w user_fn \<Rightarrow> string \<Rightarrow> ((string \<rightharpoonup> string list) \<Rightarrow> string list) \<Rightarrow> 'w server" where
  "go_runtime fn rerr ho req w =
     (if Method req = MethodGet then (runtime_get req, w)
      else if Method req = MethodPost then
        (case Body req of
           None \<Rightarrow> (respond HTTP_InternalServerError Map.empty rerr, w)
         | Some body \<Rightarrow>
             (case copy_headers (range_items (Header req) (ho (Header req))) Map.empty of
                Panic x \<Rightarrow> (Panic x, w)
              | Return headers \<Rightarrow>
                  (case fn body headers w of
                     ((result, Some err), w1) \<Rightarrow> (respond HTTP_InternalServerError Map.empty err, w1)
                   | ((result, None), w1) \<Rightarrow> (respond HTTP_OK Map.empty result, w1))))
      else (respond HTTP_MethodNotAllowed Map.empty [], w))"

text \<open>\<open>run\<close> is \<^verbatim>\<open>./fn.sh\<close> with the body as its input: its output and its failure.\<close>

definition binary_runtime ::
  "(string \<Rightarrow> 'w \<Rightarrow> (string \<times> string option) \<times> 'w) \<Rightarrow> string \<Rightarrow> 'w server" where
  "binary_runtime run rerr req w =
     (if Method req = MethodGet then (runtime_get req, w)
      else if Method req = MethodPost then
        (case Body req of
           None \<Rightarrow> (respond HTTP_InternalServerError Map.empty rerr, w)
         | Some data \<Rightarrow>
             (case run data w of
                ((output, Some err), w1) \<Rightarrow> (respond HTTP_InternalServerError Map.empty err, w1)
              | ((output, None), w1) \<Rightarrow> (respond HTTP_OK Map.empty output, w1)))
      else (respond HTTP_MethodNotAllowed Map.empty [], w))"

section \<open>A container that runs a server\<close>

text \<open>
  \<^verbatim>\<open>net/http\<close> hands the requests of the reverse proxy and of the readiness probe to the
  server at the address; a panic of the server closes the connection without an answer.
  \<open>wire\<close> gives the header fields that arrive, of which none is without a value.
\<close>

definition delivered :: "'w server \<Rightarrow> http_request \<Rightarrow> 'w \<Rightarrow> http_result \<times> 'w" where
  "delivered srv req w =
     (case srv req w of
        (Return r, w1) \<Rightarrow> (Inr (Code r, Some (RespBody r)), w1)
      | (Panic _, w1) \<Rightarrow> (Inl EOF, w1))"

type_synonym wire = "(string \<rightharpoonup> string) \<Rightarrow> string \<rightharpoonup> string list"

definition call_request :: "wire \<Rightarrow> string \<Rightarrow> (string \<rightharpoonup> string) \<Rightarrow> http_request" where
  "call_request wire b hs = \<lparr>Method = MethodPost, URLPath = ''/fn'', Header = wire hs, Body = Some b\<rparr>"

definition probe_request :: "wire \<Rightarrow> http_request" where
  "probe_request wire =
     \<lparr>Method = MethodGet, URLPath = ''/health'', Header = wire Map.empty, Body = Some []\<rparr>"

definition runs_at :: "'w ext \<Rightarrow> wire \<Rightarrow> 'w server \<Rightarrow> string \<Rightarrow> bool" where
  "runs_at e wire srv ip \<longleftrightarrow>
     ValidURL e (handler_url ip) \<and>
     (\<forall>b hs w. HttpPost e (handler_url ip) (CallBody b hs) w = delivered srv (call_request wire b hs) w) \<and>
     (\<forall>w. HttpGet e (ready_url ip) w = delivered srv (probe_request wire) w)"

definition wire_ok :: "wire \<Rightarrow> bool" where
  "wire_ok wire \<longleftrightarrow> (\<forall>hs k. wire hs k \<noteq> Some [])"

text \<open>The headers that the Go server passes to the function: the first value of each.\<close>

definition first_values :: "(string \<rightharpoonup> string list) \<Rightarrow> (string \<rightharpoonup> string)" where
  "first_values m k = map_option hd (m k)"

section \<open>What the servers answer\<close>

lemma runtime_get_health [simp]: "URLPath req = ''/health'' \<Longrightarrow>
    runtime_get req = Return \<lparr>Code = 200, RespHeader = Map.empty, RespBody = ''OK''\<rparr>"
  by (simp add: runtime_get_def)

lemma copy_headers_app:
  assumes "\<forall>(k, v) \<in> set kvs. v \<noteq> []"
  shows "copy_headers kvs h = Return (h ++ map_of (rev (map (\<lambda>(k, v). (k, hd v)) kvs)))"
  using assms
proof (induction kvs arbitrary: h)
  case Nil
  then show ?case by simp
next
  case (Cons kv kvs)
  obtain k x xs where "kv = (k, x # xs)" using Cons.prems by (cases kv; cases "snd kv") auto
  then show ?case using Cons.IH Cons.prems by simp
qed

lemma copy_headers_first:
  assumes "range_order m ks" and "\<forall>k. m k \<noteq> Some []"
  shows "copy_headers (range_items m ks) Map.empty = Return (first_values m)"
proof -
  let ?kvs = "map (\<lambda>(k, v). (k, hd v)) (range_items m ks)"
  have "distinct (map fst ?kvs)"
    using distinct_range_items [OF range_order_distinct [OF assms(1)]] by (simp add: comp_def case_prod_beta)
  then have "map_of (rev ?kvs) = map_option hd \<circ> map_of (range_items m ks)"
    by (simp add: map_of_rev_distinct map_of_map)
  also have "\<dots> = first_values m"
    by (simp add: range_items_map_of [OF assms(1)] first_values_def fun_eq_iff)
  finally show ?thesis
    using copy_headers_app [of "range_items m ks" Map.empty] assms(2) by (auto simp: set_range_items)
qed

text \<open>The text of an answer: what the function computed, or the text of its error.\<close>

definition outcome :: "string \<times> string option \<Rightarrow> string" where
  "outcome r = (case snd r of None \<Rightarrow> fst r | Some err \<Rightarrow> err)"

definition outcome_code :: "string \<times> string option \<Rightarrow> int" where
  "outcome_code r = (case snd r of None \<Rightarrow> 200 | Some err \<Rightarrow> 500)"

lemma go_runtime_answers:
  assumes "wire_ok wire" and "range_order (wire hs) (ho (wire hs))"
    and "fn b (first_values (wire hs)) w = (r, w1)"
  shows "delivered (go_runtime fn rerr ho) (call_request wire b hs) w = (Inr (outcome_code r, Some (outcome r)), w1)"
proof -
  have "copy_headers (range_items (wire hs) (ho (wire hs))) Map.empty = Return (first_values (wire hs))"
    using copy_headers_first [OF assms(2)] assms(1) by (simp add: wire_ok_def)
  then show ?thesis
    using assms(3) by (cases r; cases "snd r")
      (simp_all add: delivered_def go_runtime_def call_request_def outcome_def outcome_code_def)
qed

lemma binary_runtime_answers:
  assumes "run b w = (r, w1)"
  shows "delivered (binary_runtime run rerr) (call_request wire b hs) w = (Inr (outcome_code r, Some (outcome r)), w1)"
  using assms by (cases r; cases "snd r")
    (simp_all add: delivered_def binary_runtime_def call_request_def outcome_def outcome_code_def)

lemma probe_answers:
  "delivered (go_runtime fn rerr ho) (probe_request wire) w = (Inr (200, Some ''OK''), w)"
  "delivered (binary_runtime run rerr) (probe_request wire) w = (Inr (200, Some ''OK''), w)"
  by (simp_all add: delivered_def go_runtime_def binary_runtime_def probe_request_def)

text \<open>A container that runs either server is ready at the first probe.\<close>

lemma wait_ready_runs:
  assumes "runs_at e wire (go_runtime fn rerr ho) ip \<or> runs_at e wire (binary_runtime run rerr) ip"
  shows "wait_ready e ip (Suc k) w = (True, w)"
  using assms by (auto simp: runs_at_def probe_answers ready_def)

lemma ready_each_runs:
  assumes "\<forall>ip \<in> set ips. runs_at (de_ext de) wire (go_runtime fn rerr ho) ip \<or>
      runs_at (de_ext de) wire (binary_runtime run rerr) ip"
  shows "ready_each de dh i ips w = (Return None, w)"
  using assms
proof (induction ips arbitrary: i)
  case Nil
  then show ?case by simp
next
  case (Cons ip ips)
  have "wait_ready (de_ext de) ip (maxRetries - 1) w = (True, w)"
    using wait_ready_runs [of "de_ext de" wire fn rerr ho ip run 8 w] Cons.prems by (simp add: maxRetries_def)
  then show ?case using Cons by simp
qed

section \<open>The way back\<close>

text \<open>
  A synchronous call of a function whose containers all run the same server: the status of
  the server's answer is not looked at, its text is the result.
\<close>

lemma Call_runs:
  assumes "hosts rp name = Some hs" and "hs \<noteq> []" and "\<forall>h \<in> set hs. runs_at e wire srv h"
    and "delivered srv (call_request wire b (call_headers headers ho)) w = (Inr (code, Some res), w1)"
  shows "Call e rnd ho name b False headers (rp, w) =
    (Return (StatusOK, res), rp\<lparr>functionLastUsed := (functionLastUsed rp)(name \<mapsto> Now e w1)\<rparr>, w1)"
proof -
  have "runs_at e wire srv (hs ! (rnd mod length hs))"
    using assms(2,3) by (auto intro!: nth_mem mod_less_divisor)
  then show ?thesis using assms(1,2,4) by (simp add: Call_def runs_at_def Let_def)
qed

lemma serve_local_runs:
  assumes "hosts rp name = Some hs" and "hs \<noteq> []" and "\<forall>h \<in> set hs. runs_at e wire srv h"
    and "delivered srv (call_request wire b (call_headers headers (ch_out c))) w = (Inr (code, Some res), w1)"
  shows "serve_local e c n name b False headers (rp, reg, w) =
    (Return \<lparr>Code = 200, RespHeader = node_header n, RespBody = res\<rparr>,
     rp\<lparr>functionLastUsed := (functionLastUsed rp)(name \<mapsto> Now e w1)\<rparr>, TouchNode (ID n) (Now e w1) reg, w1)"
  by (simp add: serve_local_def Call_runs [OF assms])

text \<open>The leader is up and its function is on the node itself.\<close>

definition served_here ::
  "choices \<Rightarrow> int \<Rightarrow> http_request \<Rightarrow> node \<Rightarrow> registry \<Rightarrow> bool" where
  "served_here c thr req n reg \<longleftrightarrow>
     pick_spec (ListNodes (ch_nodes c) reg) thr = Some n \<and> Local n \<and>
     nodes reg (ID n) = Some n \<and> Status n = NodeActive \<and> \<not> is_async req"

lemma ActivateNode_active:
  "nodes reg i = Some n \<Longrightarrow> Status n = NodeActive \<Longrightarrow> ActivateNode e p i (reg, w) = (Return None, reg, w)"
  by (simp add: ActivateNode_def activate_begin_def)

lemma serve_runs:
  assumes "served_here c thr req n reg" and "Body req = Some b"
    and "copy_headers (range_items (Header req) (ch_headers c)) Map.empty = Return headers"
    and "hosts rp (strip_slashes (URLPath req)) = Some hs" and "hs \<noteq> []"
    and "\<forall>h \<in> set hs. runs_at e wire srv h"
    and "delivered srv (call_request wire b (call_headers headers (ch_out c))) w = (Inr (code, Some res), w1)"
  shows "\<exists>rp' reg'. serve e p thr c req (rp, reg, w) =
    (Return \<lparr>Code = 200, RespHeader = node_header n, RespBody = res\<rparr>, rp', reg', w1)"
  using assms(1,2,3)
  by (simp add: serve_def served_here_def Let_def PickNode_eq_spec ActivateNode_active
      serve_local_runs [OF assms(4-7)])

section \<open>From the announcement of a function to its answers\<close>

lemma config_handler_announces:
  assumes "decode msg = Some def" and "rc_name def = name" and "name \<noteq> []" and "hd name \<noteq> CHR ''/''"
    and "rc_ips def \<noteq> []"
    and "config_handler e p decode ks MethodPost msg (rp, reg, w) = (res, rp1, reg1, w1)"
  shows "hosts rp1 name = Some (rc_ips def) \<and> nodes reg1 = nodes reg"
proof -
  have "length (rc_ips def) > 0" using assms(5) by simp
  note run = config_handler_def [of e p decode ks MethodPost msg "(rp, reg, w)", unfolded prod.case assms(1) option.case
      assms(2) Add_def Let_def]
  have "rp1 = rp\<lparr>hosts := (hosts rp)(name \<mapsto> rc_ips def)\<rparr> \<and> nodes reg1 = nodes reg"
    using assms(6) unfolding run by (auto simp: assms(3-5) set_funcs_def)
  then show ?thesis by simp
qed

lemma served_here_nodes: "nodes reg' = nodes reg \<Longrightarrow> served_here c thr req n reg' \<longleftrightarrow> served_here c thr req n reg"
  by (simp add: served_here_def ListNodes_def)

text \<open>The headers that the reverse proxy sets for a request.\<close>

definition out_headers :: "choices \<Rightarrow> http_request \<Rightarrow> (string \<rightharpoonup> string)" where
  "out_headers c req = call_headers (first_values (Header req)) (ch_out c)"

text \<open>The request carries a body and header fields with values, and asks for \<open>name\<close>.\<close>

definition asks_for :: "choices \<Rightarrow> http_request \<Rightarrow> string \<Rightarrow> string \<Rightarrow> bool" where
  "asks_for c req name b \<longleftrightarrow>
     strip_slashes (URLPath req) = name \<and> Body req = Some b \<and>
     range_order (Header req) (ch_headers c) \<and> (\<forall>k. Header req k \<noteq> Some [])"

lemma announced_function_answers:
  assumes "decode msg = Some def" and "rc_name def = name" and "name \<noteq> []" and "rc_ips def \<noteq> []"
    and "config_handler e p decode ks MethodPost msg (rp, reg, w) = (res, rp1, reg1, w1)"
    and "\<forall>ip \<in> set (rc_ips def). runs_at e wire srv ip"
    and "served_here c thr req n reg" and "asks_for c req name b"
    and "delivered srv (call_request wire b (out_headers c req)) w1 = (Inr (code, Some out), w2)"
  shows "\<exists>rp' reg'. serve e p thr c req (rp1, reg1, w1) =
    (Return \<lparr>Code = 200, RespHeader = node_header n, RespBody = out\<rparr>, rp', reg', w2)"
proof -
  have name: "strip_slashes (URLPath req) = name" and b: "Body req = Some b"
    and ho: "range_order (Header req) (ch_headers c)" and v: "\<forall>k. Header req k \<noteq> Some []"
    using assms(8) by (auto simp: asks_for_def)
  have "hd name \<noteq> CHR ''/''" using strip_slashes_head [of "URLPath req"] name assms(3) by simp
  then have reg: "hosts rp1 name = Some (rc_ips def)" "nodes reg1 = nodes reg"
    using config_handler_announces [OF assms(1-3) _ assms(4,5)] by simp_all
  show ?thesis
    by (rule serve_runs [OF _ b copy_headers_first [OF ho v] _ assms(4,6) assms(9) [unfolded out_headers_def]])
      (use assms(7) reg name in \<open>simp_all add: served_here_nodes [OF reg(2)]\<close>)
qed

end
