(* ===== verification/Node_Main.thy ===== *)
theory Node_Main
  imports Mgmt_Api Docker_Facts
begin

text \<open>
  \<^verbatim>\<open>func main\<close> of \<^verbatim>\<open>cmd/manager/main.go\<close> (and \<open>New\<close> of \<^verbatim>\<open>pkg/docker/handler.go\<close>): the start
  of the management process of a node, from its environment to the running reverse proxy,
  and the two ways in which it ends, a server that cannot listen and an interrupt.
\<close>

section \<open>The process and its surroundings\<close>

text \<open>
  What the process takes from its surroundings and does to other processes: whether
  \<open>TF_BACKEND\<close> is set and to what, its random ID, the error of the Docker client, the
  embedded binary, pipes, start and end of the child, and \<open>ListenAndServe\<close>.
\<close>

record 'd process =
  pr_getenv :: environment
  pr_backend :: "string option"
  pr_id :: string
  pr_docker :: "string option"
  pr_tmp :: string
  RProxyBin :: string
  pr_StdoutPipe :: "'d \<Rightarrow> string option \<times> 'd"
  pr_StderrPipe :: "'d \<Rightarrow> string option \<times> 'd"
  pr_Start :: "string \<Rightarrow> string list \<Rightarrow> 'd \<Rightarrow> (string + nat) \<times> 'd"
  pr_Kill :: "nat \<Rightarrow> 'd \<Rightarrow> string option \<times> 'd"
  pr_Listen :: "string \<Rightarrow> 'd \<Rightarrow> string option \<times> 'd"

datatype main_error =
    BadPort port_error
  | InvalidBackend string
  | NoDockerClient string
  | NoFolder string
  | NoBinary string
  | NoPipe string
  | NotStarted string
  | NotServing string

datatype exit = ExitFatal main_error | ExitPanic panic | ExitNormally

text \<open>\<open>docker.New\<close> ends the process when it gets no client.\<close>

definition docker_New ::
  "'d process \<Rightarrow> 'd docker_env \<Rightarrow> string \<Rightarrow> main_error + (nat, 'd docker_world) backend" where
  "docker_New pr de tinyFaaSID =
     (case pr_docker pr of Some err \<Rightarrow> Inl (NoDockerClient err) | None \<Rightarrow> Inr (docker_backend de tinyFaaSID))"

definition find_backend ::
  "'d process \<Rightarrow> 'd docker_env \<Rightarrow> main_error + (nat, 'd docker_world) backend" where
  "find_backend pr de =
     (let b = (case pr_backend pr of None \<Rightarrow> ''docker'' | Some b \<Rightarrow> b)
      in if b = ''docker'' then docker_New pr de (pr_id pr) else Inl (InvalidBackend b))"

section \<open>Starting the reverse proxy\<close>

definition rproxy_dir :: "'d process \<Rightarrow> string" where
  "rproxy_dir pr = path_Join (pr_tmp pr) (pr_id pr)"

text \<open>The early ends of the process: \<open>if err != nil { log.Fatal(err) }\<close>.\<close>

definition or_fatal ::
  "(string \<Rightarrow> main_error) \<Rightarrow> ('d \<Rightarrow> string option \<times> 'd) \<Rightarrow> ('d \<Rightarrow> (main_error + 'a) \<times> 'd) \<Rightarrow>
   'd \<Rightarrow> (main_error + 'a) \<times> 'd" where
  "or_fatal why f k d = (case f d of (Some err, d1) \<Rightarrow> (Inl (why err), d1) | (None, d1) \<Rightarrow> k d1)"

text \<open>The result is the child's process. \<open>po\<close> is the order of the range loop over the ports.\<close>

definition start_rproxy ::
  "'d process \<Rightarrow> 'd files \<Rightarrow> (string \<rightharpoonup> int) \<Rightarrow> string list \<Rightarrow> 'd \<Rightarrow> (main_error + nat) \<times> 'd" where
  "start_rproxy pr fs ports po =
     (let bin = path_Join (rproxy_dir pr) ''rproxy.bin''
      in or_fatal NoFolder (MkdirAll fs (rproxy_dir pr))
        (or_fatal NoBinary (WriteFile fs bin (RProxyBin pr))
        (or_fatal NoPipe (pr_StdoutPipe pr)
        (or_fatal NoPipe (pr_StderrPipe pr)
        (\<lambda>d. case pr_Start pr bin (rproxyArgs ports po) d of
               (Inl err, d1) \<Rightarrow> (Inl (NotStarted err), d1) | (Inr p, d1) \<Rightarrow> (Inr p, d1))))))"

section \<open>Start-up\<close>

text \<open>
  Up to the server: the service, the reverse proxy's process, the state. The controller of
  \<open>StartController\<close> sleeps first; its rounds are steps of the running service. \<open>ps\<close> is
  the order of the range loop that reads the ports.
\<close>

definition main_start ::
  "'d process \<Rightarrow> 'd docker_env \<Rightarrow> string list \<Rightarrow> string list \<Rightarrow> 'd \<Rightarrow>
   (exit + nat manager \<times> nat) \<times> 'd docker_world" where
  "main_start pr de ps po d =
     (case read_ports (pr_getenv pr) ps default_ports of
        Inl err \<Rightarrow> (Inl (ExitFatal (BadPort err)), [], d)
      | Inr ports \<Rightarrow>
        (case find_backend pr de of
           Inl err \<Rightarrow> (Inl (ExitFatal err), [], d)
         | Inr tfBackend \<Rightarrow>
           (let ms = New_manager RProxyListenAddress ports RProxyConfigPort
            in case be_RemoveOrphans tfBackend ([], d) of
                 (Panic x, w1) \<Rightarrow> (Inl (ExitPanic x), w1)
               | (Return _, hs, d1) \<Rightarrow>
                   (case start_rproxy pr (de_fs de) ports po d1 of
                      (Inl err, d2) \<Rightarrow> (Inl (ExitFatal err), hs, d2)
                    | (Inr rproxy, d2) \<Rightarrow> (Inr (ms, rproxy), hs, d2)))))"

section \<open>The ends of the process\<close>

definition config_addr :: string where "config_addr = '':8080''"

text \<open>
  The deferred removal of the binary's folder runs only when \<open>main\<close> returns: \<open>log.Fatal\<close>
  and \<open>os.Exit\<close> end the process without it, and \<open>ListenAndServe\<close> always has an error.
\<close>

definition main_serve :: "'d process \<Rightarrow> 'd docker_env \<Rightarrow> 'd \<Rightarrow> exit \<times> 'd" where
  "main_serve pr de d =
     (case pr_Listen pr config_addr d of
        (Some err, d1) \<Rightarrow> (ExitFatal (NotServing err), d1)
      | (None, d1) \<Rightarrow> (ExitNormally, snd (RemoveAll (de_fs de) (rproxy_dir pr) d1)))"

text \<open>The goroutine that waits for an interrupt; both errors are logged only.\<close>

definition interrupt ::
  "'d process \<Rightarrow> 'd docker_env \<Rightarrow> string list \<Rightarrow> nat \<Rightarrow> nat manager \<times> 'd docker_world \<Rightarrow>
   exit \<times> 'd docker_world" where
  "interrupt pr de ks rproxy mw =
     (case mw of (ms, hs, d) \<Rightarrow>
      case pr_Kill pr rproxy d of
        (_, d1) \<Rightarrow>
          (case Stop (docker_node de (pr_id pr)) ks (ms, hs, d1) of
             (Panic x, _, w2) \<Rightarrow> (ExitPanic x, w2) | (Return _, _, w2) \<Rightarrow> (ExitNormally, w2)))"

section \<open>What the start leaves\<close>

text \<open>Files, child processes and the posts to the reverse proxy are not the daemon's.\<close>

definition process_quiet :: "'d process \<Rightarrow> 'd docker_env \<Rightarrow> 'd daemon_view \<Rightarrow> bool" where
  "process_quiet pr de V \<longleftrightarrow>
     (\<forall>p b d. same V d (snd (WriteFile (de_fs de) p b d))) \<and>
     (\<forall>d. same V d (snd (pr_StdoutPipe pr d))) \<and> (\<forall>d. same V d (snd (pr_StderrPipe pr d))) \<and>
     (\<forall>b args d. same V d (snd (pr_Start pr b args d))) \<and> (\<forall>p d. same V d (snd (pr_Kill pr p d))) \<and>
     (\<forall>u b d. same V d (snd (HttpPost (de_ext de) u b d)))"

lemma or_fatal_Inr: "or_fatal why f k d = (Inr x, d') \<longleftrightarrow> (\<exists>d1. f d = (None, d1) \<and> k d1 = (Inr x, d'))"
  by (auto simp: or_fatal_def split: prod.splits option.splits)

lemma started_Inr:
  "(case r of (Inl err, d1) \<Rightarrow> (Inl (NotStarted err), d1) | (Inr p, d1) \<Rightarrow> (Inr p, d1)) = (Inr q, d') \<longleftrightarrow>
     r = (Inr q, d')"
  by (auto split: prod.splits sum.splits)

lemma start_rproxy_success:
  assumes q: "quiet_ops de V" and pq: "process_quiet pr de V"
    and s: "start_rproxy pr (de_fs de) ports po d = (Inr p, d')"
  shows "same V d d' \<and> (\<exists>d1. pr_Start pr (path_Join (rproxy_dir pr) ''rproxy.bin'') (rproxyArgs ports po) d1 = (Inr p, d'))"
proof -
  let ?bin = "path_Join (rproxy_dir pr) ''rproxy.bin''"
  obtain d1 d2 d3 d4 where m: "MkdirAll (de_fs de) (rproxy_dir pr) d = (None, d1)"
    and w: "WriteFile (de_fs de) ?bin (RProxyBin pr) d1 = (None, d2)"
    and o: "pr_StdoutPipe pr d2 = (None, d3)" and e: "pr_StderrPipe pr d3 = (None, d4)"
    and st: "pr_Start pr ?bin (rproxyArgs ports po) d4 = (Inr p, d')"
    using s unfolding start_rproxy_def Let_def or_fatal_Inr started_Inr by blast
  have "same V d d1" by (rule quiet_at(2) [OF q m])
  moreover have "same V d1 d2" "same V d2 d3" "same V d3 d4" "same V d4 d'"
    using pq w o e st unfolding process_quiet_def by (metis snd_conv)+
  ultimately show ?thesis using st by (auto simp: same_def)
qed

lemma find_backend_Inr: "find_backend pr de = Inr b \<Longrightarrow> b = docker_backend de (pr_id pr)"
  by (auto simp: find_backend_def docker_New_def Let_def split: option.splits if_splits)

lemma main_start_cases:
  assumes "main_start pr de ps po d = (Inr (ms, p), hs, d')"
  obtains ports d1 r where "read_ports (pr_getenv pr) ps default_ports = Inr ports"
    "ms = New_manager RProxyListenAddress ports RProxyConfigPort" "hs = []"
    "docker_RemoveOrphans (de_client de) d = (Return r, d1)"
    "start_rproxy pr (de_fs de) ports po d1 = (Inr p, d')"
proof -
  obtain ports where r: "read_ports (pr_getenv pr) ps default_ports = Inr ports"
    using assms by (auto simp: main_start_def split: sum.splits)
  obtain b where b: "find_backend pr de = Inr b"
    using assms r by (auto simp: main_start_def split: sum.splits)
  obtain x d1 where o: "docker_RemoveOrphans (de_client de) d = (x, d1)" by fastforce
  have run: "main_start pr de ps po d =
      (case x of Panic x \<Rightarrow> (Inl (ExitPanic x), [], d1)
       | Return _ \<Rightarrow> (case start_rproxy pr (de_fs de) ports po d1 of
            (Inl err, d2) \<Rightarrow> (Inl (ExitFatal err), [], d2)
          | (Inr rproxy, d2) \<Rightarrow> (Inr (New_manager RProxyListenAddress ports RProxyConfigPort, rproxy), [], d2)))"
    using r b o find_backend_Inr [OF b] by (simp add: main_start_def docker_backend_def split: call.splits)
  then show ?thesis
    using assms that r o by (auto split: call.splits prod.splits sum.splits)
qed

section \<open>Deletions on Docker\<close>

lemma docker_Destroy_any:
  assumes laws: "daemon_laws de V" and ok: "containers_removable (de_client de)"
    and d: "docker_Destroy (de_client de) dh d = (x, d')"
  obtains y d1 where "dc_NetworkRemove (de_client de) (dh_network dh) (destroy_each (de_client de) (dh_containers dh) d) = (y, d1)"
    "conts V d' = conts V d - set (dh_containers dh)"
    "nets V d' = (if y = None then nets V d - {dh_network dh} else nets V d)" "y \<noteq> None \<longrightarrow> x = y"
proof -
  have q: "quiet_ops de V" and rm: "removals (de_client de) V" using laws by (simp_all add: daemon_laws_def)
  let ?d0 = "destroy_each (de_client de) (dh_containers dh) d"
  obtain y d1 where n: "dc_NetworkRemove (de_client de) (dh_network dh) ?d0 = (y, d1)" by fastforce
  note net = removed_network [OF rm n] and each = destroy_each_resources [OF q rm ok, of "dh_containers dh" d]
  have "conts V d' = conts V d1 \<and> nets V d' = nets V d1 \<and> (y \<noteq> None \<longrightarrow> x = y)"
  proof (cases y)
    case None
    then have "dc_ImageRemove (de_client de) (uniqueName dh) d1 = (x, d')" using d n by (simp add: docker_Destroy_def)
    then show ?thesis using removed_image [OF rm] None by blast
  next
    case (Some err)
    then show ?thesis using d n by (simp add: docker_Destroy_def)
  qed
  then show ?thesis using that [OF n] net each by simp
qed

lemma tell_rproxy_same:
  assumes "process_quiet pr de V" and "tell_rproxy (lift_ext (de_ext de)) ms b (hs, d) = (r, hs', d')"
  shows "hs' = hs \<and> same V d d' \<and>
    ((\<forall>u b d. fst (HttpPost (de_ext de) u b d) \<noteq> Inl EOF) \<longrightarrow> returns r) \<and> (\<forall>m. r \<noteq> Return (Some (BackendError m)))"
proof -
  obtain x d1 where h: "HttpPost (de_ext de) (rproxy_url ms) b d = (x, d1)" by fastforce
  have "hs' = hs \<and> d' = d1 \<and> (x \<noteq> Inl EOF \<longrightarrow> returns r) \<and> (\<forall>m. r \<noteq> Return (Some (BackendError m)))"
    using assms(2) h
    by (cases x) (auto simp: tell_rproxy_def lift_ext_def over_def split: http_error.splits prod.splits if_splits)
  moreover have "same V d d1" using assms(1) h unfolding process_quiet_def by (metis snd_conv)
  ultimately show ?thesis using h by (metis fst_conv)
qed

lemma docker_h_Destroy:
  "h < length hs \<Longrightarrow> h_Destroy (m_be (docker_node de ident)) h (hs, d) =
     (case docker_Destroy (de_client de) (hs ! h) d of (err, d1) \<Rightarrow> (err, hs, d1))"
  by (simp add: docker_node_def docker_backend_def)

lemma docker_node_ext: "m_ext (docker_node de ident) = lift_ext (de_ext de)"
  by (simp add: docker_node_def)

lemma docker_Delete_any:
  assumes laws: "daemon_laws de V" and ok: "containers_removable (de_client de)" and pq: "process_quiet pr de V"
    and h: "functionHandlers ms name = Some h" "h < length hs"
    and run: "Delete (docker_node de ident) name (ms, hs, d) = (r, ms', hs', d')"
  obtains x d1 where "docker_Destroy (de_client de) (hs ! h) d = (x, d1)" "hs' = hs" "same V d1 d'"
    "x \<noteq> None \<Longrightarrow> ms' = ms \<and> r = Return (Some (BackendError (the x)))"
    "x = None \<Longrightarrow> \<forall>m. r \<noteq> Return (Some (BackendError m))"
    "(\<forall>u b d. fst (HttpPost (de_ext de) u b d) \<noteq> Inl EOF) \<Longrightarrow> returns r"
proof -
  obtain x d1 where d: "docker_Destroy (de_client de) (hs ! h) d = (x, d1)" by fastforce
  show ?thesis
  proof (cases x)
    case (Some err)
    then have "r = Return (Some (BackendError err)) \<and> ms' = ms \<and> hs' = hs \<and> d' = d1"
      using run h d by (simp add: Delete_def docker_h_Destroy)
    then show ?thesis using that [OF d] Some by simp
  next
    case None
    obtain y hs2 d2 where t: "tell_rproxy (lift_ext (de_ext de)) ms (DeleteBody name) (hs, d1) = (y, hs2, d2)"
      using prod_cases3 by blast
    note tell = tell_rproxy_same [OF pq t]
    have "hs' = hs2 \<and> d' = d2 \<and> (returns y \<longrightarrow> returns r) \<and> (\<forall>m. r = Return (Some (BackendError m)) \<longrightarrow> y = r)"
      using run h d None t by (auto simp: Delete_def docker_h_Destroy docker_node_ext split: call.splits option.splits)
    then show ?thesis using that [OF d] tell None by auto
  qed
qed

section \<open>After an interrupt\<close>

text \<open>Nothing of a handler is left; and nothing comes back while the daemon only loses resources.\<close>

definition gone :: "'d daemon_view \<Rightarrow> docker_handler \<Rightarrow> 'd \<Rightarrow> bool" where
  "gone V dh d \<longleftrightarrow> set (dh_containers dh) \<inter> conts V d = {} \<and> dh_network dh \<notin> nets V d"

definition loses :: "'d daemon_view \<Rightarrow> 'd \<Rightarrow> 'd \<Rightarrow> bool" where
  "loses V d d' \<longleftrightarrow> conts V d' \<subseteq> conts V d \<and> nets V d' \<subseteq> nets V d"

lemma loses_refl [simp]: "loses V d d"
  by (simp add: loses_def)

lemma loses_trans: "loses V d d1 \<Longrightarrow> loses V d1 d2 \<Longrightarrow> loses V d d2"
  by (auto simp: loses_def)

lemma same_loses: "same V d d' \<Longrightarrow> loses V d d'"
  by (simp add: same_def loses_def)

lemma gone_loses: "gone V dh d \<Longrightarrow> loses V d d' \<Longrightarrow> gone V dh d'"
  by (auto simp: gone_def loses_def)

text \<open>The networks can be removed, and a post fails in other ways than by an \<open>io.EOF\<close>.\<close>

definition networks_removable :: "'d docker_client \<Rightarrow> bool" where
  "networks_removable cl \<longleftrightarrow> (\<forall>n d. fst (dc_NetworkRemove cl n d) = None)"

definition no_eof :: "'d ext \<Rightarrow> bool" where
  "no_eof e \<longleftrightarrow> (\<forall>u b d. fst (HttpPost e u b d) \<noteq> Inl EOF)"

lemma docker_Delete_gone:
  assumes "daemon_laws de V" "containers_removable (de_client de)" "process_quiet pr de V"
    and "networks_removable (de_client de)" "no_eof (de_ext de)"
    and "functionHandlers ms name = Some h" "h < length hs"
    and "Delete (docker_node de ident) name (ms, hs, d) = (r, ms', hs', d')"
  shows "returns r \<and> hs' = hs \<and> loses V d d' \<and> gone V (hs ! h) d'"
proof -
  obtain x d1 where d: "docker_Destroy (de_client de) (hs ! h) d = (x, d1)" "hs' = hs" and s: "same V d1 d'" and "returns r"
    using docker_Delete_any [OF assms(1-3,6-8)] assms(5) unfolding no_eof_def by metis
  obtain y d2 where "dc_NetworkRemove (de_client de) (dh_network (hs ! h)) (destroy_each (de_client de) (dh_containers (hs ! h)) d) = (y, d2)"
    and c: "conts V d1 = conts V d - set (dh_containers (hs ! h))"
    and n: "nets V d1 = (if y = None then nets V d - {dh_network (hs ! h)} else nets V d)"
    using docker_Destroy_any [OF assms(1,2) d(1)] by metis
  then have "y = None" using assms(4) unfolding networks_removable_def by (metis fst_conv)
  then show ?thesis using c n s d(2) \<open>returns r\<close> by (auto simp: same_def loses_def gone_def)
qed

lemma docker_wipe_gone:
  assumes "daemon_laws de V" "containers_removable (de_client de)" "process_quiet pr de V"
    and "networks_removable (de_client de)" "no_eof (de_ext de)"
  shows "wipe_each (docker_node de ident) ks (ms, hs, d) = (res, ms', hs', d') \<Longrightarrow>
    \<forall>k h. functionHandlers ms k = Some h \<longrightarrow> h < length hs \<Longrightarrow>
    res = Return None \<and> hs' = hs \<and> loses V d d' \<and>
    (\<forall>k \<in> set ks. \<forall>h. functionHandlers ms k = Some h \<longrightarrow> gone V (hs ! h) d')"
proof (induction ks arbitrary: ms d)
  case Nil
  then show ?case by simp
next
  case (Cons k ks)
  show ?case
  proof (cases "functionHandlers ms k")
    case None
    then show ?thesis using Cons by auto
  next
    case (Some h)
    obtain r ms1 hs1 d1 where del: "Delete (docker_node de ident) k (ms, hs, d) = (r, ms1, hs1, d1)"
      using prod_cases4 by blast
    have one: "returns r" "hs1 = hs" "loses V d d1" "gone V (hs ! h) d1"
      using docker_Delete_gone [OF assms Some _ del] Cons.prems(2) Some by auto
    have tab: "functionHandlers ms1 k' = (if k' = k then functionHandlers ms1 k else functionHandlers ms k')" for k'
      unfolding Delete_table [OF del] by simp
    have "wipe_each (docker_node de ident) ks (ms1, hs, d1) = (res, ms', hs', d')"
      using Cons.prems(1) Some del one by (cases r) auto
    moreover have "\<forall>k' h. functionHandlers ms1 k' = Some h \<longrightarrow> h < length hs"
      using Cons.prems(2) Delete_table [OF del] by auto
    ultimately have rest: "res = Return None" "hs' = hs" "loses V d1 d'"
      "\<forall>k' \<in> set ks. \<forall>h. functionHandlers ms1 k' = Some h \<longrightarrow> gone V (hs ! h) d'"
      using Cons.IH by auto
    have "gone V (hs ! h') d'" if "k' \<in> set (k # ks)" "functionHandlers ms k' = Some h'" for k' h'
      using that rest(4) gone_loses [OF one(4) rest(3)] Some tab [of k'] by (cases "k' = k") auto
    then show ?thesis using rest(1,2) loses_trans [OF one(3) rest(3)] by blast
  qed
qed

lemma docker_Stop:
  "wipe_each (docker_node de ident) ks mw = (Return None, ms', w') \<Longrightarrow>
    Stop (docker_node de ident) ks mw = (Return None, ms', w')"
  by (simp add: Stop_def Wipe_def docker_node_def docker_backend_def)

lemma interrupt_gone:
  assumes "daemon_laws de V" "containers_removable (de_client de)" "process_quiet pr de V"
    and "networks_removable (de_client de)" "no_eof (de_ext de)"
    and "owned created_handler ms (hs, d)"
    and "interrupt pr de ks p (ms, hs, d) = (x, hs', d')"
  shows "x = ExitNormally \<and> hs' = hs \<and> loses V d d' \<and>
    (\<forall>k \<in> set ks. \<forall>h. functionHandlers ms k = Some h \<longrightarrow> gone V (hs ! h) d')"
proof -
  obtain err d1 where k: "pr_Kill pr p d = (err, d1)" by fastforce
  obtain res ms2 hs2 d2 where w: "wipe_each (docker_node de (pr_id pr)) ks (ms, hs, d1) = (res, ms2, hs2, d2)"
    using prod_cases4 by blast
  have same: "same V d d1" using assms(3) k unfolding process_quiet_def by (metis snd_conv)
  have "\<forall>k h. functionHandlers ms k = Some h \<longrightarrow> h < length hs"
    using assms(6) by (simp add: owned_def created_handler_def)
  note wipe = docker_wipe_gone [OF assms(1-5) w this]
  have "res = Return None" using wipe by (rule conjunct1)
  note stop = docker_Stop [OF w [unfolded this]]
  have "x = ExitNormally \<and> hs' = hs2 \<and> d' = d2"
    using assms(7) unfolding interrupt_def prod.case k stop call.case by simp
  then show ?thesis using wipe loses_trans [OF same_loses [OF same]] by simp
qed

section \<open>A deletion that fails half way\<close>

text \<open>The documented answer to the removal of a network that does not exist.\<close>

definition missing_networks_fail :: "'d docker_client \<Rightarrow> 'd daemon_view \<Rightarrow> bool" where
  "missing_networks_fail cl V \<longleftrightarrow> (\<forall>n d. n \<notin> nets V d \<longrightarrow> fst (dc_NetworkRemove cl n d) \<noteq> None)"

lemma Delete_without_network:
  assumes laws: "daemon_laws de V" and ok: "containers_removable (de_client de)" and pq: "process_quiet pr de V"
    and miss: "missing_networks_fail (de_client de) V"
    and h: "functionHandlers ms name = Some h" "h < length hs" and gone: "dh_network (hs ! h) \<notin> nets V d"
    and run: "Delete (docker_node de ident) name (ms, hs, d) = (r, ms', hs', d')"
  shows "\<exists>err. r = Return (Some (BackendError err)) \<and> ms' = ms \<and> hs' = hs \<and> dh_network (hs ! h) \<notin> nets V d'"
proof -
  have q: "quiet_ops de V" and rm: "removals (de_client de) V" using laws by (simp_all add: daemon_laws_def)
  let ?d0 = "destroy_each (de_client de) (dh_containers (hs ! h)) d"
  obtain y d1 where n: "dc_NetworkRemove (de_client de) (dh_network (hs ! h)) ?d0 = (y, d1)" by fastforce
  have "dh_network (hs ! h) \<notin> nets V ?d0" using destroy_each_resources [OF q rm ok] gone by simp
  then obtain err where y: "y = Some err" using miss n unfolding missing_networks_fail_def by (metis fst_conv option.exhaust)
  then have "docker_Destroy (de_client de) (hs ! h) d = (Some err, d1)" using n by (simp add: docker_Destroy_def)
  then have "r = Return (Some (BackendError err)) \<and> ms' = ms \<and> hs' = hs \<and> d' = d1"
    using run h by (simp add: Delete_def docker_h_Destroy)
  moreover have "nets V d1 = nets V d" using removed_network [OF rm n] y destroy_each_resources [OF q rm ok] by simp
  ultimately show ?thesis using gone by simp
qed

text \<open>A deletion that fails behind its backend has removed the network already.\<close>

lemma half_deletion:
  assumes "daemon_laws de V" "containers_removable (de_client de)" "process_quiet pr de V"
    and "functionHandlers ms name = Some h" "h < length hs"
    and "Delete (docker_node de ident) name (ms, hs, d) = (Return (Some err), ms', hs', d')"
    and "\<forall>m. err \<noteq> BackendError m"
  shows "ms' = ms \<and> hs' = hs \<and> dh_network (hs ! h) \<notin> nets V d'"
proof -
  obtain x d1 where d: "docker_Destroy (de_client de) (hs ! h) d = (x, d1)" "hs' = hs" "same V d1 d'"
      "x \<noteq> None \<Longrightarrow> Return (Some err) = Return (Some (BackendError (the x)))"
    using docker_Delete_any [OF assms(1-6)] by metis
  have "x = None" using d(4) assms(7) by (cases x) auto
  moreover obtain y d2 where "y \<noteq> None \<longrightarrow> x = y"
    "nets V d1 = (if y = None then nets V d - {dh_network (hs ! h)} else nets V d)"
    using docker_Destroy_any [OF assms(1,2) d(1)] by metis
  ultimately have "dh_network (hs ! h) \<notin> nets V d1" by auto
  then show ?thesis using d(2,3) Delete_table [OF assms(6)] by (simp add: same_def)
qed

lemma retried_deletions_fail:
  assumes "daemon_laws de V" "containers_removable (de_client de)" "process_quiet pr de V"
    and "missing_networks_fail (de_client de) V"
    and "functionHandlers ms name = Some h" "h < length hs"
  shows "dh_network (hs ! h) \<notin> nets V d \<Longrightarrow>
    \<exists>d'. wipe_each (docker_node de ident) (replicate n name) (ms, hs, d) = (Return None, ms, hs, d') \<and>
      dh_network (hs ! h) \<notin> nets V d'"
proof (induction n arbitrary: d)
  case 0
  then show ?case by simp
next
  case (Suc n)
  obtain r ms1 hs1 d1 where del: "Delete (docker_node de ident) name (ms, hs, d) = (r, ms1, hs1, d1)"
    using prod_cases4 by blast
  from Delete_without_network [OF assms Suc.prems del] Suc.IH [of d1] del assms(5) show ?case by auto
qed

end
