(* ===== verification/Coap_Grpc.thy ===== *)
theory Coap_Grpc
  imports Http_Front
begin

text \<open>
  \<^verbatim>\<open>pkg/coap/coap.go\<close> and \<^verbatim>\<open>pkg/grpc/grpc.go\<close>: the two front ends of the reverse proxy that
  do not schedule. They call the function on the node they run on and translate the status
  of the call.
\<close>

section \<open>CoAP\<close>

definition coap_async :: bool where "coap_async = False"

text \<open>The message types of the CoAP library, as far as the handler reads and writes them.\<close>

record coap_message =
  MessageID :: int
  Token :: string
  PathString :: string
  Payload :: string

datatype coap_code = Content | Created | CoapNotFound | CoapInternalServerError

record coap_reply =
  cr_MessageID :: int
  cr_Token :: string
  cr_Code :: coap_code
  cr_TextPlain :: bool
  cr_Payload :: string

definition coap_handler ::
  "'w ext \<Rightarrow> nat \<Rightarrow> coap_message \<Rightarrow> rproxy \<times> 'w \<Rightarrow> coap_reply call \<times> rproxy \<times> 'w" where
  "coap_handler e rnd m rw =
     (let p = strip_slashes (PathString m)
      in case Call e rnd [] p (Payload m) coap_async Map.empty rw of
           (Panic x, rw1) \<Rightarrow> (Panic x, rw1)
         | (Return (s, res), rw1) \<Rightarrow>
             (let mes = \<lparr>cr_MessageID = MessageID m, cr_Token = Token m, cr_Code = Content,
                         cr_TextPlain = False, cr_Payload = []\<rparr>
              in (Return (case s of
                    StatusOK \<Rightarrow> mes\<lparr>cr_TextPlain := True, cr_Code := Content, cr_Payload := res\<rparr>
                  | StatusAccepted \<Rightarrow> mes\<lparr>cr_Code := Created\<rparr>
                  | StatusNotFound \<Rightarrow> mes\<lparr>cr_Code := CoapNotFound\<rparr>
                  | StatusError \<Rightarrow> mes\<lparr>cr_Code := CoapInternalServerError\<rparr>), rw1)))"

section \<open>gRPC\<close>

text \<open>
  \<open>md\<close> is the metadata of the context, when there is any, and \<open>mo\<close> the order in which the
  range loop meets it; a key without values is skipped.
\<close>

fun metadata_headers :: "(string \<times> string list) list \<Rightarrow> (string \<rightharpoonup> string) \<Rightarrow> (string \<rightharpoonup> string)" where
  "metadata_headers [] h = h"
| "metadata_headers ((k, v) # kvs) h =
     metadata_headers kvs (case v of [] \<Rightarrow> h | x # _ \<Rightarrow> h(k \<mapsto> x))"

datatype grpc_error = GrpcNotFound string | GrpcCallFailed string

record grpc_data =
  FunctionIdentifier :: string
  GrpcData :: string

definition grpc_Request ::
  "'w ext \<Rightarrow> nat \<Rightarrow> string list \<Rightarrow> string list \<Rightarrow> (string \<rightharpoonup> string list) option \<Rightarrow> grpc_data \<Rightarrow> rproxy \<times> 'w \<Rightarrow>
   (grpc_error + string) call \<times> rproxy \<times> 'w" where
  "grpc_Request e rnd mo ho md d rw =
     (let headers = (case md of None \<Rightarrow> Map.empty | Some m \<Rightarrow> metadata_headers (range_items m mo) Map.empty)
      in case Call e rnd ho (FunctionIdentifier d) (GrpcData d) False headers rw of
           (Panic x, rw1) \<Rightarrow> (Panic x, rw1)
         | (Return (s, res), rw1) \<Rightarrow>
             (Return (case s of
                StatusOK \<Rightarrow> Inr res
              | StatusAccepted \<Rightarrow> Inr []
              | StatusNotFound \<Rightarrow> Inl (GrpcNotFound (FunctionIdentifier d))
              | StatusError \<Rightarrow> Inl (GrpcCallFailed (FunctionIdentifier d))), rw1))"

section \<open>The front ends agree\<close>

text \<open>What one status is in the three protocols.\<close>

definition same_answer :: "string \<Rightarrow> coap_reply \<Rightarrow> grpc_error + string \<Rightarrow> http_response \<Rightarrow> bool" where
  "same_answer name cr gr hr \<longleftrightarrow>
     (\<exists>b. cr_Code cr = Content \<and> cr_Payload cr = b \<and> gr = Inr b \<and> Code hr = HTTP_OK \<and> RespBody hr = b) \<or>
     (cr_Code cr = CoapNotFound \<and> gr = Inl (GrpcNotFound name) \<and> Code hr = HTTP_NotFound) \<or>
     (cr_Code cr = CoapInternalServerError \<and> gr = Inl (GrpcCallFailed name) \<and> Code hr = HTTP_InternalServerError)"

lemma Call_sync:
  assumes "Call e rnd ho name b False h rw = (Return (st, res), rw')"
  shows "st \<noteq> StatusAccepted"
  using assms
  by (cases rw) (auto simp: Call_def Let_def split: option.splits if_splits prod.splits sum.splits)

lemma fronts_call:
  assumes c: "Call e rnd [] name b False Map.empty (r, w) = (Return (st, res), r', w')"
    and m: "strip_slashes (PathString m) = name" "Payload m = b"
    and d: "FunctionIdentifier d = name" "GrpcData d = b"
    and ch: "ch_random c = rnd" "ch_out c = []"
  shows "\<exists>cr gr hr reg'. coap_handler e rnd m (r, w) = (Return cr, r', w') \<and>
    grpc_Request e rnd [] [] None d (r, w) = (Return gr, r', w') \<and>
    serve_local e c n name b False Map.empty (r, reg, w) = (Return hr, r', reg', w') \<and>
    same_answer name cr gr hr"
  using assms Call_sync [OF c]
  by (cases st) (simp_all add: coap_handler_def coap_async_def grpc_Request_def serve_local_def same_answer_def)

lemma fronts_agree:
  assumes "hosts_ok r" and "strip_slashes (PathString m) = FunctionIdentifier d" and "Payload m = GrpcData d"
    and "ch_random c = rnd" and "ch_out c = []"
  shows "\<exists>cr gr hr r' reg' w'. coap_handler e rnd m (r, w) = (Return cr, r', w') \<and>
    grpc_Request e rnd [] [] None d (r, w) = (Return gr, r', w') \<and>
    serve_local e c n (FunctionIdentifier d) (GrpcData d) False Map.empty (r, reg, w) = (Return hr, r', reg', w') \<and>
    same_answer (FunctionIdentifier d) cr gr hr"
proof -
  have "returns (fst (Call e rnd [] (FunctionIdentifier d) (GrpcData d) False Map.empty (r, w)))"
    by (rule Call_returns [OF assms(1)])
  then obtain st res r' w' where
    "Call e rnd [] (FunctionIdentifier d) (GrpcData d) False Map.empty (r, w) = (Return (st, res), r', w')"
    by (metis call.exhaust prod.collapse returns.simps(2))
  from fronts_call [OF this assms(2,3) refl refl assms(4,5)] show ?thesis by blast
qed

end
