(* ===== verification/Go_Float.thy ===== *)
theory Go_Float
  imports Complex_Main Go_Std
begin

text \<open>
  Signed doubles and the string functions the wiring check of \<^verbatim>\<open>cmd/verify-wiring/main.go\<close> uses beside those of \<open>Go_Std\<close>. A finite double \<open>(m, e)\<close> stands for
  \<open>m * 2 ^ e\<close>; the values met here are milliwatts of 32 bits divided by a thousand and
  their differences, far from the exponent limits.
\<close>

section \<open>Doubles\<close>

type_synonym double = "int \<times> int"

definition signed_double :: "int \<Rightarrow> int \<Rightarrow> double" where
  "signed_double n d =
     (if n < 0 then (case to_double (- n) d of (m, e) \<Rightarrow> (- m, e)) else to_double n d)"

definition aligned :: "double \<Rightarrow> double \<Rightarrow> int \<times> int \<times> int" where
  "aligned a b =
     (case a of (m1, e1) \<Rightarrow> case b of (m2, e2) \<Rightarrow>
        let e = min e1 e2 in (m1 * 2 ^ nat (e1 - e), m2 * 2 ^ nat (e2 - e), e))"

definition double_sub :: "double \<Rightarrow> double \<Rightarrow> double" where
  "double_sub a b =
     (case aligned a b of (x, y, e) \<Rightarrow>
        if 0 \<le> e then signed_double ((x - y) * 2 ^ nat e) 1 else signed_double (x - y) (2 ^ nat (- e)))"

definition double_less :: "double \<Rightarrow> double \<Rightarrow> bool" where
  "double_less a b = (case aligned a b of (x, y, e) \<Rightarrow> x < y)"

text \<open>The order is that of the values.\<close>

definition value_of :: "double \<Rightarrow> rat" where
  "value_of a = of_int (fst a) * 2 powi (snd a)"

lemma aligned_value:
  assumes "aligned a b = (x, y, e)"
  shows "value_of a = of_int x * 2 powi e" "value_of b = of_int y * 2 powi e"
proof -
  obtain m1 e1 m2 e2 where ab: "a = (m1, e1)" "b = (m2, e2)" by (cases a; cases b) simp
  have shift: "2 powi f = (2 ^ nat (f - e) :: rat) * 2 powi e" if "e \<le> f" for f :: int
  proof -
    have "(2 :: rat) powi f = 2 powi (f - e) * 2 powi e" by (simp flip: power_int_add)
    then show ?thesis using that by (simp add: power_int_def)
  qed
  have e: "e = min e1 e2" "x = m1 * 2 ^ nat (e1 - e)" "y = m2 * 2 ^ nat (e2 - e)"
    using assms by (auto simp: aligned_def ab Let_def)
  show "value_of a = of_int x * 2 powi e" "value_of b = of_int y * 2 powi e"
    using shift [of e1] shift [of e2] e by (simp_all add: value_of_def ab)
qed

lemma double_less_value: "double_less a b \<longleftrightarrow> value_of a < value_of b"
proof -
  obtain x y e where a: "aligned a b = (x, y, e)" by (cases "aligned a b")
  have "(0 :: rat) < 2 powi e" by (simp add: zero_less_power_int)
  then show ?thesis using aligned_value [OF a] by (simp add: double_less_def a)
qed

section \<open>Strings\<close>

text \<open>
  \<open>strings.TrimSpace\<close> cuts off what \<open>unicode.IsSpace\<close> accepts, given here as the UTF-8
  bytes of those characters.
\<close>

definition space_seqs :: "string list" where
  "space_seqs =
     [[CHR 0x09], [CHR 0x0A], [CHR 0x0B], [CHR 0x0C], [CHR 0x0D], [CHR 0x20],
      [CHR 0xC2, CHR 0x85], [CHR 0xC2, CHR 0xA0], [CHR 0xE1, CHR 0x9A, CHR 0x80],
      [CHR 0xE2, CHR 0x80, CHR 0x80], [CHR 0xE2, CHR 0x80, CHR 0x81], [CHR 0xE2, CHR 0x80, CHR 0x82],
      [CHR 0xE2, CHR 0x80, CHR 0x83], [CHR 0xE2, CHR 0x80, CHR 0x84], [CHR 0xE2, CHR 0x80, CHR 0x85],
      [CHR 0xE2, CHR 0x80, CHR 0x86], [CHR 0xE2, CHR 0x80, CHR 0x87], [CHR 0xE2, CHR 0x80, CHR 0x88],
      [CHR 0xE2, CHR 0x80, CHR 0x89], [CHR 0xE2, CHR 0x80, CHR 0x8A], [CHR 0xE2, CHR 0x80, CHR 0xA8],
      [CHR 0xE2, CHR 0x80, CHR 0xA9], [CHR 0xE2, CHR 0x80, CHR 0xAF], [CHR 0xE2, CHR 0x81, CHR 0x9F],
      [CHR 0xE3, CHR 0x80, CHR 0x80]]"

definition starts_with :: "string \<Rightarrow> string \<Rightarrow> bool" where
  "starts_with p s \<longleftrightarrow> p \<noteq> [] \<and> take (length p) s = p"

lemma starts_with_shorter: "starts_with p s \<Longrightarrow> length (drop (length p) s) < length s"
  by (cases s) (auto simp: starts_with_def)

function trim_front :: "string list \<Rightarrow> string \<Rightarrow> string" where
  "trim_front ps s =
     (case find (\<lambda>p. starts_with p s) ps of
        None \<Rightarrow> s | Some p \<Rightarrow> trim_front ps (drop (length p) s))"
  by pat_completeness auto
termination
proof (relation "measure (\<lambda>(ps, s). length s)", simp, goal_cases)
  case (1 ps s p)
  then have "starts_with p s" by (auto simp: find_Some_iff)
  then show ?case using starts_with_shorter by auto
qed

declare trim_front.simps [simp del]

definition TrimSpace :: "string \<Rightarrow> string" where
  "TrimSpace s = rev (trim_front (map rev space_seqs) (rev (trim_front space_seqs s)))"

text \<open>\<open>strings.Split\<close> at a one-byte separator.\<close>

fun Split :: "char \<Rightarrow> string \<Rightarrow> string list" where
  "Split sep [] = [[]]"
| "Split sep (c # cs) =
     (if c = sep then [] # Split sep cs
      else case Split sep cs of [] \<Rightarrow> [[c]] | x # xs \<Rightarrow> (c # x) # xs)"

lemma Split_nonempty: "Split sep s \<noteq> []"
  by (cases s) (auto split: list.splits)

lemma Split_plain: "sep \<notin> set a \<Longrightarrow> Split sep a = [a]"
  by (induction a) auto

lemma Split_join: "sep \<notin> set a \<Longrightarrow> Split sep (a @ sep # s) = a # Split sep s"
  by (induction a) (auto split: list.splits simp: Split_nonempty)

end
