(* ===== verification/Wiring.thy ===== *)
theory Wiring
  imports Go_Float Registry "HOL-Library.List_Lexorder" "HOL-Library.Char_ord"
begin

text \<open>
  \<^verbatim>\<open>cmd/verify-wiring/main.go\<close>: the tool that powers each worker on by itself and checks that
  the expected address answers and the expected energy bricklet sees the rise. The world is
  the record \<open>wiring\<close>: HTTP and the clock, the relays, and the power bricklets.
\<close>

section \<open>Configuration\<close>

definition onThresholdW :: double where "onThresholdW = to_double 1 2"
definition settleAfterOff :: duration where "settleAfterOff = 8 * Second"
definition bootTimeout :: duration where "bootTimeout = 90 * Second"
definition pollInterval :: duration where "pollInterval = 2 * Second"

definition getenv_or :: "environment \<Rightarrow> string \<Rightarrow> string \<Rightarrow> string" where
  "getenv_or getenv k fb = (let v = getenv k in if v \<noteq> [] then v else fb)"

datatype bricklet_error = NotSet | Malformed string

fun parse_pairs :: "string list \<Rightarrow> (string \<rightharpoonup> string) \<Rightarrow> bricklet_error + (string \<rightharpoonup> string)" where
  "parse_pairs [] out = Inr out"
| "parse_pairs (pair # ps) out =
     (case Cut (CHR ''='') (TrimSpace pair) of (name, uid, ok) \<Rightarrow>
        if \<not> ok then Inl (Malformed pair)
        else parse_pairs ps (out(TrimSpace name \<mapsto> TrimSpace uid)))"

definition parseBricklets :: "string \<Rightarrow> bricklet_error + (string \<rightharpoonup> string)" where
  "parseBricklets spec =
     (if TrimSpace spec = [] then Inl NotSet else parse_pairs (Split (CHR '','') spec) Map.empty)"

section \<open>The world\<close>

text \<open>
  \<open>wr_power\<close> is \<open>GetPower\<close> of the bricklet of a node, in milliwatts; \<open>wr_order\<close> is the order
  in which a range loop meets the readings.
\<close>

record 'w wiring =
  wr_ext :: "'w ext"
  wr_connect :: "string \<Rightarrow> 'w \<Rightarrow> string option \<times> 'w"
  wr_relay :: "'w relay_hw"
  wr_bricklet :: "string \<Rightarrow> 'w \<Rightarrow> string option \<times> 'w"
  wr_power :: "string \<Rightarrow> 'w \<Rightarrow> int option \<times> 'w"
  wr_order :: "(string \<rightharpoonup> double) \<Rightarrow> string list"

section \<open>Relays and readings\<close>

datatype switch_error = OpenRelay string string | ReadRelay string string | BadChannel int | SetRelay string

text \<open>
  Unlike the relay controller, this one reads the position it writes back, and it takes the
  name of the relay as it is written in the node.
\<close>

definition setRelay :: "'w wiring \<Rightarrow> string \<Rightarrow> int \<Rightarrow> bool \<Rightarrow> 'w \<Rightarrow> switch_error option \<times> 'w" where
  "setRelay wr uid ch on w =
     (case hw_open (wr_relay wr) uid w of
        (Some e, w1) \<Rightarrow> (Some (OpenRelay uid e), w1)
      | (None, w1) \<Rightarrow>
          (case hw_get (wr_relay wr) uid w1 of
             (Inl e, w2) \<Rightarrow> (Some (ReadRelay uid e), w2)
           | (Inr (c0, c1), w2) \<Rightarrow>
               if ch \<noteq> 0 \<and> ch \<noteq> 1 then (Some (BadChannel ch), w2)
               else let (d0, d1) = (if ch = 0 then (on, c1) else (c0, on))
                    in case hw_set (wr_relay wr) uid d0 d1 w2 of
                         (Some e, w3) \<Rightarrow> (Some (SetRelay e), w3) | (None, w3) \<Rightarrow> (None, w3)))"

definition watts :: "int \<Rightarrow> double" where
  "watts mw = signed_double mw 1000"

fun readAll :: "'w wiring \<Rightarrow> string list \<Rightarrow> (string \<rightharpoonup> double) \<Rightarrow> 'w \<Rightarrow> (string \<rightharpoonup> double) \<times> 'w" where
  "readAll wr [] out w = (out, w)"
| "readAll wr (n # ns) out w =
     (case wr_power wr n w of
        (None, w1) \<Rightarrow> readAll wr ns out w1
      | (Some mw, w1) \<Rightarrow> readAll wr ns (out(n \<mapsto> watts mw)) w1)"

definition rise :: "(string \<rightharpoonup> double) \<Rightarrow> string \<Rightarrow> double \<Rightarrow> double" where
  "rise before n a = double_sub a (case before n of None \<Rightarrow> (0, 0) | Some b \<Rightarrow> b)"

fun rose_each :: "(string \<rightharpoonup> double) \<Rightarrow> (string \<times> double) list \<Rightarrow> string \<times> double \<Rightarrow> string \<times> double" where
  "rose_each before [] best = best"
| "rose_each before ((n, a) # xs) best =
     rose_each before xs (if double_less (snd best) (rise before n a) then (n, rise before n a) else best)"

definition roseAbove ::
  "(string \<rightharpoonup> double) \<Rightarrow> (string \<rightharpoonup> double) \<Rightarrow> string list \<Rightarrow> double \<Rightarrow> string" where
  "roseAbove before after ks threshold =
     (case rose_each before (range_items after ks) ([], (0, 0)) of
        (best, bestDelta) \<Rightarrow> if \<not> double_less bestDelta threshold then best else [])"

definition wiring_healthy :: "'w ext \<Rightarrow> string \<Rightarrow> 'w \<Rightarrow> bool \<times> 'w" where
  "wiring_healthy e managerAddr w =
     (case HttpGet e (''http://'' @ managerAddr @ ''/health'') w of
        (Inl _, w1) \<Rightarrow> (False, w1) | (Inr (code, _), w1) \<Rightarrow> (code = HTTP_OK, w1))"

section \<open>One worker\<close>

record wiring_result =
  wres_node :: string
  poweredOK :: bool
  sawBricklet :: string
  brickletOK :: bool
  addressOK :: bool
  wres_note :: "switch_error option"

definition new_result :: "string \<Rightarrow> wiring_result" where
  "new_result n = \<lparr>wres_node = n, poweredOK = False, sawBricklet = [], brickletOK = False,
     addressOK = False, wres_note = None\<rparr>"

text \<open>The body of the polling loop after its sleep; \<open>ks\<close> are the nodes that have a bricklet.\<close>

definition check_address :: "'w wiring \<Rightarrow> node \<Rightarrow> wiring_result \<Rightarrow> 'w \<Rightarrow> wiring_result \<times> 'w" where
  "check_address wr n res w =
     (if addressOK res then (res, w)
      else case wiring_healthy (wr_ext wr) (ManagerAddress n) w of
        (b, w1) \<Rightarrow> (if b then res\<lparr>addressOK := True\<rparr> else res, w1))"

definition check_bricklet ::
  "'w wiring \<Rightarrow> string list \<Rightarrow> (string \<rightharpoonup> double) \<Rightarrow> node \<Rightarrow> wiring_result \<Rightarrow> 'w \<Rightarrow> wiring_result \<times> 'w" where
  "check_bricklet wr ks before n res w =
     (if sawBricklet res \<noteq> [] \<or> ks = [] then (res, w)
      else case readAll wr ks Map.empty w of (after, w1) \<Rightarrow>
        let saw = roseAbove before after (wr_order wr after) onThresholdW
        in (if saw \<noteq> [] then res\<lparr>sawBricklet := saw, brickletOK := (saw = ID n)\<rparr> else res, w1))"

definition all_seen :: "string list \<Rightarrow> wiring_result \<Rightarrow> bool" where
  "all_seen ks res \<longleftrightarrow> addressOK res \<and> (ks = [] \<or> sawBricklet res \<noteq> [])"

text \<open>The loop may run for ever when the clock stands still, which is the value \<open>None\<close>.\<close>

partial_function (option) poll_worker ::
  "'w wiring \<Rightarrow> string list \<Rightarrow> (string \<rightharpoonup> double) \<Rightarrow> node \<Rightarrow> time \<Rightarrow> wiring_result \<Rightarrow> 'w \<Rightarrow> (wiring_result \<times> 'w) option" where
  "poll_worker wr ks before n deadline res w =
     (if Now (wr_ext wr) w < deadline then
        (case check_address wr n res (Sleep (wr_ext wr) pollInterval w) of (res1, w1) \<Rightarrow>
           case check_bricklet wr ks before n res1 w1 of (res2, w2) \<Rightarrow>
             if all_seen ks res2 then Some (res2, w2) else poll_worker wr ks before n deadline res2 w2)
      else Some (res, w))"

declare poll_worker.simps [code]

definition verifyWorker ::
  "'w wiring \<Rightarrow> string list \<Rightarrow> node \<Rightarrow> 'w \<Rightarrow> (wiring_result \<times> 'w) option" where
  "verifyWorker wr ks n w =
     (case readAll wr ks Map.empty w of (before, w1) \<Rightarrow>
      case setRelay wr (RelayUID n) (Channel n) True w1 of
        (Some err, w2) \<Rightarrow> Some ((new_result (ID n))\<lparr>wres_note := Some err\<rparr>, w2)
      | (None, w2) \<Rightarrow>
          (case poll_worker wr ks before n (Now (wr_ext wr) w2 + bootTimeout)
                  ((new_result (ID n))\<lparr>poweredOK := True\<rparr>) w2 of
             None \<Rightarrow> None
           | Some (res, w3) \<Rightarrow>
               (case setRelay wr (RelayUID n) (Channel n) False w3 of
                  (_, w4) \<Rightarrow> Some (res, Sleep (wr_ext wr) settleAfterOff w4))))"

section \<open>The report\<close>

datatype verdict =
    Fine
  | CouldNotPowerOn "switch_error option"
  | WrongAddress
  | NoBricklet
  | BrickletMismatch string

definition verdict_of :: "bool \<Rightarrow> wiring_result \<Rightarrow> verdict" where
  "verdict_of energyChecked r =
     (if \<not> poweredOK r then CouldNotPowerOn (wres_note r)
      else if \<not> addressOK r then WrongAddress
      else if energyChecked \<and> sawBricklet r = [] then NoBricklet
      else if energyChecked \<and> \<not> brickletOK r then BrickletMismatch (sawBricklet r)
      else Fine)"

fun count_problems :: "bool \<Rightarrow> wiring_result list \<Rightarrow> nat" where
  "count_problems ec [] = 0"
| "count_problems ec (r # rs) = (if verdict_of ec r \<noteq> Fine then 1 else 0) + count_problems ec rs"

text \<open>The exit code of the report.\<close>

definition report :: "wiring_result list \<Rightarrow> bool \<Rightarrow> int" where
  "report results energyChecked = (if count_problems energyChecked results = 0 then 0 else 1)"

section \<open>The whole run\<close>

datatype wiring_fatal =
    NodeConfig load_error
  | ConnectRelay string
  | OpenBricklet string string
  | PowerOffFailed string switch_error

fun open_bricklets :: "'w wiring \<Rightarrow> (string \<times> string) list \<Rightarrow> 'w \<Rightarrow> wiring_fatal option \<times> 'w" where
  "open_bricklets wr [] w = (None, w)"
| "open_bricklets wr ((n, uid) # xs) w =
     (case wr_bricklet wr uid w of
        (Some e, w1) \<Rightarrow> (Some (OpenBricklet n uid), w1) | (None, w1) \<Rightarrow> open_bricklets wr xs w1)"

text \<open>The nodes whose energy is checked, in the order \<open>bo\<close> of the range loop.\<close>

definition connect_energy ::
  "'w wiring \<Rightarrow> environment \<Rightarrow> string list \<Rightarrow> (string \<rightharpoonup> string) \<Rightarrow> 'w \<Rightarrow> (wiring_fatal + string list) \<times> 'w" where
  "connect_energy wr getenv bo bricklets w =
     (if range_items bricklets bo = [] then (Inr [], w)
      else case wr_connect wr (getenv_or getenv ''ENERGY_ADDR'' ''localhost:4223'') w of
        (Some _, w1) \<Rightarrow> (Inr [], w1)
      | (None, w1) \<Rightarrow>
          (case open_bricklets wr (range_items bricklets bo) w1 of
             (Some err, w2) \<Rightarrow> (Inl err, w2)
           | (None, w2) \<Rightarrow> (Inr (map fst (range_items bricklets bo)), w2)))"

fun all_off_or_fatal :: "'w wiring \<Rightarrow> node list \<Rightarrow> 'w \<Rightarrow> wiring_fatal option \<times> 'w" where
  "all_off_or_fatal wr [] w = (None, w)"
| "all_off_or_fatal wr (n # ns) w =
     (case setRelay wr (RelayUID n) (Channel n) False w of
        (Some err, w1) \<Rightarrow> (Some (PowerOffFailed (ID n) err), w1)
      | (None, w1) \<Rightarrow> all_off_or_fatal wr ns w1)"

fun verify_each ::
  "'w wiring \<Rightarrow> string list \<Rightarrow> node list \<Rightarrow> wiring_result list \<Rightarrow> 'w \<Rightarrow> (wiring_result list \<times> 'w) option" where
  "verify_each wr ks [] results w = Some (results, w)"
| "verify_each wr ks (n # ns) results w =
     (case verifyWorker wr ks n w of
        None \<Rightarrow> None | Some (res, w1) \<Rightarrow> verify_each wr ks ns (results @ [res]) w1)"

fun all_off :: "'w wiring \<Rightarrow> node list \<Rightarrow> 'w \<Rightarrow> 'w" where
  "all_off wr [] w = w"
| "all_off wr (n # ns) w = all_off wr ns (snd (setRelay wr (RelayUID n) (Channel n) False w))"

definition sorted_workers :: "node list \<Rightarrow> node list" where
  "sorted_workers ns = sort_key ID (filter (\<lambda>n. \<not> Local n) ns)"

definition verify_wiring ::
  "'w wiring \<Rightarrow> environment \<Rightarrow> (string \<Rightarrow> string + string) \<Rightarrow> (string \<Rightarrow> string + node list) \<Rightarrow> string list \<Rightarrow>
   'w \<Rightarrow> ((wiring_fatal + int \<times> wiring_result list) \<times> 'w) option" where
  "verify_wiring wr getenv readFile unmarshal bo w =
     (case LoadNodes (readFile (getenv_or getenv ''NODES_CONFIG'' ''deploy/nodes.json'')) unmarshal of
        Inl err \<Rightarrow> Some (Inl (NodeConfig err), w)
      | Inr ns \<Rightarrow>
        let bricklets = (case parseBricklets (getenv ''ENERGY_NODES'') of Inl _ \<Rightarrow> Map.empty | Inr m \<Rightarrow> m)
        in case wr_connect wr (getenv_or getenv ''RELAY_ADDR'' ''localhost:4223'') w of
          (Some err, w1) \<Rightarrow> Some (Inl (ConnectRelay err), w1)
        | (None, w1) \<Rightarrow>
          (case connect_energy wr getenv bo bricklets w1 of
            (Inl err, w2) \<Rightarrow> Some (Inl err, w2)
          | (Inr ks, w2) \<Rightarrow>
            let workers = sorted_workers ns
            in case all_off_or_fatal wr workers w2 of
              (Some err, w3) \<Rightarrow> Some (Inl err, w3)
            | (None, w3) \<Rightarrow>
              (case verify_each wr ks workers [] (Sleep (wr_ext wr) settleAfterOff w3) of
                 None \<Rightarrow> None
               | Some (results, w4) \<Rightarrow>
                   Some (Inr (report results (ks \<noteq> []), results), all_off wr workers w4))))"

end
