(* ===== verification/Wiring_Facts.thy ===== *)
theory Wiring_Facts
  imports Wiring
begin

text \<open>
  What the check of \<^verbatim>\<open>cmd/verify-wiring/main.go\<close> shows: the bricklet it blames rose most, its loop ends, a clean report means
  agreement, and it leaves every worker off.
\<close>

section \<open>The bricklet that rose\<close>

lemma rose_each_best:
  assumes "rose_each before xs best = (b, d)"
  shows "value_of (snd best) \<le> value_of d \<and>
    ((b, d) = best \<or> (\<exists>a. (b, a) \<in> set xs \<and> d = rise before b a)) \<and>
    (\<forall>(n, a) \<in> set xs. value_of (rise before n a) \<le> value_of d)"
  using assms
proof (induction xs arbitrary: best)
  case Nil
  then show ?case by simp
next
  case (Cons x xs)
  obtain n a where x: "x = (n, a)" by (metis surj_pair)
  let ?best = "if double_less (snd best) (rise before n a) then (n, rise before n a) else best"
  have "rose_each before xs ?best = (b, d)" using Cons.prems by (simp add: x)
  note IH = Cons.IH [OF this]
  have "value_of (snd best) \<le> value_of (snd ?best)" "value_of (rise before n a) \<le> value_of (snd ?best)"
    by (simp_all add: double_less_value)
  then show ?case using IH by (cases a) (auto simp: x split: if_splits)
qed

lemma roseAbove_best:
  assumes ks: "range_order after ks" and r: "roseAbove before after ks thr = r" "r \<noteq> []"
  shows "\<exists>a. after r = Some a \<and> \<not> double_less (rise before r a) thr \<and>
    (\<forall>n b. after n = Some b \<longrightarrow> \<not> double_less (rise before r a) (rise before n b))"
proof -
  obtain b d where e: "rose_each before (range_items after ks) ([], (0, 0)) = (b, d)" by (metis surj_pair)
  have b: "b = r" and d: "\<not> double_less d thr" using r e by (auto simp: roseAbove_def split: if_splits)
  from rose_each_best [OF e] b r(2) obtain a where a: "(r, a) \<in> set (range_items after ks)" "d = rise before r a"
    and max: "\<forall>(n, a) \<in> set (range_items after ks). value_of (rise before n a) \<le> value_of d" by auto
  have "\<not> double_less d (rise before n b')" if "after n = Some b'" for n b'
  proof -
    have "(n, b') \<in> set (range_items after ks)"
      using that ks by (auto simp: set_range_items range_order_def)
    then show ?thesis using max by (auto simp: double_less_value)
  qed
  then show ?thesis using a d by (auto simp: set_range_items)
qed

lemma roseAbove_found:
  assumes ks: "range_order after ks" and "after n = Some a" "\<not> double_less (rise before n a) thr"
    and "after [] = None" and pos: "double_less (0, 0) thr"
  shows "roseAbove before after ks thr \<noteq> []"
proof -
  obtain b d where e: "rose_each before (range_items after ks) ([], (0, 0)) = (b, d)" by (metis surj_pair)
  note best = rose_each_best [OF e]
  have "(n, a) \<in> set (range_items after ks)"
    using assms(2) ks by (auto simp: set_range_items range_order_def)
  then have "value_of (rise before n a) \<le> value_of d" using best by auto
  then have d: "\<not> double_less d thr" using assms(3) by (simp add: double_less_value)
  then have "(b, d) \<noteq> ([], (0, 0))" using pos by auto
  then obtain a' where "(b, a') \<in> set (range_items after ks)" using best by auto
  then have "b \<noteq> []" using assms(4) by (auto simp: set_range_items)
  then show ?thesis using e d by (simp add: roseAbove_def)
qed

section \<open>The loop ends\<close>

definition clock_advances :: "'w wiring \<Rightarrow> bool" where
  "clock_advances wr \<longleftrightarrow>
     (\<forall>t w. Now (wr_ext wr) w + t \<le> Now (wr_ext wr) (Sleep (wr_ext wr) t w)) \<and>
     (\<forall>u w. Now (wr_ext wr) w \<le> Now (wr_ext wr) (snd (HttpGet (wr_ext wr) u w))) \<and>
     (\<forall>n w. Now (wr_ext wr) w \<le> Now (wr_ext wr) (snd (wr_power wr n w)))"

lemma readAll_clock:
  assumes c: "clock_advances wr"
  shows "readAll wr ks out w = (m, w') \<Longrightarrow> Now (wr_ext wr) w \<le> Now (wr_ext wr) w'"
proof (induction ks arbitrary: out w)
  case Nil
  then show ?case by simp
next
  case (Cons k ks)
  obtain x w1 where p: "wr_power wr k w = (x, w1)" by fastforce
  have "Now (wr_ext wr) w \<le> Now (wr_ext wr) w1"
    using c p unfolding clock_advances_def by (metis snd_conv)
  moreover have "Now (wr_ext wr) w1 \<le> Now (wr_ext wr) w'"
    using Cons p by (cases x) auto
  ultimately show ?case by simp
qed

lemma check_address_clock:
  assumes c: "clock_advances wr" and "check_address wr n res w = (res', w')"
  shows "Now (wr_ext wr) w \<le> Now (wr_ext wr) w'"
proof -
  obtain r w1 where g: "HttpGet (wr_ext wr) (''http://'' @ ManagerAddress n @ ''/health'') w = (r, w1)" by fastforce
  have "Now (wr_ext wr) w \<le> Now (wr_ext wr) w1"
    using c g unfolding clock_advances_def by (metis snd_conv)
  then show ?thesis
    using assms(2) g by (auto simp: check_address_def wiring_healthy_def split: if_splits sum.splits)
qed

lemma check_bricklet_clock:
  assumes c: "clock_advances wr" and "check_bricklet wr ks before n res w = (res', w')"
  shows "Now (wr_ext wr) w \<le> Now (wr_ext wr) w'"
  using assms(2) readAll_clock [OF c]
  by (auto simp: check_bricklet_def Let_def split: if_splits prod.splits)

lemma poll_worker_returns:
  assumes c: "clock_advances wr"
  shows "\<exists>r. poll_worker wr ks before n deadline res w = Some r"
proof (induction "nat (deadline - Now (wr_ext wr) w)" arbitrary: res w rule: less_induct)
  case less
  let ?e = "wr_ext wr"
  show ?case
  proof (cases "Now ?e w < deadline")
    case False
    then show ?thesis by (simp add: poll_worker.simps)
  next
    case True
    obtain res1 w1 where a: "check_address wr n res (Sleep ?e pollInterval w) = (res1, w1)" by fastforce
    obtain res2 w2 where b: "check_bricklet wr ks before n res1 w1 = (res2, w2)" by fastforce
    have "Now ?e w + pollInterval \<le> Now ?e (Sleep ?e pollInterval w)"
      using c by (simp add: clock_advances_def)
    then have "Now ?e w < Now ?e w2"
      using check_address_clock [OF c a] check_bricklet_clock [OF c b]
      by (simp add: pollInterval_def Second_def)
    then have "\<exists>r. poll_worker wr ks before n deadline res2 w2 = Some r"
      using True by (intro less) simp
    then show ?thesis
      using True a b by (subst poll_worker.simps) simp
  qed
qed

lemma verifyWorker_returns:
  assumes c: "clock_advances wr"
  shows "\<exists>r. verifyWorker wr ks n w = Some r"
proof -
  obtain before w1 where r: "readAll wr ks Map.empty w = (before, w1)" by fastforce
  obtain x w2 where s: "setRelay wr (RelayUID n) (Channel n) True w1 = (x, w2)" by fastforce
  obtain res w3 where p: "poll_worker wr ks before n (Now (wr_ext wr) w2 + bootTimeout)
      ((new_result (ID n))\<lparr>poweredOK := True\<rparr>) w2 = Some (res, w3)"
    using poll_worker_returns [OF c] by (metis surj_pair)
  show ?thesis using r s p by (cases x) (simp_all add: verifyWorker_def split: prod.splits)
qed

lemma verify_each_returns:
  assumes c: "clock_advances wr"
  shows "\<exists>r. verify_each wr ks ns results w = Some r"
proof (induction ns arbitrary: results w)
  case Nil
  then show ?case by simp
next
  case (Cons n ns)
  obtain r w1 where "verifyWorker wr ks n w = Some (r, w1)"
    using verifyWorker_returns [OF c] by (metis surj_pair)
  then show ?case using Cons.IH by simp
qed

lemma verify_wiring_returns:
  assumes c: "clock_advances wr"
  shows "\<exists>r. verify_wiring wr getenv readFile unmarshal bo w = Some r"
  using verify_each_returns [OF c]
  by (auto simp: verify_wiring_def Let_def split: sum.splits prod.splits option.splits)
    (metis option.distinct(1))+

section \<open>What a result says\<close>

text \<open>A result names its worker, and a bricklet that is right is the worker's.\<close>

definition result_ok :: "node \<Rightarrow> wiring_result \<Rightarrow> bool" where
  "result_ok n res \<longleftrightarrow> wres_node res = ID n \<and> (brickletOK res \<longrightarrow> sawBricklet res = ID n)"

lemma check_address_ok:
  "check_address wr n res w = (res', w') \<Longrightarrow> result_ok m res \<Longrightarrow> result_ok m res'"
  by (auto simp: check_address_def result_ok_def split: if_splits prod.splits)

lemma check_bricklet_ok:
  "check_bricklet wr ks before n res w = (res', w') \<Longrightarrow> result_ok n res \<Longrightarrow> result_ok n res'"
  by (auto simp: check_bricklet_def result_ok_def Let_def split: if_splits prod.splits)

lemma poll_worker_ok:
  assumes "poll_worker wr ks before n deadline res w = Some (res', w')" and "result_ok n res"
  shows "result_ok n res'"
proof -
  have "result_ok n res \<longrightarrow> result_ok n (fst (res', w'))"
  proof (rule poll_worker.raw_induct
      [where P = "\<lambda>wr ks before n deadline res w r. result_ok n res \<longrightarrow> result_ok n (fst r)", OF _ assms(1)])
    fix go :: "'a wiring \<Rightarrow> string list \<Rightarrow> (string \<rightharpoonup> double) \<Rightarrow> node \<Rightarrow> time \<Rightarrow> wiring_result \<Rightarrow> 'a \<Rightarrow> (wiring_result \<times> 'a) option"
      and wr ks before n deadline res w r
    assume IH: "\<And>wr ks before n deadline res w r. go wr ks before n deadline res w = Some r \<Longrightarrow>
        result_ok n res \<longrightarrow> result_ok n (fst r)"
      and run: "(if Now (wr_ext wr) w < deadline
        then case check_address wr n res (Sleep (wr_ext wr) pollInterval w) of
           (res1, w1) \<Rightarrow> case check_bricklet wr ks before n res1 w1 of
             (res2, w2) \<Rightarrow> if all_seen ks res2 then Some (res2, w2) else go wr ks before n deadline res2 w2
        else Some (res, w)) = Some r"
    show "result_ok n res \<longrightarrow> result_ok n (fst r)"
    proof
      assume ok: "result_ok n res"
      obtain res1 w1 where a: "check_address wr n res (Sleep (wr_ext wr) pollInterval w) = (res1, w1)" by fastforce
      obtain res2 w2 where b: "check_bricklet wr ks before n res1 w1 = (res2, w2)" by fastforce
      have ok2: "result_ok n res2" by (rule check_bricklet_ok [OF b check_address_ok [OF a ok]])
      have "r = (res, w) \<or> r = (res2, w2) \<or> go wr ks before n deadline res2 w2 = Some r"
        using run by (simp add: a b split: if_splits)
      then show "result_ok n (fst r)" using ok ok2 IH [of wr ks before n deadline res2 w2 r] by (elim disjE) simp_all
    qed
  qed
  then show ?thesis using assms(2) by simp
qed

lemma verifyWorker_ok:
  assumes "verifyWorker wr ks n w = Some (res, w')"
  shows "result_ok n res"
  using assms poll_worker_ok [of wr ks _ n _ "(new_result (ID n))\<lparr>poweredOK := True\<rparr>"]
  by (auto simp: verifyWorker_def result_ok_def new_result_def split: prod.splits option.splits)

lemma verify_each_ok:
  assumes "verify_each wr ks ns results w = Some (results', w')"
  shows "\<exists>new. results' = results @ new \<and> list_all2 result_ok ns new"
  using assms
proof (induction ns arbitrary: results w)
  case Nil
  then show ?case by simp
next
  case (Cons n ns)
  obtain res w1 where v: "verifyWorker wr ks n w = Some (res, w1)"
    and r: "verify_each wr ks ns (results @ [res]) w1 = Some (results', w')"
    using Cons.prems by (auto split: option.splits)
  obtain new where "results' = (results @ [res]) @ new" "list_all2 result_ok ns new"
    using Cons.IH [OF r] by blast
  then show ?case using verifyWorker_ok [OF v] by (intro exI [of _ "res # new"]) simp
qed

lemma count_problems_0: "count_problems ec rs = 0 \<longleftrightarrow> (\<forall>r \<in> set rs. verdict_of ec r = Fine)"
  by (induction rs) auto

lemma verdict_Fine:
  "verdict_of ec r = Fine \<longleftrightarrow> poweredOK r \<and> addressOK r \<and> (ec \<longrightarrow> sawBricklet r \<noteq> [] \<and> brickletOK r)"
  by (simp add: verdict_of_def)

text \<open>A run that gets to its report.\<close>

lemma verify_wiring_cases:
  assumes "verify_wiring wr getenv readFile unmarshal bo w = Some (Inr (code, results), w')"
  obtains ns ks w1 w2 where
    "LoadNodes (readFile (getenv_or getenv ''NODES_CONFIG'' ''deploy/nodes.json'')) unmarshal = Inr ns"
    "verify_each wr ks (sorted_workers ns) [] w1 = Some (results, w2)"
    "code = report results (ks \<noteq> [])" "w' = all_off wr (sorted_workers ns) w2"
  using assms
  by (auto simp: verify_wiring_def Let_def split: sum.splits prod.splits option.splits)

lemma clean_report:
  assumes "verify_wiring wr getenv readFile unmarshal bo w = Some (Inr (0, results), w')"
  obtains ns energy where
    "LoadNodes (readFile (getenv_or getenv ''NODES_CONFIG'' ''deploy/nodes.json'')) unmarshal = Inr ns"
    "list_all2 (\<lambda>n r. wres_node r = ID n \<and> poweredOK r \<and> addressOK r \<and> (energy \<longrightarrow> sawBricklet r = ID n))
       (sorted_workers ns) results"
  using assms
proof (cases rule: verify_wiring_cases)
  case (1 ns ks w1 w2)
  obtain new where "results = new" and ok: "list_all2 result_ok (sorted_workers ns) results"
    using verify_each_ok [OF 1(2)] by auto
  have fine: "\<forall>r \<in> set results. verdict_of (ks \<noteq> []) r = Fine"
    using 1(3) by (simp add: report_def count_problems_0 split: if_splits)
  have "list_all2 (\<lambda>n r. wres_node r = ID n \<and> poweredOK r \<and> addressOK r \<and> (ks \<noteq> [] \<longrightarrow> sawBricklet r = ID n))
      (sorted_workers ns) results"
    using ok fine unfolding list_all2_conv_all_nth verdict_Fine result_ok_def by (metis nth_mem)
  then show ?thesis using that [OF 1(1)] by blast
qed

section \<open>Everything off at the end\<close>

definition relays_work :: "'w relay_hw \<Rightarrow> bool" where
  "relays_work hw \<longleftrightarrow>
     (\<forall>u w. fst (hw_open hw u w) = None) \<and> (\<forall>u w. \<exists>s. fst (hw_get hw u w) = Inr s) \<and>
     (\<forall>u a b w. fst (hw_set hw u a b w) = None)"

lemma setRelay_moves:
  assumes laws: "hw_laws (wr_relay wr) pos" and ok: "relays_work (wr_relay wr)" and ch: "ch = 0 \<or> ch = 1"
    and run: "setRelay wr u ch on w = (x, w')"
  shows "x = None \<and> pos w' u = set_position ch on (pos w u) \<and> (\<forall>v. v \<noteq> u \<longrightarrow> pos w' v = pos w v)"
proof -
  let ?hw = "wr_relay wr"
  obtain w1 where o: "hw_open ?hw u w = (None, w1)" using ok unfolding relays_work_def by (metis prod.collapse)
  obtain s w2 where g: "hw_get ?hw u w1 = (Inr s, w2)" using ok unfolding relays_work_def by (metis prod.collapse)
  have s: "s = pos w u" using hw_lawsD(2) [OF laws o] hw_lawsD(4) [OF laws g] by simp
  let ?d = "if ch = 0 then (on, snd s) else (fst s, on)"
  obtain w3 where t: "hw_set ?hw u (fst ?d) (snd ?d) w2 = (None, w3)"
    using ok unfolding relays_work_def by (metis prod.collapse)
  have "x = None \<and> w' = w3"
    using run o g ch t by (cases s) (auto simp: setRelay_def split: if_splits)
  moreover have "pos w3 u = ?d" using hw_lawsD(6) [OF laws t] by simp
  moreover have "pos w3 v = pos w v" if "v \<noteq> u" for v
    using hw_lawsD(2) [OF laws o] hw_lawsD(3) [OF laws g] hw_lawsD(7) [OF laws t that] by simp
  ultimately show ?thesis using s by (auto simp: set_position_def)
qed

lemma position_set_off: "\<not> position c s \<Longrightarrow> \<not> position c (set_position ch False s)"
  by (auto simp: position_def set_position_def split: if_splits)

lemma all_off_keeps_off:
  assumes laws: "hw_laws (wr_relay wr) pos" and ok: "relays_work (wr_relay wr)"
    and "\<forall>n \<in> set ns. Channel n = 0 \<or> Channel n = 1" and "\<not> position c (pos w u)"
  shows "\<not> position c (pos (all_off wr ns w) u)"
  using assms(3,4)
proof (induction ns arbitrary: w)
  case Nil
  then show ?case by simp
next
  case (Cons n ns)
  obtain x w1 where s: "setRelay wr (RelayUID n) (Channel n) False w = (x, w1)" by fastforce
  have "\<not> position c (pos w1 u)"
  proof (cases "u = RelayUID n")
    case True
    then show ?thesis
      using setRelay_moves [OF laws ok _ s] Cons.prems position_set_off [of c "pos w u"] by simp
  next
    case False
    then show ?thesis using setRelay_moves [OF laws ok _ s] Cons.prems by simp
  qed
  then show ?case using Cons s by simp
qed

lemma all_off_off:
  assumes laws: "hw_laws (wr_relay wr) pos" and ok: "relays_work (wr_relay wr)"
    and "\<forall>n \<in> set ns. Channel n = 0 \<or> Channel n = 1" and "n \<in> set ns"
  shows "\<not> position (Channel n) (pos (all_off wr ns w) (RelayUID n))"
  using assms(3,4)
proof (induction ns arbitrary: w)
  case Nil
  then show ?case by simp
next
  case (Cons m ns)
  obtain x w1 where s: "setRelay wr (RelayUID m) (Channel m) False w = (x, w1)" by fastforce
  show ?case
  proof (cases "n = m")
    case True
    have "\<not> position (Channel m) (pos w1 (RelayUID m))"
      using setRelay_moves [OF laws ok _ s] Cons.prems(1) position_set by simp
    then show ?thesis using all_off_keeps_off [OF laws ok] Cons.prems(1) s True by simp
  next
    case False
    then show ?thesis using Cons s by simp
  qed
qed

lemma sorted_workers_set: "set (sorted_workers ns) = {n \<in> set ns. \<not> Local n}"
  by (auto simp: sorted_workers_def)

lemma LoadNodes_channels:
  assumes "LoadNodes data unmarshal = Inr ns" "n \<in> set ns" "\<not> Local n"
  shows "Channel n = 0 \<or> Channel n = 1"
  using assms by (auto simp: LoadNodes_Inr valid_topology_def worker_ok_def workers_def list_all_iff)

end
