(* ===== verification/Util_Fs.thy ===== *)
theory Util_Fs
  imports Manager
begin

text \<open>
  \<^verbatim>\<open>pkg/util/zip.go\<close>, \<^verbatim>\<open>pkg/util/copy.go\<close> and \<^verbatim>\<open>pkg/util/copyembed.go\<close>: unpacking an archive and
  copying files and directory trees. The calls of the operating system are the record \<open>os\<close>
  over a state of any type; an error is its message.
\<close>

section \<open>The operating system\<close>

record file_info =
  fi_dir :: bool
  fi_mode :: int

record dir_entry =
  en_name :: string
  en_dir :: bool
  en_symlink :: bool

text \<open>Whether \<open>os.Stat\<close> failed because there is no such file, or otherwise.\<close>

datatype stat_error = NotExist string | OtherStat string

fun stat_message :: "stat_error \<Rightarrow> string" where
  "stat_message (NotExist e) = e"
| "stat_message (OtherStat e) = e"

text \<open>
  \<open>os_Copy to from\<close> is \<open>io.Copy\<close> between two open files, \<open>os_Write to\<close> from memory. A member of an archive has
  its content, or the error that opening it gives, and the error that reading it ends with.
\<close>

record zip_member =
  zm_name :: string
  zm_dir :: bool
  zm_open :: "string + string \<times> string option"

record 'w os =
  os_Open :: "string \<Rightarrow> 'w \<Rightarrow> string option \<times> 'w"
  os_Stat :: "string \<Rightarrow> 'w \<Rightarrow> (stat_error + file_info) \<times> 'w"
  os_Create :: "string \<Rightarrow> 'w \<Rightarrow> string option \<times> 'w"
  os_Copy :: "string \<Rightarrow> string \<Rightarrow> 'w \<Rightarrow> string option \<times> 'w"
  os_Write :: "string \<Rightarrow> string \<times> string option \<Rightarrow> 'w \<Rightarrow> string option \<times> 'w"
  os_Sync :: "string \<Rightarrow> 'w \<Rightarrow> string option \<times> 'w"
  os_Close :: "string \<Rightarrow> 'w \<Rightarrow> string option \<times> 'w"
  os_Chmod :: "string \<Rightarrow> int \<Rightarrow> 'w \<Rightarrow> string option \<times> 'w"
  os_MkdirAll :: "string \<Rightarrow> int \<Rightarrow> 'w \<Rightarrow> string option \<times> 'w"
  os_ReadDir :: "string \<Rightarrow> 'w \<Rightarrow> (string + dir_entry list) \<times> 'w"
  os_OpenZip :: "string \<Rightarrow> 'w \<Rightarrow> (string + zip_member list) \<times> 'w"

text \<open>The embedded files are part of the program: reading them changes nothing.\<close>

record embed_fs =
  em_Open :: "string \<Rightarrow> string + string"
  em_ReadDir :: "string \<Rightarrow> string + dir_entry list"

text \<open>The early return of a function whose result is an error.\<close>

definition and_then ::
  "('w \<Rightarrow> string option \<times> 'w) \<Rightarrow> ('w \<Rightarrow> string option \<times> 'w) \<Rightarrow> 'w \<Rightarrow> string option \<times> 'w" where
  "and_then f k w = (case f w of (Some e, w1) \<Rightarrow> (Some e, w1) | (None, w1) \<Rightarrow> k w1)"

section \<open>Unpacking\<close>

fun extract_each :: "'w os \<Rightarrow> string \<Rightarrow> zip_member list \<Rightarrow> 'w \<Rightarrow> string option \<times> 'w" where
  "extract_each os p [] w = (None, w)"
| "extract_each os p (f # fs) w =
     (if zm_dir f then and_then (os_MkdirAll os (path_Join p (zm_name f)) 511) (extract_each os p fs) w
      else case zm_open f of
        Inl e \<Rightarrow> (Some e, w)
      | Inr content \<Rightarrow>
          and_then (os_Create os (path_Join p (zm_name f)))
            (and_then (os_Write os (path_Join p (zm_name f)) content)
              (\<lambda>w2. extract_each os p fs (snd (os_Close os (path_Join p (zm_name f)) w2)))) w)"

definition os_Unzip :: "'w os \<Rightarrow> string \<Rightarrow> string \<Rightarrow> 'w \<Rightarrow> string option \<times> 'w" where
  "os_Unzip os zipPath p w =
     (case os_OpenZip os zipPath w of
        (Inl e, w1) \<Rightarrow> (Some e, w1) | (Inr files, w1) \<Rightarrow> extract_each os p files w1)"

section \<open>Copying a file\<close>

text \<open>A deferred close whose error replaces the result.\<close>

definition closing :: "'w os \<Rightarrow> string \<Rightarrow> ('w \<Rightarrow> string option \<times> 'w) \<Rightarrow> 'w \<Rightarrow> string option \<times> 'w" where
  "closing os f body w =
     (case body w of (err, w1) \<Rightarrow>
      case os_Close os f w1 of (Some e, w2) \<Rightarrow> (Some e, w2) | (None, w2) \<Rightarrow> (err, w2))"

definition copy_mode :: "'w os \<Rightarrow> string \<Rightarrow> string \<Rightarrow> 'w \<Rightarrow> string option \<times> 'w" where
  "copy_mode os src dst w =
     (case os_Stat os src w of
        (Inl e, w1) \<Rightarrow> (Some (stat_message e), w1) | (Inr si, w1) \<Rightarrow> os_Chmod os dst (fi_mode si) w1)"

text \<open>
  The source stays open until the end; closing it has no effect on the result. A
  destination that exists is left alone, without an error.
\<close>

definition CopyFile :: "'w os \<Rightarrow> string \<Rightarrow> string \<Rightarrow> 'w \<Rightarrow> string option \<times> 'w" where
  "CopyFile os src dst =
     and_then (os_Open os src) (\<lambda>w1.
       case (case os_Stat os dst w1 of
          (Inr _, w2) \<Rightarrow> (None, w2)
        | (Inl (OtherStat e), w2) \<Rightarrow> (Some e, w2)
        | (Inl (NotExist _), w2) \<Rightarrow>
            and_then (os_Create os dst)
              (closing os dst
                (and_then (os_Copy os dst src) (and_then (os_Sync os dst) (copy_mode os src dst)))) w2)
       of (err, w3) \<Rightarrow> (err, snd (os_Close os src w3)))"

text \<open>An existing destination keeps its content.\<close>

lemma CopyFile_existing:
  assumes "os_Open os src w = (None, w1)" and "os_Stat os dst w1 = (Inr info, w2)"
  shows "CopyFile os src dst w = (None, snd (os_Close os src w2))"
  using assms by (simp add: CopyFile_def and_then_def)

definition path_Dir :: "string \<Rightarrow> string" where
  "path_Dir p = path_Clean (rev (dropWhile (\<lambda>c. c \<noteq> CHR ''/'') (rev p)))"

definition CopyFileFromEmbed :: "embed_fs \<Rightarrow> 'w os \<Rightarrow> string \<Rightarrow> string \<Rightarrow> 'w \<Rightarrow> string option \<times> 'w" where
  "CopyFileFromEmbed em os srcPath dstPath w =
     (case em_Open em srcPath of
        Inl e \<Rightarrow> (Some e, w)
      | Inr content \<Rightarrow>
          (case os_Stat os dstPath w of
             (Inr _, w1) \<Rightarrow> (None, w1)
           | (Inl (OtherStat e), w1) \<Rightarrow> (Some e, w1)
           | (Inl (NotExist _), w1) \<Rightarrow>
               and_then (os_MkdirAll os (path_Dir dstPath) 493)
                 (and_then (os_Create os dstPath)
                   (closing os dstPath
                     (and_then (os_Write os dstPath (content, None)) (os_Sync os dstPath)))) w1))"

section \<open>Copying a tree\<close>

text \<open>
  The loop over the entries of a directory; \<open>f\<close> copies one entry and may not return, which
  is the value \<open>None\<close>.
\<close>

fun each_entry ::
  "(dir_entry \<Rightarrow> 'w \<Rightarrow> (string option \<times> 'w) option) \<Rightarrow> dir_entry list \<Rightarrow> 'w \<Rightarrow> (string option \<times> 'w) option" where
  "each_entry f [] w = Some (None, w)"
| "each_entry f (x # xs) w =
     Option.bind (f x w) (\<lambda>r. if fst r \<noteq> None then Some r else each_entry f xs (snd r))"

lemma each_entry_mono [partial_function_mono]:
  assumes "\<And>x w. mono_option (\<lambda>g. f g x w)"
  shows "mono_option (\<lambda>g. each_entry (f g) xs w)"
proof (induction xs arbitrary: w)
  case Nil
  then show ?case by (simp add: option.const_mono)
next
  case (Cons x xs)
  have "mono_option (\<lambda>g. Option.bind (f g x w) (\<lambda>r. if fst r \<noteq> None then Some r else each_entry (f g) xs (snd r)))"
    by (intro bind_mono assms if_mono option.const_mono Cons.IH)
  then show ?case by simp
qed

text \<open>
  \<open>CopyDir\<close> makes the destination and copies the entries; a destination below the source
  makes it run for ever.
\<close>

definition dir_guard :: "'w os \<Rightarrow> string \<Rightarrow> string \<Rightarrow> 'w \<Rightarrow> (string + int) \<times> 'w" where
  "dir_guard os src dst w =
     (case os_Stat os src w of
        (Inl e, w1) \<Rightarrow> (Inl (stat_message e), w1)
      | (Inr si, w1) \<Rightarrow>
          if \<not> fi_dir si then (Inl ''source is not a directory'', w1)
          else (case os_Stat os dst w1 of
                  (Inl (OtherStat e), w2) \<Rightarrow> (Inl e, w2)
                | (Inr _, w2) \<Rightarrow> (Inl ''destination already exists'', w2)
                | (Inl (NotExist _), w2) \<Rightarrow> (Inr (fi_mode si), w2)))"

definition copy_entry ::
  "'w os \<Rightarrow> (string \<Rightarrow> string \<Rightarrow> 'w \<Rightarrow> (string option \<times> 'w) option) \<Rightarrow> string \<Rightarrow> string \<Rightarrow> dir_entry \<Rightarrow> 'w \<Rightarrow>
   (string option \<times> 'w) option" where
  "copy_entry os rec src dst en w =
     (let srcPath = path_Join src (en_name en); dstPath = path_Join dst (en_name en)
      in if en_dir en then rec srcPath dstPath w
         else if en_symlink en then Some (None, w)
         else Some (CopyFile os srcPath dstPath w))"

lemma copy_entry_mono [partial_function_mono]:
  assumes "\<And>s d w. mono_option (\<lambda>g. rec g s d w)"
  shows "mono_option (\<lambda>g. copy_entry os (rec g) src dst en w)"
  unfolding copy_entry_def Let_def by (intro if_mono assms option.const_mono)

partial_function (option) CopyDir ::
  "'w os \<Rightarrow> string \<Rightarrow> string \<Rightarrow> 'w \<Rightarrow> (string option \<times> 'w) option" where
  "CopyDir os src0 dst0 w =
     (case dir_guard os (path_Clean src0) (path_Clean dst0) w of
        (Inl e, w1) \<Rightarrow> Some (Some e, w1)
      | (Inr mode, w1) \<Rightarrow>
          (case os_MkdirAll os (path_Clean dst0) mode w1 of
             (Some e, w2) \<Rightarrow> Some (Some e, w2)
           | (None, w2) \<Rightarrow>
               (case os_ReadDir os (path_Clean src0) w2 of
                  (Inl e, w3) \<Rightarrow> Some (Some e, w3)
                | (Inr entries, w3) \<Rightarrow>
                    each_entry (copy_entry os (CopyDir os) (path_Clean src0) (path_Clean dst0)) entries w3)))"

declare CopyDir.simps [code]

text \<open>
  The second test for a directory reads the information on the source again, so that it
  never fails.
\<close>

definition CopyAll :: "'w os \<Rightarrow> string \<Rightarrow> string \<Rightarrow> 'w \<Rightarrow> (string option \<times> 'w) option" where
  "CopyAll os src0 dst0 w =
     (let src = path_Clean src0; dst = path_Clean dst0
      in case os_Stat os src w of
        (Inl e, w1) \<Rightarrow> Some (Some (stat_message e), w1)
      | (Inr si, w1) \<Rightarrow>
          if \<not> fi_dir si then Some (Some ''source is not a directory'', w1)
          else (case os_Stat os dst w1 of
            (Inl e, w2) \<Rightarrow> Some (Some (stat_message e), w2)
          | (Inr _, w2) \<Rightarrow>
              if \<not> fi_dir si then Some (Some ''destination is not a directory'', w2)
              else (case os_ReadDir os src w2 of
                (Inl e, w3) \<Rightarrow> Some (Some e, w3)
              | (Inr entries, w3) \<Rightarrow> each_entry (copy_entry os (CopyDir os) src dst) entries w3)))"

definition embed_entry ::
  "embed_fs \<Rightarrow> 'w os \<Rightarrow> (string \<Rightarrow> string \<Rightarrow> 'w \<Rightarrow> (string option \<times> 'w) option) \<Rightarrow> string \<Rightarrow> string \<Rightarrow> dir_entry \<Rightarrow> 'w \<Rightarrow>
   (string option \<times> 'w) option" where
  "embed_entry em os rec src dst en w =
     (let srcPath = path_Join src (en_name en); dstPath = path_Join dst (en_name en)
      in if en_dir en then rec srcPath dstPath w
         else if en_symlink en then Some (None, w)
         else Some (CopyFileFromEmbed em os srcPath dstPath w))"

lemma embed_entry_mono [partial_function_mono]:
  assumes "\<And>s d w. mono_option (\<lambda>g. rec g s d w)"
  shows "mono_option (\<lambda>g. embed_entry em os (rec g) src dst en w)"
  unfolding embed_entry_def Let_def by (intro if_mono assms option.const_mono)

partial_function (option) CopyDirFromEmbed ::
  "embed_fs \<Rightarrow> 'w os \<Rightarrow> string \<Rightarrow> string \<Rightarrow> 'w \<Rightarrow> (string option \<times> 'w) option" where
  "CopyDirFromEmbed em os srcPath dstPath w =
     (case em_ReadDir em srcPath of
        Inl e \<Rightarrow> Some (Some e, w)
      | Inr entries \<Rightarrow>
          (case os_MkdirAll os dstPath 493 w of
             (Some e, w1) \<Rightarrow> Some (Some e, w1)
           | (None, w1) \<Rightarrow>
               each_entry (embed_entry em os (CopyDirFromEmbed em os) srcPath dstPath) entries w1))"

declare CopyDirFromEmbed.simps [code]

end
