(* ===== verification/Path_Facts.thy ===== *)
theory Path_Facts
  imports Util_Fs
begin

text \<open>
  What joining paths does for \<^verbatim>\<open>pkg/util/zip.go\<close>: names that are made of proper elements stay below the folder they are joined to,
  and a leading \<open>..\<close> leaves it. Unpacking an archive writes exactly where the names say.
\<close>

section \<open>Joining paths\<close>

definition proper :: "string \<Rightarrow> bool" where
  "proper e \<longleftrightarrow> e \<noteq> [] \<and> e \<noteq> ''.'' \<and> e \<noteq> ''..'' \<and> CHR ''/'' \<notin> set e"

definition render :: "bool \<Rightarrow> string list \<Rightarrow> string" where
  "render rooted es = (if rooted then ''/'' else []) @ join_slash es"

lemma split_slash_plain: "CHR ''/'' \<notin> set x \<Longrightarrow> split_slash x = [x]"
  by (induction x) auto

lemma split_slash_append: "CHR ''/'' \<notin> set x \<Longrightarrow> split_slash (x @ CHR ''/'' # s) = x # split_slash s"
proof (induction x)
  case Nil
  then show ?case by simp
next
  case (Cons c x)
  then show ?case by (auto split: list.splits)
qed

lemma split_join:
  assumes "es \<noteq> []" "\<forall>e \<in> set es. CHR ''/'' \<notin> set e"
  shows "split_slash (join_slash es) = es"
  using assms
proof (induction es rule: join_slash.induct)
  case 1
  then show ?case by simp
next
  case (2 x)
  then show ?case by (simp add: split_slash_plain)
next
  case (3 x y zs)
  then show ?case by (simp add: split_slash_append)
qed

lemma join_append:
  "es \<noteq> [] \<Longrightarrow> ns \<noteq> [] \<Longrightarrow> join_slash es @ ''/'' @ join_slash ns = join_slash (es @ ns)"
proof (induction es rule: join_slash.induct)
  case (2 x)
  then show ?case by (cases ns) auto
qed auto

lemma clean_proper:
  "\<forall>e \<in> set es. proper e \<Longrightarrow> clean_elems r out (es @ rest) = clean_elems r (rev es @ out) rest"
  by (induction es arbitrary: out) (auto simp: proper_def)

lemma join_slash_Nil: "\<forall>e \<in> set es. proper e \<Longrightarrow> join_slash es = [] \<longleftrightarrow> es = []"
  by (cases es rule: join_slash.cases) (auto simp: proper_def)

lemma join_slash_hd: "\<forall>e \<in> set es. proper e \<Longrightarrow> es \<noteq> [] \<Longrightarrow> hd (join_slash es @ s) \<noteq> CHR ''/''"
proof (cases es rule: join_slash.cases)
  case (2 x)
  then show "\<forall>e \<in> set es. proper e \<Longrightarrow> hd (join_slash es @ s) \<noteq> CHR ''/''"
    by (cases x) (auto simp: proper_def)
next
  case (3 x y zs)
  then show "\<forall>e \<in> set es. proper e \<Longrightarrow> hd (join_slash es @ s) \<noteq> CHR ''/''"
    by (cases x) (auto simp: proper_def)
qed simp

lemma path_Join_render:
  assumes es: "\<forall>e \<in> set es. proper e" "es \<noteq> []" and ns: "\<forall>e \<in> set ns. CHR ''/'' \<notin> set e" "join_slash ns \<noteq> []"
  shows "path_Join (render r es) (join_slash ns) =
    (let q = render r (clean_elems r (rev es) ns) in if q = [] then ''.'' else q)"
proof -
  have n: "ns \<noteq> []" using ns(2) by auto
  have sl: "\<forall>e \<in> set (es @ ns). CHR ''/'' \<notin> set e" using es(1) ns(1) by (auto simp: proper_def)
  let ?p = "render r es @ ''/'' @ join_slash ns"
  have p: "?p = (if r then ''/'' else []) @ join_slash (es @ ns)"
    using join_append [OF es(2) n] by (simp add: render_def)
  have ne: "render r es \<noteq> []" using join_slash_Nil [OF es(1)] es(2) by (simp add: render_def)
  have join: "path_Join (render r es) (join_slash ns) = path_Clean ?p"
    using ne ns(2) by (simp add: path_Join_def)
  have root: "hd ?p = CHR ''/'' \<longleftrightarrow> r"
    using join_slash_hd [OF es] by (auto simp: render_def)
  have "?p \<noteq> []" by simp
  have elems: "clean_elems r [] (split_slash ?p) = clean_elems r (rev es) ns"
  proof -
    have "split_slash (join_slash (es @ ns)) = es @ ns" using split_join [OF _ sl] es(2) by simp
    then have "split_slash ?p = (if r then [[]] else []) @ es @ ns" unfolding p by simp
    then show ?thesis using clean_proper [OF es(1), of r "[]" ns] by (cases r) simp_all
  qed
  have "path_Clean ?p = (let q = render (hd ?p = CHR ''/'') (clean_elems (hd ?p = CHR ''/'') [] (split_slash ?p))
      in if q = [] then ''.'' else q)"
    using \<open>?p \<noteq> []\<close> by (simp only: path_Clean_def render_def Let_def if_False)
  then show ?thesis unfolding join root elems .
qed

text \<open>A proper name stays below its folder; a leading \<open>..\<close> leaves it.\<close>

lemma path_Join_inside:
  assumes "\<forall>e \<in> set es. proper e" "es \<noteq> []" "\<forall>e \<in> set ns. proper e" "ns \<noteq> []"
  shows "path_Join (render r es) (join_slash ns) = render r (es @ ns)"
proof -
  have c: "clean_elems r (rev es) ns = es @ ns" using clean_proper [OF assms(3), of r "rev es" "[]"] by simp
  have j: "join_slash ns \<noteq> []" "join_slash (es @ ns) \<noteq> []"
    using join_slash_Nil [OF assms(3)] join_slash_Nil [of "es @ ns"] assms by auto
  have "\<forall>e \<in> set ns. CHR ''/'' \<notin> set e" using assms(3) by (auto simp: proper_def)
  from path_Join_render [OF assms(1,2) this j(1), of r] show ?thesis using j(2) by (simp add: c render_def)
qed

lemma path_Join_outside:
  assumes "\<forall>e \<in> set (es @ [x]). proper e" "\<forall>e \<in> set ns. proper e" "ns \<noteq> []"
  shows "path_Join (render r (es @ [x])) (join_slash (''..'' # ns)) = render r (es @ ns)"
proof -
  have "clean_elems r (rev (es @ [x])) (''..'' # ns) = clean_elems r (rev es) ns"
    using assms(1) by (simp add: proper_def)
  also have "\<dots> = es @ ns" using clean_proper [OF assms(2), of r "rev es" "[]"] by simp
  finally have c: "clean_elems r (rev (es @ [x])) (''..'' # ns) = es @ ns" .
  have j: "join_slash (''..'' # ns) \<noteq> []" "join_slash (es @ ns) \<noteq> []"
    using join_slash_Nil [of "es @ ns"] assms by (cases ns; auto)+
  have "\<forall>e \<in> set (''..'' # ns). CHR ''/'' \<notin> set e" using assms(2) by (auto simp: proper_def)
  from path_Join_render [OF assms(1) _ this j(1), of r] show ?thesis
    unfolding c using j(2) by (simp add: render_def)
qed

section \<open>Where an archive is unpacked\<close>

text \<open>
  \<open>made\<close> tells which files have been created: a creation that succeeds adds its path, and
  nothing else an extraction does adds or removes one.
\<close>

definition tracks :: "'w os \<Rightarrow> ('w \<Rightarrow> string set) \<Rightarrow> bool" where
  "tracks os made \<longleftrightarrow>
     (\<forall>f w w'. os_Create os f w = (None, w') \<longrightarrow> made w' = insert f (made w)) \<and>
     (\<forall>f m w. made (snd (os_MkdirAll os f m w)) = made w) \<and>
     (\<forall>f c w. made (snd (os_Write os f c w)) = made w) \<and>
     (\<forall>f w. made (snd (os_Close os f w)) = made w) \<and>
     (\<forall>f w. made (snd (os_OpenZip os f w)) = made w)"

definition member_paths :: "string \<Rightarrow> zip_member list \<Rightarrow> string set" where
  "member_paths p files = {path_Join p (zm_name f) |f. f \<in> set files \<and> \<not> zm_dir f}"

lemma and_then_None: "and_then f k w = (None, w') \<longleftrightarrow> (\<exists>w1. f w = (None, w1) \<and> k w1 = (None, w'))"
  by (auto simp: and_then_def split: prod.splits option.splits)

lemma tracksD:
  assumes "tracks os made"
  shows "os_Create os f w = (None, w') \<Longrightarrow> made w' = insert f (made w)"
    and "os_MkdirAll os f m w = (x, w') \<Longrightarrow> made w' = made w"
    and "os_Write os f c w = (x, w') \<Longrightarrow> made w' = made w"
    and "made (snd (os_Close os f w)) = made w"
    and "os_OpenZip os f w = (y, w') \<Longrightarrow> made w' = made w"
  using assms unfolding tracks_def by (metis snd_conv)+

lemma extract_each_made:
  assumes t: "tracks os made"
  shows "extract_each os p files w = (None, w') \<Longrightarrow> made w' = made w \<union> member_paths p files"
proof (induction files arbitrary: w)
  case Nil
  then show ?case by (simp add: member_paths_def)
next
  case (Cons f fs)
  let ?f = "path_Join p (zm_name f)"
  have paths: "member_paths p (f # fs) = (if zm_dir f then {} else {?f}) \<union> member_paths p fs"
    by (auto simp: member_paths_def)
  show ?case
  proof (cases "zm_dir f")
    case True
    then obtain w1 where "os_MkdirAll os ?f 511 w = (None, w1)" "extract_each os p fs w1 = (None, w')"
      using Cons.prems by (auto simp: and_then_None)
    then show ?thesis using Cons.IH tracksD(2) [OF t] paths True by fastforce
  next
    case False
    obtain c where "zm_open f = Inr c" using Cons.prems False by (auto split: sum.splits)
    then obtain w1 w2 where "os_Create os ?f w = (None, w1)" "os_Write os ?f c w1 = (None, w2)"
      "extract_each os p fs (snd (os_Close os ?f w2)) = (None, w')"
      using Cons.prems False by (auto simp: and_then_None)
    then show ?thesis
      using Cons.IH tracksD(1) [OF t] tracksD(3) [OF t] tracksD(4) [OF t] paths False by auto
  qed
qed

lemma os_Unzip_made:
  assumes t: "tracks os made" and "os_OpenZip os zipPath w = (Inr files, w1)"
    and "os_Unzip os zipPath p w = (None, w')"
  shows "made w' = made w \<union> member_paths p files"
  using assms(2,3) extract_each_made [OF t, of p files w1 w'] tracksD(5) [OF t] by (simp add: os_Unzip_def)

text \<open>The folder into which the management service unpacks.\<close>

lemma path_Join_TmpDir:
  assumes "proper uuid"
  shows "path_Join TmpDir uuid = render False [''tmp'', uuid]"
proof -
  have u: "uuid \<noteq> []" "CHR ''/'' \<notin> set uuid" using assms by (simp_all add: proper_def)
  have "split_slash (''./tmp/'' @ uuid) = [''.'', ''tmp'', uuid]"
    using split_slash_plain [OF u(2)] by simp
  then have "path_Clean (''./tmp/'' @ uuid) = render False [''tmp'', uuid]"
    using assms by (simp add: path_Clean_def render_def proper_def)
  then show ?thesis using u(1) by (simp add: path_Join_def TmpDir_def)
qed

lemma unzip_paths:
  assumes t: "tracks os made" and open_zip: "os_OpenZip os zipPath w = (Inr files, w1)"
    and run: "os_Unzip os zipPath (path_Join TmpDir uuid) w = (None, w')" and u: "proper uuid"
  shows "made w' = made w \<union> member_paths (path_Join TmpDir uuid) files"
    and "f \<in> set files \<Longrightarrow> \<not> zm_dir f \<Longrightarrow> \<forall>e \<in> set ns. proper e \<Longrightarrow> ns \<noteq> [] \<Longrightarrow> zm_name f = join_slash ns \<Longrightarrow>
      render False (''tmp'' # uuid # ns) \<in> made w'"
    and "f \<in> set files \<Longrightarrow> \<not> zm_dir f \<Longrightarrow> \<forall>e \<in> set ns. proper e \<Longrightarrow> ns \<noteq> [] \<Longrightarrow>
      zm_name f = join_slash (''..'' # ns) \<Longrightarrow> render False (''tmp'' # ns) \<in> made w'"
proof -
  show all: "made w' = made w \<union> member_paths (path_Join TmpDir uuid) files"
    by (rule os_Unzip_made [OF t open_zip run])
  have tmp: "proper ''tmp''" by (simp add: proper_def)
  show "render False (''tmp'' # uuid # ns) \<in> made w'"
    if f: "f \<in> set files" "\<not> zm_dir f" and ns: "\<forall>e \<in> set ns. proper e" "ns \<noteq> []" and n: "zm_name f = join_slash ns"
  proof -
    have "path_Join (path_Join TmpDir uuid) (zm_name f) = render False (''tmp'' # uuid # ns)"
      using path_Join_inside [of "[''tmp'', uuid]" ns False] ns tmp u by (simp add: n path_Join_TmpDir [OF u])
    then show ?thesis using f unfolding all member_paths_def by force
  qed
  show "render False (''tmp'' # ns) \<in> made w'"
    if f: "f \<in> set files" "\<not> zm_dir f" and ns: "\<forall>e \<in> set ns. proper e" "ns \<noteq> []"
      and n: "zm_name f = join_slash (''..'' # ns)"
  proof -
    have "path_Join (path_Join TmpDir uuid) (zm_name f) = render False (''tmp'' # ns)"
      using path_Join_outside [of "[''tmp'']" uuid ns False] ns tmp u by (simp add: n path_Join_TmpDir [OF u])
    then show ?thesis using f unfolding all member_paths_def by force
  qed
qed

end
