(* ===== verification/Samples_Node.thy ===== *)
theory Samples_Node
  imports Samples Function_Runtime Node_Main Coap_Grpc Wiring_Facts Path_Facts
begin

text \<open>
  Concrete worlds for the parts of a worker node: a Docker daemon (for \<^verbatim>\<open>pkg/docker/handler.go\<close>) that
  keeps lists of what exists, the bench of the wiring check, and an operating system that records the files it makes.
\<close>

section \<open>A daemon\<close>

type_synonym daemon = "string list \<times> string list \<times> string list"

text \<open>An ID longer than all others, of at least twelve characters.\<close>

definition fresh_id :: "string list \<Rightarrow> string" where
  "fresh_id xs = replicate (12 + Suc (sum_list (map length xs))) (CHR ''a'')"

lemma fresh_id_new: "fresh_id xs \<notin> set xs"
proof
  assume "fresh_id xs \<in> set xs"
  then have "length (fresh_id xs) \<le> sum_list (map length xs)"
    by (intro member_le_sum_list) auto
  then show False by (simp add: fresh_id_def)
qed

lemma fresh_id_length: "12 \<le> length (fresh_id xs)"
  by (simp add: fresh_id_def)

definition long_ids :: "string list \<Rightarrow> string set" where
  "long_ids xs = set (filter (\<lambda>x. 12 \<le> length x) xs)"

lemma long_ids_simps [simp]:
  "long_ids (fresh_id xs # xs) = insert (fresh_id xs) (long_ids xs)" "fresh_id xs \<notin> long_ids xs"
  "long_ids (removeAll c xs) = long_ids xs - {c}"
  using fresh_id_length [of xs] fresh_id_new [of xs] by (auto simp: long_ids_def)

definition daemon_state :: "daemon daemon_view" where
  "daemon_state = \<lparr>conts = (\<lambda>d. long_ids (fst d)), nets = (\<lambda>d. set (fst (snd d))), imgs = (\<lambda>d. set (snd (snd d)))\<rparr>"

definition sample_client :: "bool \<Rightarrow> daemon docker_client" where
  "sample_client room =
     \<lparr>dc_Ping = (\<lambda>d. (None, d)),
      dc_ContainerList = (\<lambda>l d. (Inr (filter (\<lambda>x. 12 \<le> length x) (fst d)), d)),
      dc_NetworkList = (\<lambda>l d. (Inr (fst (snd d)), d)),
      dc_ContainerRemove = (\<lambda>f c (cs, ns, is). (None, removeAll c cs, ns, is)),
      dc_NetworkRemove = (\<lambda>n (cs, ns, is). (None, cs, removeAll n ns, is)),
      dc_ImageRemove = (\<lambda>n (cs, ns, is). (None, cs, ns, removeAll n is)),
      dc_Tar = (\<lambda>p d. (Inr p, d)),
      dc_ImageBuild = (\<lambda>t n ls (cs, ns, is). (None, cs, ns, n # is)),
      dc_NetworkCreate = (\<lambda>n ls (cs, ns, is). (Inr (fresh_id ns), cs, fresh_id ns # ns, is)),
      dc_ContainerCreate = (\<lambda>cfg n (cs, ns, is).
        if room then (Inr (fresh_id cs), fresh_id cs # cs, ns, is) else (Inl ''no space'', cs, ns, is)),
      dc_ContainerStart = (\<lambda>c d. (None, d)),
      dc_ContainerInspect = (\<lambda>c d. (Inr (\<lambda>_. Some ''172.18.0.2''), d)),
      dc_ContainerStop = (\<lambda>t c d. (None, d)),
      dc_ContainerLogs = (\<lambda>c d. (Inr [], d)),
      dc_StdCopy = (\<lambda>l. Inr ([], []))\<rparr>"

definition still_ext :: "http_result \<Rightarrow> 'w ext" where
  "still_ext res =
     \<lparr>PowerOn = (\<lambda>u c w. (None, w)), PowerOff = (\<lambda>u c w. (None, w)), HttpGet = (\<lambda>u w. (res, w)),
      HttpPost = (\<lambda>u b w. (res, w)), ValidURL = (\<lambda>_. True), Now = (\<lambda>_. 0), Sleep = (\<lambda>t w. w)\<rparr>"

definition sample_files :: "'w files" where
  "sample_files =
     \<lparr>NewUUID = (\<lambda>w. (Inr ''u'', w)), MkdirAll = (\<lambda>p w. (None, w)), WriteFile = (\<lambda>p b w. (None, w)),
      Unzip = (\<lambda>z p w. (None, w)), RemoveAll = (\<lambda>p w. (None, w)), Remove = (\<lambda>p w. (None, w))\<rparr>"

definition sample_docker :: "bool \<Rightarrow> http_result \<Rightarrow> daemon docker_env" where
  "sample_docker room res =
     \<lparr>de_client = sample_client room, de_fs = sample_files, de_copy_embed = (\<lambda>p q w. (None, w)),
      de_copy_all = (\<lambda>p q w. (None, w)), de_ext = still_ext res, de_runtimesDir = ''runtimes-amd64'',
      de_order = (\<lambda>_. [])\<rparr>"

lemma sample_daemon_laws: "daemon_laws (sample_docker room res) daemon_state"
  by (auto simp: daemon_laws_def quiet_ops_def creations_def removals_def same_def sample_docker_def
      sample_client_def sample_files_def still_ext_def daemon_state_def fresh_id_new Let_def
      split: if_splits)

lemma sample_removable: "containers_removable (de_client (sample_docker room res))"
  by (simp add: containers_removable_def sample_docker_def sample_client_def split: prod.splits)

lemma sample_orphans: "orphans_removable (de_client (sample_docker room res)) daemon_state"
  by (auto simp: orphans_removable_def sample_docker_def sample_client_def daemon_state_def long_ids_def
      split: prod.splits)

lemma sample_works_until: "works_until_containers (sample_docker False res)"
  by (auto simp: works_until_containers_def sample_docker_def sample_client_def sample_files_def
      split: prod.splits)

lemma sample_create:
  "docker_Create (sample_docker True res) ''id'' ''f'' ''go'' 1 ''tmp'' Map.empty (cs, ns, is) =
    (Return (Inr ((new_handler ''f'' ''go'' 1 ''u'')\<lparr>dh_network := fresh_id ns, dh_containers := [fresh_id cs]\<rparr>)),
     fresh_id cs # cs, fresh_id ns # ns, ''f-u'' # is)"
  by (simp add: docker_Create_def get_or_fail_def or_fail_def prepare_folder_def build_image_def provision_def
      create_containers_def new_handler_def sample_docker_def sample_client_def sample_files_def Let_def upt_rec)

lemma sample_destroy: "\<exists>d'. docker_Destroy (sample_client room) dh d = (None, d')"
proof -
  obtain cs ns "is" where d: "destroy_each (sample_client room) (dh_containers dh) d = (cs, ns, is)"
    using prod_cases3 by blast
  show ?thesis unfolding docker_Destroy_def d by (simp add: sample_client_def)
qed

section \<open>A bench for the wiring check\<close>

type_synonym bench = "int \<times> (string \<Rightarrow> positions)"

text \<open>One worker on channel 0 of the default relay draws three watts when it is on.\<close>

definition sample_bench :: "http_result \<Rightarrow> bench wiring" where
  "sample_bench res =
     \<lparr>wr_ext = (still_ext res)\<lparr>Now := fst, Sleep := (\<lambda>t w. (fst w + t, snd w))\<rparr>,
      wr_connect = (\<lambda>a w. (None, w)),
      wr_relay = \<lparr>hw_connect = (\<lambda>a p w. (None, w)), hw_open = (\<lambda>u w. (None, w)),
        hw_get = (\<lambda>u w. (Inr (snd w u), w)), hw_set = (\<lambda>u a b w. (None, fst w, (snd w)(u := (a, b)))),
        hw_close = (\<lambda>w. w)\<rparr>,
      wr_bricklet = (\<lambda>u w. (None, w)),
      wr_power = (\<lambda>n w. (Some (if fst (snd w []) then 3000 else 10), w)),
      wr_order = (\<lambda>_. [''w''])\<rparr>"

definition bench_getenv :: environment where
  "bench_getenv key = (if key = ''ENERGY_NODES'' then '' w = 26vg '' else [])"

definition bench_run :: "((wiring_fatal + int \<times> wiring_result list) \<times> bench) option" where
  "bench_run = verify_wiring (sample_bench (Inr (200, Some []))) bench_getenv (\<lambda>_. Inr []) (\<lambda>_. Inr sample_topology)
     [''w''] (0, \<lambda>_. (True, False))"

lemma bench_clock: "clock_advances (sample_bench res)"
  by (simp add: clock_advances_def sample_bench_def still_ext_def)

lemma bench_laws: "hw_laws (wr_relay (sample_bench res)) snd"
  by (simp add: hw_laws_def sample_bench_def)

lemma bench_works: "relays_work (wr_relay (sample_bench res))"
  by (simp add: relays_work_def sample_bench_def)

lemma bench_run_clean:
  "map_option fst bench_run = Some (Inr (0, [\<lparr>wres_node = ''w'', poweredOK = True, sawBricklet = ''w'',
     brickletOK = True, addressOK = True, wres_note = None\<rparr>]))"
  by code_simp

section \<open>An operating system\<close>

text \<open>The state is the list of the files made; every archive has the members \<open>ms\<close>.\<close>

definition sample_os :: "zip_member list \<Rightarrow> string list os" where
  "sample_os ms =
     \<lparr>os_Open = (\<lambda>p w. (None, w)), os_Stat = (\<lambda>p w. (Inl (NotExist p), w)),
      os_Create = (\<lambda>p w. (None, p # w)), os_Copy = (\<lambda>t f w. (None, w)), os_Write = (\<lambda>t c w. (None, w)),
      os_Sync = (\<lambda>p w. (None, w)), os_Close = (\<lambda>p w. (None, w)), os_Chmod = (\<lambda>p m w. (None, w)),
      os_MkdirAll = (\<lambda>p m w. (None, w)), os_ReadDir = (\<lambda>p w. (Inr [], w)),
      os_OpenZip = (\<lambda>p w. (Inr ms, w))\<rparr>"

definition sample_member :: "string \<Rightarrow> zip_member" where
  "sample_member n = \<lparr>zm_name = n, zm_dir = False, zm_open = Inr (''x'', None)\<rparr>"

lemma sample_tracks: "tracks (sample_os ms) set"
  by (simp add: tracks_def sample_os_def)

section \<open>A container with a server\<close>

text \<open>Every address runs the server, and header fields arrive as they were set.\<close>

definition sample_wire :: wire where
  "sample_wire hs k = map_option (\<lambda>v. [v]) (hs k)"

definition container_ext :: "int server \<Rightarrow> int ext" where
  "container_ext srv = good_ext
     \<lparr>HttpPost := (\<lambda>u b w. case b of CallBody p hs \<Rightarrow> delivered srv (call_request sample_wire p hs) w
        | _ \<Rightarrow> (Inr (200, Some ''ok''), w)),
      HttpGet := (\<lambda>u w. delivered srv (probe_request sample_wire) w)\<rparr>"

definition sample_config :: rproxy_config where
  "sample_config = \<lparr>rc_name = ''f'', rc_ips = [''172.18.0.2''], rc_env = ''go'', rc_threads = 1,
     rc_envs = Map.empty, rc_zip = ''PK''\<rparr>"

definition tagged_request :: http_request where
  "tagged_request = sample_request\<lparr>Header := [''K'' \<mapsto> [''1'']]\<rparr>"

definition tagged_choices :: choices where
  "tagged_choices = (sample_choices [''l''])\<lparr>ch_headers := [''K''], ch_out := [''K'']\<rparr>"

lemma container_runs: "runs_at (container_ext srv) sample_wire srv ip"
  by (simp add: runs_at_def container_ext_def good_ext_def)

lemma sample_wire_ok: "wire_ok sample_wire"
  by (auto simp: wire_ok_def sample_wire_def)

lemma head_served: "served_here tagged_choices 10 tagged_request head_node (one_node head_node)"
  by code_simp

lemma tagged_asks: "asks_for tagged_choices tagged_request ''f'' ''x''"
  by (simp add: asks_for_def tagged_choices_def tagged_request_def sample_choices_def sample_request_def range_order_def)

lemma plain_key: "CanonicalHeaderKey (cleanHeaderKey ''K'') = ''K''"
  by code_simp

lemma tagged_out: "out_headers tagged_choices tagged_request = [''K'' \<mapsto> ''1'']"
  by (simp add: out_headers_def tagged_choices_def tagged_request_def sample_choices_def sample_request_def
      call_headers_def first_values_def header_set_def plain_key)

lemma config_on_head:
  "config_handler e sample_params (\<lambda>_. Some sample_config) [] MethodPost [] (New, one_node head_node, 0) =
    (Return \<lparr>Code = 200, RespHeader = [''Content-Type'' \<mapsto> ''text/plain''], RespBody = ''OK''\<rparr>,
     New\<lparr>hosts := [''f'' \<mapsto> [''172.18.0.2'']]\<rparr>,
     set_funcs (store_Set ''f'' \<lparr>fd_env = ''go'', fd_threads = 1, fd_envs = Map.empty, fd_zip = ''PK''\<rparr>) (one_node head_node), 0)"
  by (simp add: config_handler_def sample_config_def Add_def New_def BroadcastFunction_def Let_def ListNodes_def)

section \<open>A management process\<close>

text \<open>Everything of the process succeeds, and it listens in vain.\<close>

definition sample_process :: "daemon process" where
  "sample_process =
     \<lparr>pr_getenv = (\<lambda>k. if k = ''coap_PORT'' then ''-1'' else []), pr_backend = None, pr_id = ''id'', pr_docker = None,
      pr_tmp = ''/tmp'', RProxyBin = ''ELF'', pr_StdoutPipe = (\<lambda>d. (None, d)), pr_StderrPipe = (\<lambda>d. (None, d)),
      pr_Start = (\<lambda>b args d. (Inr 42, d)), pr_Kill = (\<lambda>p d. (None, d)),
      pr_Listen = (\<lambda>a d. (Some ''address in use'', d))\<rparr>"

lemma sample_process_quiet: "process_quiet sample_process (sample_docker room res) V"
  by (simp add: process_quiet_def sample_process_def sample_docker_def sample_files_def still_ext_def)

lemma sample_networks: "networks_removable (de_client (sample_docker room res))"
  by (simp add: networks_removable_def sample_docker_def sample_client_def split: prod.splits)

lemma sample_ports:
  "read_ports (pr_getenv sample_process) [''grpc'', ''coap'', ''http''] default_ports = Inr (default_ports(''coap'' := None))"
proof -
  have "Atoi ''-1'' = Some (- 1)" by code_simp
  then show ?thesis by (simp add: sample_process_def default_ports_def)
qed

lemma sample_backend: "find_backend sample_process de = Inr (docker_backend de ''id'')"
  by (simp add: find_backend_def docker_New_def sample_process_def)

lemma sample_child: "start_rproxy sample_process (de_fs (sample_docker room res)) ports po d = (Inr 42, d)"
  by (simp add: start_rproxy_def or_fatal_def sample_process_def sample_docker_def sample_files_def Let_def)

definition uploaded_handler :: docker_handler where
  "uploaded_handler = (new_handler ''f'' ''go'' 1 ''u'')
     \<lparr>dh_network := fresh_id [], dh_containers := [fresh_id []], handlerIPs := [''172.18.0.2'']\<rparr>"

lemma sample_upload:
  "\<exists>res. Upload (docker_node (sample_docker True (Inr (200, Some ''OK''))) ''id'') [] ''f'' ''go'' 1 ''UEs='' Map.empty
      (New_manager [] Map.empty 8081, [], [], [], []) =
    (res, (New_manager [] Map.empty 8081)\<lparr>functionHandlers := [''f'' \<mapsto> 0]\<rparr>, [uploaded_handler],
     [fresh_id []], [fresh_id []], [''f-u''])"
proof -
  have f: "list_all (\<lambda>c. is_lower c \<or> is_upper c \<or> is_digit c) ''f''" by (simp add: is_lower_def code_of_def)
  have d: "DecodeString ''UEs='' = Some ''PK''" by code_simp
  show ?thesis
    by (simp add: Upload_def d createFunction_def install_def tell_rproxy_def docker_node_def docker_backend_def lift_ext_def
        lift_files_def over_def docker_Create_def get_or_fail_def or_fail_def prepare_folder_def build_image_def
        provision_def create_containers_def new_handler_def sample_docker_def sample_client_def sample_files_def
        still_ext_def docker_Start_def New_manager_def IsAlphaNumeric_def f [simplified] Let_def upt_rec ready_def
        maxRetries_def cleanup_def uploaded_handler_def eval_nat_numeral)
qed

text \<open>A daemon that reports a missing network, behind a reverse proxy that does not answer.\<close>

definition strict_docker :: "daemon docker_env" where
  "strict_docker = (sample_docker True (Inl (Transport ''refused'')))\<lparr>de_client := (sample_client True)
     \<lparr>dc_NetworkRemove := (\<lambda>n (cs, ns, is). if n \<in> set ns then (None, cs, removeAll n ns, is)
        else (Some ''no such network'', cs, ns, is))\<rparr>\<rparr>"

lemma strict_laws: "daemon_laws strict_docker daemon_state"
  by (auto simp: daemon_laws_def quiet_ops_def creations_def removals_def same_def strict_docker_def sample_docker_def
      sample_client_def sample_files_def still_ext_def daemon_state_def fresh_id_new Let_def
      split: if_splits)

lemma strict_removable: "containers_removable (de_client strict_docker)"
  by (simp add: containers_removable_def strict_docker_def sample_client_def split: prod.splits)

lemma strict_quiet: "process_quiet sample_process strict_docker V"
  by (simp add: process_quiet_def sample_process_def strict_docker_def sample_docker_def sample_files_def still_ext_def)

lemma strict_missing: "missing_networks_fail (de_client strict_docker) daemon_state"
  by (auto simp: missing_networks_fail_def strict_docker_def daemon_state_def split: prod.splits)

end
