(* ===== verification/Spec2Isabelle.thy ===== *)
theory Spec2Isabelle
  imports Samples Samples_Node
begin

text \<open>
  tinyFaaS-ext runs functions on a small cluster whose workers a leader switches on and off
  through relays. The code is Go, under \<^verbatim>\<open>src/tinyFaaS-ext\<close>; paths below are relative to it.

  The parts and how they interact. On the leader, the process of \<^verbatim>\<open>cmd/rproxy\<close> takes requests
  over HTTP (\<^verbatim>\<open>pkg/http\<close>), picks a node (\<^verbatim>\<open>pkg/cluster/scheduler.go\<close>), has the registry
  (\<^verbatim>\<open>registry.go\<close>) wake it through the relay controller (\<^verbatim>\<open>tinkerforgefunc\<close>), and calls the
  function there: on the node itself through its reverse proxy (\<^verbatim>\<open>pkg/rproxy\<close>), elsewhere by
  forwarding. A loop beside it (\<^verbatim>\<open>controller.go\<close>) recovers dead nodes and powers idle ones off.
  On every node the process of \<^verbatim>\<open>cmd/manager\<close> runs the management service (\<^verbatim>\<open>pkg/manager\<close>), which
  creates and deletes functions on a backend and tells the reverse proxy about them; the
  reverse proxy stores the definitions and passes them on to the nodes.

  Theories and what they model:
    \<^item> \<open>Go_Prelude\<close>, \<open>Go_Std\<close>, \<open>Go_Base64\<close>, \<open>Go_Http\<close>: what the program uses of Go. Panics are
      values of \<open>call\<close>; \<open>int\<close> wraps at 64 bits; the order in which a range loop meets a map is
      an argument, bound by \<open>range_order\<close>; durations are nanoseconds, parsed as Go does.
    \<^item> \<open>Cluster_Types\<close> (\<^verbatim>\<open>types.go\<close>), \<open>Function_Store\<close> (\<^verbatim>\<open>functions.go\<close>), \<open>Scheduler\<close>
      (\<^verbatim>\<open>scheduler.go\<close>), \<open>Cluster_Config\<close> (\<^verbatim>\<open>config.go\<close> and the time-outs of \<^verbatim>\<open>registry.go\<close>),
      \<open>Relay\<close> (\<^verbatim>\<open>tinkerforgefunc/main.go\<close>), \<open>Registry\<close> and \<open>Registry_Facts\<close> (\<^verbatim>\<open>registry.go\<close>),
      \<open>Controller\<close> (\<^verbatim>\<open>controller.go\<close>), \<open>RProxy\<close> (\<^verbatim>\<open>pkg/rproxy\<close>), \<open>Http_Front\<close> (\<^verbatim>\<open>pkg/http\<close>).
      Each has the state as a record, one definition per function of the source under the
      source's name, and the lemmas on it. The world (relays, HTTP, clock) is the record
      \<open>ext\<close> over a state of any type, passed through explicitly.
    \<^item> \<open>Power_Agreement\<close>: the invariant between statuses and relays, proved once in a locale
      and interpreted on the relay controller.
    \<^item> \<open>Interleaving\<close>: requests and the scale-down loop as atomic steps, one per critical
      section or external call, and what their interleavings reach.
    \<^item> \<open>Leader_Main\<close> (\<^verbatim>\<open>cmd/rproxy/main.go\<close>): arguments, start-up, the configuration endpoint,
      and the steps of the running leader.
    \<^item> \<open>Manager\<close>, \<open>Manager_Facts\<close> (\<^verbatim>\<open>pkg/manager\<close>, \<^verbatim>\<open>pkg/util/name.go\<close>) and \<open>Mgmt_Api\<close>
      (\<^verbatim>\<open>cmd/manager/main.go\<close>): the management service and its HTTP handlers.
    \<^item> \<open>Backend_Contract\<close>: what the management service relies on in a backend, and what its
      operations keep on every backend that keeps the contract.
    \<^item> \<open>Docker\<close> and \<open>Docker_Facts\<close> (\<^verbatim>\<open>pkg/docker/handler.go\<close>): the backend that runs functions in
      containers, over a record of the daemon's client; a handler is a reference into a list.
    \<^item> \<open>Coap_Grpc\<close> (\<^verbatim>\<open>pkg/coap\<close>, \<^verbatim>\<open>pkg/grpc/grpc.go\<close>): the two front ends that do not schedule.
    \<^item> \<open>Util_Fs\<close> and \<open>Path_Facts\<close> (\<^verbatim>\<open>pkg/util/zip.go\<close>, \<^verbatim>\<open>copy.go\<close>, \<^verbatim>\<open>copyembed.go\<close>): unpacking and
      copying over a record of the operating system's calls, and where paths lead.
    \<^item> \<open>Go_Float\<close>, \<open>Wiring\<close> and \<open>Wiring_Facts\<close> (\<^verbatim>\<open>cmd/verify-wiring/main.go\<close>): the check of
      relays, addresses and energy bricklets, in double precision.
    \<^item> \<open>Function_Runtime\<close> (\<^verbatim>\<open>pkg/docker/runtimes/go\<close>, \<^verbatim>\<open>binary\<close>): the servers inside a container,
      and their answers on the way back through reverse proxy and front end.
    \<^item> \<open>Node_Main\<close> (\<^verbatim>\<open>func main\<close> of \<^verbatim>\<open>cmd/manager/main.go\<close>): start, server and interrupt of the
      management process, over a record of what it does to other processes.
    \<^item> \<open>Samples\<close> and \<open>Samples_Node\<close>: concrete worlds and states on which the witnesses evaluate.

  Interfaces. \<open>keyed_store\<close> is the contract of a map behind a put and a delete: the function
  store, the node table and the reverse proxy's hosts are its instances. \<open>power_controller\<close> is
  the contract behind the \<open>PowerController\<close> interface, with the relay controller as its
  instance; \<open>power_world\<close> extends it to a whole world, with the leader's as its instance.
  \<open>function_node\<close> is the contract of the \<open>Backend\<close> and \<open>Handler\<close> interfaces of the management
  service, with the Docker backend as its instance.

  Properties, by section. Relays and statuses: in every run of the leader the relays agree with
  the recorded statuses, and where recovery breaks this. Scheduling: the scheduler against its
  specification. Waking: the result of a wake, and the equivalence of its atomic steps with
  \<open>ActivateNode\<close>; of its interleavings, what holds in all of them and what goes wrong in some.
  Invocations, scale-down and recovery, topologies, functions on the leader: what each
  operation does, on every path. The management service: creation and reaper, and the way of a
  definition from node to node. Docker: the life of a handler, what failures
  leave behind, and the ownership of handlers through every operation of the service. The
  other front ends, the wiring check and archives: agreement, termination, what a clean report
  means, and where files are written. Containers and the management process: what a client is
  answered when a function returns or fails, and what a start, an interrupt and a deletion that
  fails half way leave on the daemon.

  Bounds. A request that runs alone is finished after nine steps, and the carrier of an
  activation after seven: both are proved for the step function, so no fuel is assumed.
  Loops over lists are structural; polling recurses over the number of attempts. Three loops
  may run for ever and are partial functions into \<open>option\<close>: the wiring check's, which is
  proved to end when the clock goes forward, and the two recursions that copy trees.

  Not modelled. Listening on sockets and logging are I/O; other processes are a parameter. The
  goroutines that deploy or broadcast functions are run one after the other, since they share
  nothing but the counter of failures; only activation and scale-down interleave. JSON
  encoders and decoders, the UUID generator, the file system and the bricklet's API are
  arguments. Locks appear as the atomicity of a step; the read of the reverse proxy's hosts
  without a lock is a data race, which has no meaning in Go's memory model and none here.
  Of \<^verbatim>\<open>cmd/manager/main.go\<close>, copying the output of the reverse proxy to the terminal is
  left out; of the function runtimes, those in Python and JavaScript. The gRPC bindings are generated, and the files that embed binaries hold no code.
  A build of an image that fails in its output stream is a successful build for the code and
  for the model. Containers are started and destroyed one after the other. The safety time-out
  of a follower, five minutes, ends its wait in \<open>ActivateNode\<close>; among the interleaved steps a
  follower waits until its activation is closed.
\<close>

section \<open>Relays and statuses\<close>



text \<open>
  C13: a successful switch moves the physical outlet it names and no other outlet, and
  the positions the controller records stay the physical ones.
\<close>

theorem switch_moves_one_outlet:
  assumes "hw_laws hw pos" and "synced pos (t, h)"
    and "setChannel hw uid ch on (t, h) = (None, t', h')"
  shows "synced pos (t', h') \<and>
    pos h' (relayOrDefault uid (tf_defaultUID t)) = set_position ch on (pos h (relayOrDefault uid (tf_defaultUID t))) \<and>
    (\<forall>v. v \<noteq> relayOrDefault uid (tf_defaultUID t) \<longrightarrow> pos h' v = pos h v)"
  using setChannel_physical [OF assms] by simp

theorem switch_moves_one_outlet_witness:
  "\<exists>t' h'. setChannel sample_hw ''A'' 1 True (NewTinkerforgeController ''h'' 1 ''D'', \<lambda>_. (False, False)) =
     (None, t', h') \<and> h' ''A'' = (False, True) \<and> h' ''B'' = (False, False)"
proof -
  let ?t = "NewTinkerforgeController ''h'' 1 ''D''"
  obtain t' h' where s: "setChannel sample_hw ''A'' 1 True (?t, \<lambda>_. (False, False)) = (None, t', h')"
    by (simp add: setChannel_def readState_def writeState_def withRelay_def write_next_def
        sample_hw_def NewTinkerforgeController_def relayOrDefault_def ChannelsPerRelay_def Let_def)
  have "hw_laws sample_hw (\<lambda>h. h)" by (simp add: hw_laws_def sample_hw_def)
  moreover have "synced (\<lambda>h. h) (?t, \<lambda>_. (False, False))"
    by (simp add: synced_def NewTinkerforgeController_def)
  ultimately have "h' ''A'' = (False, True) \<and> h' ''B'' = (False, False)"
    using switch_moves_one_outlet [OF _ _ s, of "\<lambda>h. h"]
    by (simp add: relayOrDefault_def set_position_def)
  with s show ?thesis by blast
qed



section \<open>Scheduling\<close>

text \<open>
  C3: the scheduler's single pass computes its specification. It answers with a member of
  the list that is alive and not dispatch-only, of the best class there is (active below
  the threshold, then asleep, then saturated, then in transition), and of the least load
  within the class of an active one; it answers with none only when no node is eligible.
\<close>

theorem pick_node_is_best:
  "PickNode ns thr = (case pick_spec ns thr of Some n \<Rightarrow> (n, True) | None \<Rightarrow> (zero_node, False)) \<and>
   (if snd (PickNode ns thr) then best_pick thr ns (fst (PickNode ns thr))
    else list_all (\<lambda>n. \<not> eligible n) ns)"
  using pick_spec_best [of ns thr] pick_spec_None [of ns thr]
  by (cases "pick_spec ns thr") (simp_all add: PickNode_eq_spec list_all_iff)

section \<open>Waking a node\<close>

text \<open>
  C5: the request that wakes a node gets the result of the wake, leaves the activation
  closed and out of the map, and leaves the node with the status that belongs to the
  result: active for success, sleeping when an incomplete deployment could be powered off
  again, dead otherwise. Nothing else of the node table changes.
\<close>

theorem wake_result:
  assumes "nodes r i = Some n" and "Status n \<noteq> NodeActive" and "Status n \<noteq> NodeWaking"
    and "ActivateNode e p i (r, w) = (c, r', w')"
  shows "\<exists>err t. c = Return err \<and> activations r' i = None \<and> act_err r' (next_act r) = Some err \<and>
     nodes r' = (nodes r)(i \<mapsto> n\<lparr>Status := status_after err,
                                DeadSince := (if status_after err = NodeDead then t else 0)\<rparr>)"
  using ActivateNode_lead_result [OF assms] by blast

theorem wake_result_witness:
  "\<exists>c r' w'. ActivateNode dark_ext sample_params ''w'' (one_node worker_node, 5) = (c, r', w') \<and>
    (\<exists>err. c = Return err \<and> activations r' ''w'' = None)"
proof -
  obtain c r' w' where act: "ActivateNode dark_ext sample_params ''w'' (one_node worker_node, 5) = (c, r', w')"
    using prod_cases3 by blast
  have n: "nodes (one_node worker_node) ''w'' = Some worker_node" by (simp add: node_defs)
  show ?thesis
    using wake_result [OF n _ _ act] act by (auto simp: node_defs)
qed

text \<open>
  C20: a request that woke a node and got no error found every function of the store
  accepted by that node's management service: for each there is a post of its complete
  definition that was answered with 200.
\<close>

theorem wake_deploys_everything:
  assumes "nodes r i = Some n" and "Status n \<noteq> NodeActive" and "Status n \<noteq> NodeWaking"
    and "range_order (funcs (reg_funcs r)) (func_order p)"
    and "ActivateNode (log_posts e) p i (r, w, l) = (Return None, r', w', l')"
    and "funcs (reg_funcs r) name = Some def"
  shows "deployed p (ManagerAddress n) name def l'"
proof -
  let ?r1 = "r\<lparr>activations := (activations r)(i \<mapsto> next_act r), next_act := next_act r + 1,
             nodes := (nodes r)(i \<mapsto> n\<lparr>Status := NodeWaking\<rparr>)\<rparr>"
  obtain err r2 w2 l2 where wk:
    "wakeNode (log_posts e) p i (RelayUID n) (Channel n) (ManagerAddress n) (?r1, w, l) = (err, r2, w2, l2)"
    using prod_cases4 by blast
  then have "err = None" "l2 = l'"
    using ActivateNode_lead [OF assms(1-3), of "log_posts e" p "(w, l)"] assms(5) by auto
  then show ?thesis using wakeNode_deploys [of e p i _ _ _ ?r1] wk assms(4,6) by simp
qed

theorem wake_deploys_everything_witness:
  "\<exists>r' w' l'. ActivateNode (log_posts good_ext)
      (sample_params\<lparr>func_order := [''f'']\<rparr>) ''w''
      (set_funcs (store_Set ''f'' \<lparr>fd_env = ''python3'', fd_threads = 1, fd_envs = Map.empty, fd_zip = ''z''\<rparr>)
        (one_node worker_node), 0, []) = (Return None, r', w', l') \<and>
    deployed (sample_params\<lparr>func_order := [''f'']\<rparr>) ''10.0.0.2:8080'' ''f''
      \<lparr>fd_env = ''python3'', fd_threads = 1, fd_envs = Map.empty, fd_zip = ''z''\<rparr> l'"
proof -
  let ?f = "\<lparr>fd_env = ''python3'', fd_threads = 1, fd_envs = Map.empty, fd_zip = ''z''\<rparr>"
  let ?p = "sample_params\<lparr>func_order := [''f'']\<rparr>"
  let ?r = "set_funcs (store_Set ''f'' ?f) (one_node worker_node)"
  have n: "nodes ?r ''w'' = Some worker_node" by (simp add: node_defs)
  have ord: "range_order (funcs (reg_funcs ?r)) (func_order ?p)"
    by (simp add: range_order_def store_Set_def NewFunctionStore_def)
  have f: "funcs (reg_funcs ?r) ''f'' = Some ?f" by (simp add: store_Set_def)
  obtain r' w' l' where act: "ActivateNode (log_posts good_ext) ?p ''w'' (?r, 0, []) = (Return None, r', w', l')"
    using ActivateNode_lead [OF n, of "log_posts good_ext" ?p "(0, [])"]
    by (simp add: node_defs wakeNode_def waitForNodeReady_def deployFunctions_def deployFunction_def
        log_posts_def good_ext_def sample_params_def store_Set_def set_funcs_def store_All_def)
  have "deployed ?p (ManagerAddress worker_node) ''f'' ?f l'"
    by (rule wake_deploys_everything [OF n _ _ ord act f]) (simp_all add: node_defs)
  then show ?thesis using act by (auto simp: node_defs)
qed



section \<open>Concurrent wakes\<close>

text \<open>
  C4: without recovery of dead nodes, at most one request at a time runs the wake of a
  node, whatever the interleaving of requests and scale-down.
\<close>

theorem one_waker_per_node:
  assumes "at_rest c" and "reach False e p cfg tgt c c'"
  shows "single_waker tgt c'"
  using wake_inv_reach [OF assms(2) wake_inv_start [OF assms(1)]] by (simp add: wake_inv_def)

theorem one_waker_per_node_witness:
  "\<exists>c'. reach False good_ext sample_params DefaultControllerConfig (\<lambda>_. ''w'')
      (one_node worker_node, 0, \<lambda>_. Ready, LoopIdle) c' \<and>
    c' \<noteq> (one_node worker_node, 0, \<lambda>_. Ready, LoopIdle) \<and> single_waker (\<lambda>_. ''w'') c'"
proof -
  let ?c = "(one_node worker_node, 0, \<lambda>_. Ready, LoopIdle) :: int config"
  have r: "reach False good_ext sample_params DefaultControllerConfig (\<lambda>_. ''w'') ?c
      (woken, 0, (\<lambda>_. Ready)(7 := PoweringOn 0 [] 0 ''10.0.0.2:8080''), LoopIdle)"
    by (rule reach_request [OF reach_refl, where t = 7]) (simp add: worker_begin)
  have "at_rest ?c" by (rule one_node_rest) (simp add: node_defs)
  from one_waker_per_node [OF this r] show ?thesis
    using r by (intro exI conjI) (auto simp: fun_eq_iff)
qed

text \<open>
  C6: no follower is left behind, with or without recovery: a request that waits for an
  activation which is still open has a request on the same node that carries it, and seven
  steps of that request close it with a result.
\<close>

theorem followers_are_answered:
  assumes "at_rest c" and "reach rec e p cfg tgt c (r, w, pcs, lp)"
    and "pcs t = Waiting (Some a)" and "act_err r a = None"
  shows "\<exists>t' res r' w'. tgt t' = tgt t \<and> carries (pcs t') = Some a \<and>
    solo e p (tgt t') 7 (pcs t') (r, w) = (answer res, r', w') \<and> act_err r' a = Some res"
proof -
  have "wait_inv tgt (r, w, pcs, lp)"
    using wait_inv_reach [OF assms(2) wait_inv_start [OF assms(1)]] .
  then have "act_err r a \<noteq> None \<or> (\<exists>t'. tgt t' = tgt t \<and> carries (pcs t') = Some a)"
    using assms(3) unfolding wait_inv_def by blast
  then obtain t' where t': "tgt t' = tgt t" "carries (pcs t') = Some a"
    using assms(4) by blast
  have "steps_left (pcs t') \<le> 7" by (cases "pcs t'") simp_all
  from carries_closes [OF t'(2) this, of e p "tgt t'" r w] show ?thesis using t' by blast
qed

theorem followers_are_answered_witness:
  "\<exists>r (pcs :: nat \<Rightarrow> pc). pcs 2 = Waiting (Some 0) \<and>
    reach True good_ext sample_params DefaultControllerConfig (\<lambda>_. ''w'')
      (one_node worker_node, 0, \<lambda>_. Ready, LoopIdle) (r, 0, pcs, LoopIdle) \<and>
    (\<exists>t'. carries (pcs t') = Some 0)"
proof -
  let ?c = "(one_node worker_node, 0, \<lambda>_. Ready, LoopIdle) :: int config"
  let ?R = "reach True good_ext sample_params DefaultControllerConfig (\<lambda>_. ''w'') ?c"
  let ?on = "PoweringOn 0 [] 0 ''10.0.0.2:8080''"
  have "?R (woken, 0, (\<lambda>_. Ready)(1 := ?on), LoopIdle)"
    by (rule reach_request [OF reach_refl, where t = 1]) (simp add: worker_begin)
  then have run: "?R (woken, 0, (\<lambda>_. Ready)(1 := ?on, 2 := Waiting (Some 0)), LoopIdle)"
    by (rule reach_request [where t = 2]) (simp add: activate_begin_def)
  have "at_rest ?c" by (rule one_node_rest) (simp add: node_defs)
  then have "\<exists>t'. carries (((\<lambda>_ :: nat. Ready)(1 := ?on, 2 := Waiting (Some 0))) t') = Some 0"
    using followers_are_answered [OF _ run, of 2 0] by auto
  with run show ?thesis
    by (intro exI [of _ woken] exI [of _ "(\<lambda>_. Ready)(1 := ?on, 2 := Waiting (Some 0))"]) simp
qed

text \<open>
  C32: whenever a relay cannot be switched on, there is an interleaving of three requests
  for its node in which the third one panics on a nil activation.
\<close>

theorem failed_wake_can_panic:
  assumes "at_rest (r, w, pcs, lp)" and "nodes r i = Some n" and "Status n \<noteq> NodeActive"
    and "PowerOn e (RelayUID n) (Channel n) w = (Some err, w1)"
    and "tgt t0 = i" "tgt t1 = i" "tgt t2 = i" and "distinct [t0, t1, t2]"
  shows "\<exists>r' w' pcs' lp'. reach rec e p cfg tgt (r, w, pcs, lp) (r', w', pcs', lp') \<and>
    pcs' t2 = Crashed NilDereference"
  by (rule panic_reachable) (fact assms)+

theorem failed_wake_can_panic_witness:
  "\<exists>r' w' pcs' lp'. reach True dark_ext sample_params DefaultControllerConfig (\<lambda>_. ''w'')
      (one_node worker_node, 0, \<lambda>_. Ready, LoopIdle) (r', w', pcs', lp') \<and>
    pcs' 2 = Crashed NilDereference"
  by (rule failed_wake_can_panic [where i = "''w''" and n = worker_node and ?t0.0 = 0 and ?t1.0 = 1])
    (simp_all add: one_node_rest node_defs ext_defs)



text \<open>
  C34: a node can be powered off while it serves a request: with an idle active node above
  the floor, there is an interleaving in which a request holds the node, its load is one,
  and the loop has switched its relay off and recorded it as sleeping.
\<close>

theorem busy_node_powered_off:
  assumes "at_rest (r, w, pcs, lp)" and "Enabled cfg"
    and "nodes r i = Some n" "Status n = NodeActive" "\<not> Local n" "Load n = 0"
    and "\<forall>m \<in> set (ListNodes (i # ks) r). Status m \<noteq> NodeDead"
    and "range_order (nodes r) (i # ks)"
    and "MinActiveNodes cfg < count_if (\<lambda>n. Status n = NodeActive \<and> \<not> DispatchOnly n)
      (ListNodes (i # ks) r)"
    and "IdleTimeout cfg \<le> time_sub (Now e w) (LastUsed n)"
    and "PowerOff e (RelayUID n) (Channel n) w = (None, w1)"
    and "tgt t0 = i"
  shows "\<exists>r' pcs' lp' m. reach True e p cfg tgt (r, w, pcs, lp) (r', w1, pcs', lp') \<and>
    pcs' t0 = Serving \<and> nodes r' i = Some m \<and> Load m = 1 \<and> Status m = NodeSleeping"
  by (rule busy_node_off) (fact assms)+

theorem busy_node_powered_off_witness:
  "\<exists>r' pcs' lp' m. reach True good_ext sample_params DefaultControllerConfig (\<lambda>_. ''w'')
      (two_nodes (worker_node\<lparr>Status := NodeActive\<rparr>) head_node, 600000000000, \<lambda>_. Ready, LoopIdle)
      (r', 600000000000, pcs', lp') \<and>
    pcs' 0 = Serving \<and> nodes r' ''w'' = Some m \<and> Load m = 1 \<and> Status m = NodeSleeping"
proof (rule busy_node_powered_off [where n = "worker_node\<lparr>Status := NodeActive\<rparr>" and ks = "[''l'']"])
  show "range_order (nodes (two_nodes (worker_node\<lparr>Status := NodeActive\<rparr>) head_node)) [''w'', ''l'']"
    using two_nodes_order [of "worker_node\<lparr>Status := NodeActive\<rparr>" head_node] by (simp add: node_defs)
qed (simp_all add: two_nodes_rest node_defs ext_defs DefaultControllerConfig_def ListNodes_def
      time_sub_def sat64_def min_int64_def max_int64_def Minute_def Second_def)

section \<open>Invocations\<close>

text \<open>
  C12: whatever becomes of a request (an answer, an error on any path, a panic in the
  local call), the load of every node is after it what it was before it.
\<close>

theorem invocation_restores_loads:
  assumes "loads_ok reg" and "serve e p thr c req (rp, reg, w) = (out, rp', reg', w')"
  shows "load_of reg' = load_of reg"
  by (rule serve_load [OF assms])

theorem invocation_restores_loads_witness:
  "\<exists>out rp' reg' w'. serve good_ext sample_params 10 (sample_choices [''w'']) sample_request
      (New, one_node worker_node, 0) = (out, rp', reg', w') \<and> load_of reg' ''w'' = Some 0"
proof -
  obtain out rp' reg' w' where s: "serve good_ext sample_params 10 (sample_choices [''w'']) sample_request
      (New, one_node worker_node, 0) = (out, rp', reg', w')"
    using prod_cases4 by blast
  have "loads_ok (one_node worker_node)"
    by (auto simp: loads_ok_def load_of_def node_defs max_int64_def)
  from invocation_restores_loads [OF this s] have "load_of reg' ''w'' = load_of (one_node worker_node) ''w''"
    by simp
  also have "\<dots> = Some 0" by (simp add: load_of_def node_defs)
  finally show ?thesis using s by blast
qed

section \<open>The scale-down loop\<close>

text \<open>
  C11: a round of the loop does not take the number of executing nodes below the floor:
  what is active after it is at least the smaller of the floor and what was active when
  the round counted.
\<close>

theorem round_keeps_floor:
  fixes rw :: "registry \<times> 'w"
  defines "rw2 e cfg ks \<equiv> RecoverDead e (DeadRetry cfg) (fst ks) (fst rw, Sleep e (CheckInterval cfg) (snd rw))"
  assumes "distinct (snd ks)"
  shows "min (executing_count (snd ks) (fst (rw2 e cfg ks))) (MinActiveNodes cfg) \<le>
    executing_count (snd ks) (fst (controller_round e cfg ks rw))"
proof -
  obtain r2 w2 where r2: "rw2 e cfg ks = (r2, w2)" by fastforce
  obtain a' rw' where sd: "scale_down e cfg (ListNodes (snd ks) r2) (executing_count (snd ks) r2) (r2, w2) = (a', rw')"
    by (meson surj_pair)
  have "controller_round e cfg ks rw = rw'"
    using r2 sd unfolding rw2_def controller_round_def executing_count_def executing_def
    by (simp add: Let_def)
  then show ?thesis
    using scale_down_floor [OF sd assms(2) order_refl] r2 by simp
qed

theorem round_keeps_floor_witness:
  "min (executing_count [''w'', ''v''] (fst (RecoverDead good_ext (DeadRetry DefaultControllerConfig) [''w'', ''v'']
        (two_nodes (worker_node\<lparr>Status := NodeActive\<rparr>) (second_worker\<lparr>Status := NodeActive\<rparr>),
         Sleep good_ext (CheckInterval DefaultControllerConfig) 0))))
     (MinActiveNodes DefaultControllerConfig) \<le>
   executing_count [''w'', ''v''] (fst (controller_round good_ext DefaultControllerConfig
     ([''w'', ''v''], [''w'', ''v''])
     (two_nodes (worker_node\<lparr>Status := NodeActive\<rparr>) (second_worker\<lparr>Status := NodeActive\<rparr>), 0)))"
  using round_keeps_floor [of "([''w'', ''v''], [''w'', ''v''])" good_ext DefaultControllerConfig
      "(two_nodes (worker_node\<lparr>Status := NodeActive\<rparr>) (second_worker\<lparr>Status := NodeActive\<rparr>), 0)"]
  by simp

text \<open>
  C21: scale-down changes a node only if the snapshot has it remote, active, without load
  and idle for the time-out, and then it sets its status to sleeping and nothing else.
\<close>

theorem scale_down_is_careful:
  assumes "scale_down e cfg ns a (r, w) = (a', r', w')" and "clock_mono e" and "nodes r' i \<noteq> nodes r i"
  shows "\<exists>n m. n \<in> set ns \<and> ID n = i \<and> may_sleep n \<and> idle_at cfg (Now e w') n \<and>
    nodes r i = Some m \<and> \<not> Local m \<and> nodes r' i = Some (m\<lparr>Status := NodeSleeping, DeadSince := 0\<rparr>)"
  using scale_down_touches [OF assms(1,2), of i] assms(3) by blast

theorem scale_down_is_careful_witness:
  "\<exists>a' r' w'. scale_down good_ext DefaultControllerConfig [worker_node\<lparr>Status := NodeActive\<rparr>] 2
      (one_node (worker_node\<lparr>Status := NodeActive\<rparr>), 600000000000) = (a', r', w') \<and>
    nodes r' ''w'' = Some worker_node"
proof -
  let ?n = "worker_node\<lparr>Status := NodeActive\<rparr>"
  obtain a' r' w' where s: "scale_down good_ext DefaultControllerConfig [?n] 2 (one_node ?n, 600000000000) = (a', r', w')"
    using prod_cases3 by blast
  have "r' = SetStatus ''w'' NodeSleeping 600000000000 (one_node ?n)"
    using s by (simp add: DeactivateNode_def node_defs ext_defs DefaultControllerConfig_def time_sub_def
        sat64_def min_int64_def max_int64_def Minute_def Second_def)
  then have ne: "nodes r' ''w'' \<noteq> nodes (one_node ?n) ''w''"
    by (simp add: nodes_SetStatus node_defs)
  have mono: "clock_mono good_ext" by (simp add: clock_mono_def ext_defs)
  obtain m where m: "nodes (one_node ?n) ''w'' = Some m"
    "nodes r' ''w'' = Some (m\<lparr>Status := NodeSleeping, DeadSince := 0\<rparr>)"
    using scale_down_is_careful [OF s mono ne] by blast
  moreover have "nodes (one_node ?n) ''w'' = Some ?n" by (simp add: node_defs)
  ultimately have "nodes r' ''w'' = Some (?n\<lparr>Status := NodeSleeping, DeadSince := 0\<rparr>)" by simp
  also have "?n\<lparr>Status := NodeSleeping, DeadSince := 0\<rparr> = worker_node" by (simp add: node_defs)
  finally have "nodes r' ''w'' = Some worker_node" .
  with s show ?thesis by blast
qed



text \<open>
  C23: recovery leaves every node that is not dead alone; a dead node becomes active when
  its health check answers, sleeping when it does not and the cooldown has passed, and
  stays dead otherwise.
\<close>

theorem recovery_of_each_node:
  assumes "keyed r" and "range_order (nodes r) ks" and "nodes r i = Some n"
  shows "\<exists>n'. nodes (fst (RecoverDead e cd ks (r, w))) i = Some n' \<and>
    (if Status n = NodeDead then recovered e cd n n' else n' = n)"
  by (rule RecoverDead_nodes [OF assms])

theorem recovery_of_each_node_witness:
  "\<exists>n'. nodes (fst (RecoverDead good_ext 5 [''w''] (one_node (worker_node\<lparr>Status := NodeDead\<rparr>), 0))) ''w'' = Some n' \<and>
    recovered good_ext 5 (worker_node\<lparr>Status := NodeDead\<rparr>) n'"
  using recovery_of_each_node [OF one_node_keyed, of "worker_node\<lparr>Status := NodeDead\<rparr>" "[''w'']" "''w''"
      "worker_node\<lparr>Status := NodeDead\<rparr>" good_ext 5 0]
  by (simp add: range_order_def node_defs)

section \<open>Topologies and configuration\<close>

text \<open>
  C14: a topology file is accepted exactly when it can be read and decoded and, with the
  default statuses filled in, has distinct non-empty IDs, one local node, a node that may
  run functions, and workers that have addresses, a channel the relay has, and outlets of
  their own.
\<close>

theorem load_nodes_accepts_valid_topologies:
  "LoadNodes data unmarshal = Inr ns \<longleftrightarrow>
     (\<exists>bytes parsed. data = Inr bytes \<and> unmarshal bytes = Inr parsed \<and>
        ns = map default_status parsed \<and> valid_topology ns)"
  by (rule LoadNodes_Inr)

section \<open>Functions on the leader\<close>



section \<open>The management service\<close>

text \<open>
  C10: the upload that one node posts to another reaches \<open>createFunction\<close> there with the
  very definition it was made from: name, environment, threads, archive and variables, so
  long as no variable's name has an equals sign.
\<close>

theorem upload_reaches_the_other_node:
  assumes "range_order (fd_envs def) eo" and "\<forall>k \<in> dom (fd_envs def). CHR ''='' \<notin> set k"
    and "decode body = Some (upload_of eo name def)"
  shows "uploadHandler v po decode MethodPost body mw =
    (case createFunction v name (fd_env def) (fd_threads def) (fd_zip def) [] (fd_envs def) mw of
       (Panic x, mw1) \<Rightarrow> (Panic x, mw1)
     | (Return (Inl err), mw1) \<Rightarrow> (reply HTTP_InternalServerError [], mw1)
     | (Return (Inr n), mw1) \<Rightarrow> (reply HTTP_OK (endpoints (fst mw1) po n), mw1))"
  using assms by (rule upload_roundtrip)

theorem upload_reaches_the_other_node_witness:
  "let def = \<lparr>fd_env = ''go'', fd_threads = 2, fd_envs = [''K'' \<mapsto> ''a=b''], fd_zip = ''PK''\<rparr> in
   uploadHandler (sample_env None (Inr (200, Some ''OK''))) [] (\<lambda>_. Some (upload_of [''K''] ''f'' def)) MethodPost []
     (sample_manager, 0) =
    (case createFunction (sample_env None (Inr (200, Some ''OK''))) ''f'' ''go'' 2 ''PK'' [] [''K'' \<mapsto> ''a=b'']
       (sample_manager, 0) of
       (Panic x, mw1) \<Rightarrow> (Panic x, mw1)
     | (Return (Inl err), mw1) \<Rightarrow> (reply HTTP_InternalServerError [], mw1)
     | (Return (Inr n), mw1) \<Rightarrow> (reply HTTP_OK (endpoints (fst mw1) [] n), mw1))"
  unfolding Let_def
  by (subst upload_reaches_the_other_node [where name = "''f''" and eo = "[''K'']"
        and def = "\<lparr>fd_env = ''go'', fd_threads = 2, fd_envs = [''K'' \<mapsto> ''a=b''], fd_zip = ''PK''\<rparr>"])
    (simp_all add: range_order_def)

text \<open>
  C18: a creation that succeeds has an alphanumeric name, created and started a handler,
  had the reverse proxy accept its addresses together with the whole definition, and only
  then destroyed the handler it replaces; the table has the new handler and is otherwise
  unchanged.
\<close>

theorem creation_replaces_the_handler:
  assumes "createFunction v name fenv threads z sub envs (ms, w) = (Return (Inr n), ms', w')"
  shows "n = name \<and> IsAlphaNumeric name \<and>
    (\<exists>p fh w0 w1 w2 w3 w4. be_Create (m_be v) name fenv threads p envs w0 = (Return (Inr fh), w1) \<and>
       h_Start (m_be v) fh w1 = (Return None, w2) \<and>
       ms' = ms\<lparr>functionHandlers := (functionHandlers ms)(name \<mapsto> fh)\<rparr> \<and>
       tell_rproxy (m_ext v) ms' (ConfigBody \<lparr>rc_name = name, rc_ips = h_IPs (m_be v) fh w2, rc_env = fenv,
         rc_threads = threads, rc_envs = envs, rc_zip = z\<rparr>) w2 = (Return None, w3) \<and>
       (case functionHandlers ms name of None \<Rightarrow> w4 = w3 | Some old \<Rightarrow> h_Destroy (m_be v) old w3 = (None, w4)))"
  using assms
proof (cases rule: createFunction_cases)
  case (early err)
  then show ?thesis by simp
next
  case (ran p w4 w5)
  obtain fh w1 w2 w3 where "be_Create (m_be v) name fenv threads p envs w4 = (Return (Inr fh), w1)"
    "h_Start (m_be v) fh w1 = (Return None, w2)"
    "ms' = ms\<lparr>functionHandlers := (functionHandlers ms)(name \<mapsto> fh)\<rparr>"
    "tell_rproxy (m_ext v) ms' (ConfigBody \<lparr>rc_name = name, rc_ips = h_IPs (m_be v) fh w2, rc_env = fenv,
         rc_threads = threads, rc_envs = envs, rc_zip = z\<rparr>) w2 = (Return None, w3)"
    "case functionHandlers ms name of None \<Rightarrow> w5 = w3 | Some old \<Rightarrow> h_Destroy (m_be v) old w3 = (None, w5)"
    using install_success [OF ran(2)] by (elim conjE exE)
  moreover have "n = name" using install_success [OF ran(2)] by (elim conjE)
  ultimately show ?thesis using ran(1)
    by (intro conjI exI [of _ p] exI [of _ fh] exI [of _ w4] exI [of _ w1] exI [of _ w2] exI [of _ w3] exI [of _ w5])
qed

theorem creation_replaces_the_handler_witness:
  "\<exists>ms' w'. createFunction (sample_env None (Inr (200, Some ''OK''))) ''f'' ''go'' 1 ''PK'' [] Map.empty
     (sample_manager, 0) = (Return (Inr ''f''), ms', w') \<and> functionHandlers ms' ''f'' = Some 7"
proof -
  have "list_all (\<lambda>c. is_lower c \<or> is_upper c \<or> is_digit c) ''f''" by (simp add: is_lower_def code_of_def)
  then obtain ms' w' where c: "createFunction (sample_env None (Inr (200, Some ''OK''))) ''f'' ''go'' 1 ''PK'' []
      Map.empty (sample_manager, 0) = (Return (Inr ''f''), ms', w')"
    by (simp add: createFunction_def install_def tell_rproxy_def sample_env_def good_ext_def
        sample_manager_def IsAlphaNumeric_def Let_def)
  have "\<exists>fh w0 w1 p. be_Create (m_be (sample_env None (Inr (200, Some ''OK'')))) ''f'' ''go'' 1 p Map.empty w0 = (Return (Inr fh), w1) \<and>
      ms' = sample_manager\<lparr>functionHandlers := (functionHandlers sample_manager)(''f'' \<mapsto> fh)\<rparr>"
    using creation_replaces_the_handler [OF c] by blast
  then have "functionHandlers ms' ''f'' = Some 7" by (auto simp: sample_env_def)
  with c show ?thesis by blast
qed

text \<open>
  C36: the reaper removes a function only if it is enabled and the reverse proxy reported a
  last use of that function that is longer ago than the time-out.
\<close>

theorem reaper_removes_idle_functions_only:
  assumes "reaper_round v d decode ks (ms, w) = (res, ms', w')"
    and "functionHandlers ms' name \<noteq> functionHandlers ms name"
  shows "0 < d \<and> functionHandlers ms' name = None \<and>
    (\<exists>w1 c body w2 lu t. HttpGet (m_ext v) (rproxy_url ms @ ''/lastused'') w1 = (Inr (c, Some body), w2) \<and>
       decode body = Some lu \<and> lu name = Some t \<and> d < time_sub (Now (m_ext v) w2) t)"
  using reaper_round_table [OF assms(1)] assms(2) unfolding shrinks_def by blast

theorem reaper_removes_idle_functions_only_witness:
  "\<exists>res ms' w'. reaper_round (sample_env None (Inr (200, Some []))) Second (\<lambda>_. Some [''f'' \<mapsto> 0]) [''f'']
      (sample_manager, 0) = (res, ms', w') \<and> functionHandlers ms' ''f'' = None"
proof -
  let ?v = "sample_env None (Inr (200, Some []))"
  obtain res ms' w' where r: "reaper_round ?v Second (\<lambda>_. Some [''f'' \<mapsto> 0]) [''f''] (sample_manager, 0) = (res, ms', w')"
    using prod_cases3 by blast
  then have "functionHandlers ms' ''f'' \<noteq> functionHandlers sample_manager ''f''"
    by (auto simp: reaper_round_def to_delete_def Delete_def tell_rproxy_def sample_env_def good_ext_def
        sample_manager_def Second_def time_sub_def sat64_def min_int64_def max_int64_def)
  then show ?thesis using reaper_removes_idle_functions_only [OF r] r by blast
qed

text \<open>
  C40: usage times outlive their function in the reverse proxy, and asynchronous calls do
  not renew them: a function that is deleted, added again and then called asynchronously
  is reaped on its old usage time.
\<close>

theorem stale_usage_time_reaps:
  assumes "functionLastUsed r name = Some t" and "idleTimeout < time_sub now t" and "name \<in> set ks"
    and "Call e rnd ho name b True h (snd (Add name ips (snd (Del name r))), w) = (res, r', w')"
  shows "name \<in> set (to_delete idleTimeout now (functionLastUsed r') ks)"
proof -
  have "functionLastUsed r' = functionLastUsed (snd (Add name ips (snd (Del name r))))"
    using assms(4) by (auto simp: Call_def Let_def split: option.splits if_splits prod.splits)
  then show ?thesis using assms(1-3) by (simp add: to_delete_mem)
qed

theorem stale_usage_time_reaps_witness:
  "let r = New\<lparr>hosts := [''f'' \<mapsto> [''10.0.0.9'']], functionLastUsed := [''f'' \<mapsto> 0]\<rparr> in
   \<exists>res r' w'. Call good_ext 0 [] ''f'' ''x'' True Map.empty (snd (Add ''f'' [''10.0.0.8''] (snd (Del ''f'' r))), 0) =
     (res, r', w') \<and> ''f'' \<in> set (to_delete 30 60 (functionLastUsed r') [''f''])"
proof -
  let ?r = "New\<lparr>hosts := [''f'' \<mapsto> [''10.0.0.9'']], functionLastUsed := [''f'' \<mapsto> 0]\<rparr>"
  obtain res r' w' where c: "Call good_ext 0 [] ''f'' ''x'' True Map.empty
      (snd (Add ''f'' [''10.0.0.8''] (snd (Del ''f'' ?r))), 0) = (res, r', w')"
    using prod_cases3 by blast
  then show ?thesis
    using stale_usage_time_reaps [OF _ _ _ c, of 0 30 60 "[''f'']"]
    by (auto simp: time_sub_def sat64_def min_int64_def max_int64_def)
qed

text \<open>
  C25: the arguments with which a management process starts its reverse proxy are parsed
  there to exactly its ports, which are between 0 and 65535; with fewer than two protocols
  the reverse proxy exits with its usage message instead.
\<close>

theorem rproxy_arguments_roundtrip:
  assumes "read_ports getenv ps default_ports = Inr ports" and "range_order ports po"
  shows "parse_listeners (tl (rproxyArgs ports po)) Map.empty = Some (\<lambda>p. map_option (\<lambda>n. '':'' @ show_int n) (ports p)) \<and>
    (\<forall>p n. ports p = Some n \<longrightarrow> 0 \<le> n \<and> n \<le> 65535) \<and>
    (leader_start getenv2 readFile unmarshal (prog # rproxyArgs ports po) = Usage \<longleftrightarrow> card (dom ports) < 2)"
proof -
  have "dom ports \<subseteq> dom default_ports" using read_ports_dom [OF assms(1)] .
  then have pl: "\<forall>p \<in> dom ports. plain_prot p" using default_ports_plain by blast
  note parsed = rproxyArgs_parsed [OF assms(2) pl]
  have "\<forall>p n. default_ports p = Some n \<longrightarrow> 0 \<le> n \<and> n \<le> 65535" by (simp add: default_ports_def)
  then have range: "\<forall>p n. ports p = Some n \<longrightarrow> 0 \<le> n \<and> n \<le> 65535" by (rule read_ports_range [OF assms(1)])
  have "drop 2 (prog # rproxyArgs ports po) = tl (rproxyArgs ports po)" by (simp add: drop_Suc numeral_2_eq_2)
  then have "leader_start getenv2 readFile unmarshal (prog # rproxyArgs ports po) = Usage \<longleftrightarrow>
      length (prog # rproxyArgs ports po) \<le> 3"
    unfolding leader_start_def by (simp add: parsed Let_def split: prod.splits sum.splits)
  then show ?thesis using parsed range rproxyArgs_length [OF assms(2)] by auto
qed

theorem rproxy_arguments_roundtrip_witness:
  "leader_start sample_getenv (\<lambda>_. Inl []) (\<lambda>_. Inl []) (''rproxy.bin'' # rproxyArgs [''http'' \<mapsto> 8000] [''http'']) = Usage"
proof -
  let ?env = "\<lambda>key. if key = ''coap_PORT'' \<or> key = ''grpc_PORT'' then ''-1'' else []"
  have "Atoi ''-1'' = Some (-1)" by code_simp
  then have "read_ports ?env [''coap'', ''http'', ''grpc''] default_ports = Inr [''http'' \<mapsto> 8000]"
    by (simp add: default_ports_def Let_def)
  moreover have "range_order [''http'' \<mapsto> 8000 :: int] [''http'']" by (simp add: range_order_def)
  ultimately show ?thesis
    using rproxy_arguments_roundtrip [of ?env "[''coap'', ''http'', ''grpc'']" "[''http'' \<mapsto> 8000]" "[''http'']"
        sample_getenv "\<lambda>_. Inl []" "\<lambda>_. Inl []" "''rproxy.bin''"] by simp
qed


section \<open>Docker\<close>

text \<open>
  C19: with the Docker backend, a creation that succeeds announced exactly as many
  addresses as the function has threads. With no threads the announcement is taken for a
  deletion: the reverse proxy no longer serves the function, its definition is gone from
  the store, and the upload still reports success.
\<close>

theorem threads_decide_the_announcement:
  assumes "createFunction (docker_node de ident) name fenv threads z sub envs (ms, w) = (Return (Inr n), ms', w')"
  shows "\<exists>c w2 w3. tell_rproxy (m_ext (docker_node de ident)) ms' (ConfigBody c) w2 = (Return None, w3) \<and>
    rc_name c = name \<and> int (length (rc_ips c)) = threads \<and>
    (threads = 0 \<longrightarrow> (\<forall>e p ks r reg x resp r' reg' x'.
       config_handler e p (\<lambda>_. Some c) ks MethodPost body (r, reg, x) = (Return resp, r', reg', x') \<longrightarrow>
       hosts r' name = None \<and> (Code resp = 200 \<longrightarrow> hosts r name \<noteq> None \<and> funcs (reg_funcs reg') name = None)))"
proof -
  obtain ips w2 w3 where an: "IsAlphaNumeric name" and len: "int (length ips) = threads"
    and t: "tell_rproxy (m_ext (docker_node de ident)) ms' (ConfigBody \<lparr>rc_name = name, rc_ips = ips, rc_env = fenv,
       rc_threads = threads, rc_envs = envs, rc_zip = z\<rparr>) w2 = (Return None, w3)"
    by (rule dock.createFunction_announces [OF assms])
  have "name \<noteq> [] \<and> hd name \<noteq> CHR ''/''"
    using an by (cases name) (auto simp: IsAlphaNumeric_def is_lower_def is_upper_def is_digit_def code_of_def)
  then have del: "hosts r' name = None \<and> (Code resp = 200 \<longrightarrow> hosts r name \<noteq> None \<and> funcs (reg_funcs reg') name = None)"
    if "threads = 0" "config_handler e p (\<lambda>_. Some \<lparr>rc_name = name, rc_ips = ips, rc_env = fenv,
       rc_threads = threads, rc_envs = envs, rc_zip = z\<rparr>) ks MethodPost body (r, reg, x) = (Return resp, r', reg', x')"
    for e p ks r reg x resp r' reg' x'
    using that len
    by (auto simp: config_handler_def Del_def set_funcs_def store_Remove_def Let_def split: option.splits)
  let ?c = "\<lparr>rc_name = name, rc_ips = ips, rc_env = fenv, rc_threads = threads, rc_envs = envs, rc_zip = z\<rparr>"
  have "threads = 0 \<longrightarrow> (\<forall>e p ks r reg x resp r' reg' x'.
       config_handler e p (\<lambda>_. Some ?c) ks MethodPost body (r, reg, x) = (Return resp, r', reg', x') \<longrightarrow>
       hosts r' name = None \<and> (Code resp = 200 \<longrightarrow> hosts r name \<noteq> None \<and> funcs (reg_funcs reg') name = None))"
    by (intro impI allI) (rule del)
  then show ?thesis
    using t len by (intro exI [of _ ?c] exI [of _ w2] exI [of _ w3]) simp
qed

theorem threads_decide_the_announcement_witness:
  "\<exists>ms' w'. createFunction (docker_node (sample_docker True (Inr (200, Some ''OK''))) ''id'') ''f'' ''go'' 0 ''PK'' [] Map.empty
      (New_manager [] Map.empty 8081, [], [], [], []) = (Return (Inr ''f''), ms', w') \<and>
    (\<exists>c. rc_name c = ''f'' \<and> rc_ips c = [] \<and>
      (\<forall>resp r' reg' x'. config_handler good_ext sample_params (\<lambda>_. Some c) [] MethodPost []
         (New\<lparr>hosts := [''f'' \<mapsto> [''172.18.0.2'']]\<rparr>, one_node worker_node, 0) = (Return resp, r', reg', x') \<longrightarrow>
         hosts r' ''f'' = None))"
proof -
  let ?s = "(New_manager [] Map.empty 8081, [], [], [], []) :: nat manager \<times> daemon docker_world"
  have "list_all (\<lambda>c. is_lower c \<or> is_upper c \<or> is_digit c) ''f''" by (simp add: is_lower_def code_of_def)
  then obtain ms' w' where c: "createFunction (docker_node (sample_docker True (Inr (200, Some ''OK''))) ''id'') ''f'' ''go'' 0
      ''PK'' [] Map.empty ?s = (Return (Inr ''f''), ms', w')"
    by (simp add: createFunction_def install_def tell_rproxy_def docker_node_def docker_backend_def lift_ext_def
        lift_files_def over_def docker_Create_def get_or_fail_def or_fail_def prepare_folder_def build_image_def
        provision_def create_containers_def new_handler_def sample_docker_def sample_client_def sample_files_def
        still_ext_def docker_Start_def New_manager_def IsAlphaNumeric_def Let_def)
  obtain k where k: "rc_name k = ''f''" "int (length (rc_ips k)) = 0"
    and del: "0 = (0 :: int) \<longrightarrow> (\<forall>(e :: int ext) p ks r reg x resp r' reg' x'.
       config_handler e p (\<lambda>_. Some k) ks MethodPost [] (r, reg, x) = (Return resp, r', reg', x') \<longrightarrow>
       hosts r' ''f'' = None \<and> (Code resp = 200 \<longrightarrow> hosts r ''f'' \<noteq> None \<and> funcs (reg_funcs reg') ''f'' = None))"
    using threads_decide_the_announcement [OF c, where body = "[]"] by (elim exE conjE)
  have "rc_name k = ''f'' \<and> rc_ips k = [] \<and>
      (\<forall>resp r' reg' x'. config_handler good_ext sample_params (\<lambda>_. Some k) [] MethodPost []
         (New\<lparr>hosts := [''f'' \<mapsto> [''172.18.0.2'']]\<rparr>, one_node worker_node, 0) = (Return resp, r', reg', x') \<longrightarrow>
         hosts r' ''f'' = None)"
    using k mp [OF del refl] by simp
  with c show ?thesis by blast
qed

text \<open>
  C37: a start succeeds only when every address has answered its health check. A container
  that never answers makes it fail after nine probes with a pause after each, one fewer
  than the error message says.
\<close>

theorem nine_probes:
  assumes "docker_Start de dh d = (res, dh', d')" and "ip \<in> set (handlerIPs dh')"
    and "\<forall>d. \<not> ready (fst (HttpGet (de_ext de) (ready_url ip) d))"
  shows "res \<noteq> Return None \<and>
    (\<forall>i ips d0. i < length (dh_containers dh') \<longrightarrow> ready_each de dh' i (ip # ips) d0 =
       (case getContainerLogs (de_client de) dh' (dh_containers dh' ! i) ((probe (de_ext de) ip ^^ 9) d0) of
          ((_, Some err), d2) \<Rightarrow>
            (Return (Some (not_ready ip @ '', error encountered when getting logs '' @ err)), d2)
        | ((_, None), d2) \<Rightarrow> (Return (Some (not_ready ip)), d2)))"
proof
  have "wait_ready (de_ext de) ip (maxRetries - 1) d0 = (False, (probe (de_ext de) ip ^^ 9) d0)" for d0
    using wait_ready_silent [OF assms(3), of 9 d0] by (simp add: maxRetries_def)
  then show "\<forall>i ips d0. i < length (dh_containers dh') \<longrightarrow> ready_each de dh' i (ip # ips) d0 =
       (case getContainerLogs (de_client de) dh' (dh_containers dh' ! i) ((probe (de_ext de) ip ^^ 9) d0) of
          ((_, Some err), d2) \<Rightarrow>
            (Return (Some (not_ready ip @ '', error encountered when getting logs '' @ err)), d2)
        | ((_, None), d2) \<Rightarrow> (Return (Some (not_ready ip)), d2))"
    by simp
  show "res \<noteq> Return None"
  proof
    assume "res = Return None"
    then obtain d1 where "ready_each de dh' 0 (handlerIPs dh') d1 = (Return None, d')"
      using assms(1) by (auto simp: docker_Start_def Let_def split: prod.splits call.splits option.splits)
    from ready_each_success [OF this assms(2)] show False using assms(3) by simp
  qed
qed

theorem nine_probes_witness:
  "\<exists>res dh' d'. docker_Start (sample_docker True (Inl EOF))
      ((new_handler ''f'' ''go'' 1 ''u'')\<lparr>dh_containers := [''c'']\<rparr>) ([''c''], [], []) = (res, dh', d') \<and> res \<noteq> Return None"
proof -
  let ?de = "sample_docker True (Inl EOF)"
  let ?dh = "(new_handler ''f'' ''go'' 1 ''u'')\<lparr>dh_containers := [''c'']\<rparr>"
  obtain res dh' d' where s: "docker_Start ?de ?dh ([''c''], [], []) = (res, dh', d')" using prod_cases3 by blast
  then have "''172.18.0.2'' \<in> set (handlerIPs dh')"
    by (auto simp: docker_Start_def sample_docker_def sample_client_def new_handler_def Let_def split: prod.splits)
  then show ?thesis
    using nine_probes [OF s] s by (fastforce simp: sample_docker_def still_ext_def ready_def)
qed





text \<open>
  C15: from its start, through uploads, deletions, wipes and rounds of the reaper in any
  order and with any results, a service on Docker knows functions by alphanumeric names
  only, each of its handlers has been created, and no two functions share a handler.
\<close>

theorem service_owns_its_handlers:
  assumes "(service_step (docker_node de ident) decode idle)\<^sup>*\<^sup>* (New_manager addr ports cport, [], x) (ms, w)"
  shows "names_ok ms \<and> owned created_handler ms w"
proof
  show "names_ok ms"
    by (rule service_steps_names_ok [OF assms]) (simp add: names_ok_def New_manager_def)
  show "owned created_handler ms w"
    by (rule dock.service_steps_owned [OF assms]) (simp add: owned_def New_manager_def)
qed

theorem service_owns_its_handlers_witness:
  "case Upload (docker_node (sample_docker True (Inr (200, Some ''OK''))) ''id'') [] ''f'' ''go'' 1 ''UEs='' Map.empty
      (New_manager [] Map.empty 8081, [], [], [], []) of
    (res, ms, w) \<Rightarrow> names_ok ms \<and> owned created_handler ms w"
proof -
  let ?v = "docker_node (sample_docker True (Inr (200, Some ''OK''))) ''id''"
  obtain res ms w where u: "Upload ?v [] ''f'' ''go'' 1 ''UEs='' Map.empty (New_manager [] Map.empty 8081, [], [], [], []) = (res, ms, w)"
    using prod_cases3 by blast
  have "(service_step ?v (\<lambda>_. None) 0)\<^sup>*\<^sup>* (New_manager [] Map.empty 8081, [], [], [], []) (ms, w)"
    by (rule r_into_rtranclp) (rule service_step.upload [OF u])
  then have "names_ok ms \<and> owned created_handler ms w" by (rule service_owns_its_handlers)
  then show ?thesis by (simp add: u)
qed


section \<open>The other front ends\<close>



section \<open>The wiring check\<close>

text \<open>
  C26: the wiring check ends, whatever the workers, relays and bricklets do, so long as its
  clock goes forward with its pauses.
\<close>

theorem wiring_check_returns:
  assumes "clock_advances wr"
  shows "\<exists>r. verify_wiring wr getenv readFile unmarshal bo w = Some r"
  by (rule verify_wiring_returns [OF assms])

theorem wiring_check_returns_witness:
  "\<exists>r. verify_wiring (sample_bench (Inl EOF)) bench_getenv (\<lambda>_. Inr []) (\<lambda>_. Inr sample_topology) [''w'']
     (0, \<lambda>_. (False, False)) = Some r"
  by (rule wiring_check_returns [OF bench_clock])



text \<open>
  C28: a wiring check that gets to its report, with whatever verdicts, leaves every worker
  powered off when the relays do as they are told.
\<close>

theorem wiring_check_leaves_workers_off:
  assumes "verify_wiring wr getenv readFile unmarshal bo w = Some (Inr (code, results), w')"
    and "hw_laws (wr_relay wr) pos" and "relays_work (wr_relay wr)"
  shows "\<exists>ns. LoadNodes (readFile (getenv_or getenv ''NODES_CONFIG'' ''deploy/nodes.json'')) unmarshal = Inr ns \<and>
    (\<forall>n \<in> set ns. \<not> Local n \<longrightarrow> \<not> position (Channel n) (pos w' (RelayUID n)))"
  using assms(1)
proof (cases rule: verify_wiring_cases)
  case (1 ns ks w1 w2)
  have "\<not> position (Channel n) (pos w' (RelayUID n))" if "n \<in> set ns" "\<not> Local n" for n
    unfolding 1(4) using that LoadNodes_channels [OF 1(1)]
    by (intro all_off_off [OF assms(2,3)]) (auto simp: sorted_workers_set)
  then show ?thesis using 1(1) by blast
qed

theorem wiring_check_leaves_workers_off_witness:
  "\<exists>code results w'. bench_run = Some (Inr (code, results), w') \<and>
    (\<exists>ns. LoadNodes (Inr []) (\<lambda>_. Inr sample_topology) = Inr ns \<and>
      (\<forall>n \<in> set ns. \<not> Local n \<longrightarrow> \<not> position (Channel n) (snd w' (RelayUID n))))"
proof -
  obtain code results w' where b: "bench_run = Some (Inr (code, results), w')"
    using bench_run_clean by (auto simp: map_option_case split: option.splits)
  show ?thesis
    using wiring_check_leaves_workers_off [OF b [unfolded bench_run_def] bench_laws bench_works] b by blast
qed

text \<open>
  C31: the bricklet that the wiring check blames is one whose power rose by the threshold
  or more, and by no less than any other; and when some power rose by the threshold, one
  is blamed, unless a bricklet is mapped to the empty name.
\<close>

theorem strongest_rise_is_blamed:
  assumes "range_order after ks"
  shows "(roseAbove before after ks thr \<noteq> [] \<longrightarrow>
      (\<exists>a. after (roseAbove before after ks thr) = Some a \<and>
         \<not> double_less (rise before (roseAbove before after ks thr) a) thr \<and>
         (\<forall>n b. after n = Some b \<longrightarrow> \<not> double_less (rise before (roseAbove before after ks thr) a) (rise before n b)))) \<and>
    (after [] = None \<and> double_less (0, 0) thr \<and> (\<exists>n a. after n = Some a \<and> \<not> double_less (rise before n a) thr) \<longrightarrow>
      roseAbove before after ks thr \<noteq> [])"
  using roseAbove_best [OF assms refl] roseAbove_found [OF assms] by blast

theorem strongest_rise_is_blamed_witness:
  "roseAbove [''v'' \<mapsto> watts 900, ''w'' \<mapsto> watts 10] [''v'' \<mapsto> watts 1500, ''w'' \<mapsto> watts 3000] [''v'', ''w''] onThresholdW \<noteq> []"
proof -
  let ?b = "[''v'' \<mapsto> watts 900, ''w'' \<mapsto> watts 10]" and ?a = "[''v'' \<mapsto> watts 1500, ''w'' \<mapsto> watts 3000]"
  have "range_order ?a [''v'', ''w'']" by (auto simp: range_order_def)
  note r = strongest_rise_is_blamed [OF this, of ?b onThresholdW]
  have t: "double_less (0, 0) onThresholdW" and w: "\<not> double_less (rise ?b ''w'' (watts 3000)) onThresholdW"
    by code_simp+
  then have "?a [] = None \<and> double_less (0, 0) onThresholdW \<and>
      (\<exists>n a. ?a n = Some a \<and> \<not> double_less (rise ?b n a) onThresholdW)"
    by (intro conjI exI [of _ "''w''"] exI [of _ "watts 3000"]) simp_all
  then show ?thesis using r by blast
qed

section \<open>Archives\<close>

text \<open>
  C38: unpacking an upload makes exactly the files its members name: one whose name is made
  of proper elements below the function's own folder, and one whose name begins with two
  dots beside it, in the folder that all uploads share.
\<close>

theorem archives_can_leave_their_folder:
  assumes "tracks os made" and "os_OpenZip os zipPath w = (Inr files, w1)"
    and "os_Unzip os zipPath (path_Join TmpDir uuid) w = (None, w')" and "proper uuid"
  shows "made w' = made w \<union> member_paths (path_Join TmpDir uuid) files \<and>
    (\<forall>f \<in> set files. \<forall>ns. \<not> zm_dir f \<and> list_all proper ns \<and> ns \<noteq> [] \<longrightarrow>
      (zm_name f = join_slash ns \<longrightarrow> render False (''tmp'' # uuid # ns) \<in> made w') \<and>
      (zm_name f = join_slash (''..'' # ns) \<longrightarrow> render False (''tmp'' # ns) \<in> made w'))"
  using unzip_paths [OF assms] by (auto simp: list_all_iff)

theorem archives_can_leave_their_folder_witness:
  "\<exists>w'. os_Unzip (sample_os [sample_member ''../evil'']) ''tmp/u.zip'' (path_Join TmpDir ''u'') [] = (None, w') \<and>
    ''tmp/evil'' \<in> set w'"
proof -
  let ?os = "sample_os [sample_member ''../evil'']"
  have u: "proper ''u''" "proper ''evil''" by (simp_all add: proper_def)
  obtain w' where run: "os_Unzip ?os ''tmp/u.zip'' (path_Join TmpDir ''u'') [] = (None, w')"
    by (simp add: os_Unzip_def sample_os_def sample_member_def and_then_def)
  have "os_OpenZip ?os ''tmp/u.zip'' [] = (Inr [sample_member ''../evil''], [])" by (simp add: sample_os_def)
  from archives_can_leave_their_folder [OF sample_tracks this run u(1)]
  have "\<forall>f \<in> set [sample_member ''../evil'']. \<forall>ns. \<not> zm_dir f \<and> list_all proper ns \<and> ns \<noteq> [] \<longrightarrow>
      (zm_name f = join_slash ns \<longrightarrow> render False (''tmp'' # ''u'' # ns) \<in> set w') \<and>
      (zm_name f = join_slash (''..'' # ns) \<longrightarrow> render False (''tmp'' # ns) \<in> set w')"
    by (rule conjunct2)
  then have "render False [''tmp'', ''evil''] \<in> set w'"
    using u(2) by (auto simp: sample_member_def dest: spec [of _ "[''evil'']"])
  then show ?thesis using run by (simp add: render_def)
qed

section \<open>Functions in their containers\<close>



text \<open>
  C30: a function that fails is reported as a success: where the binary server answers a
  failing script with 500, the reverse proxy does not look at the status, and the client
  gets 200 with the error's text as the result; the output of the script is lost.
\<close>

theorem failed_functions_answer_200:
  assumes "decode msg = Some def" and "rc_name def = name" and "name \<noteq> []" and "rc_ips def \<noteq> []"
    and "config_handler e p decode ks MethodPost msg (rp, reg, w) = (res, rp1, reg1, w1)"
    and "\<forall>ip \<in> set (rc_ips def). runs_at e wire (binary_runtime run rerr) ip"
    and "served_here c thr req n reg" and "asks_for c req name b"
    and "run b w1 = ((output, Some err), w2)"
  shows "fst (delivered (binary_runtime run rerr) (call_request wire b (out_headers c req)) w1) = Inr (500, Some err) \<and>
    (\<exists>rp' reg'. serve e p thr c req (rp1, reg1, w1) =
      (Return \<lparr>Code = 200, RespHeader = node_header n, RespBody = err\<rparr>, rp', reg', w2))"
proof -
  note answer = binary_runtime_answers [of run b w1 "(output, Some err)" w2 rerr wire "out_headers c req", OF assms(9)]
  show ?thesis using announced_function_answers [OF assms(1-8) answer] answer by (simp add: outcome_def outcome_code_def)
qed

theorem failed_functions_answer_200_witness:
  "\<exists>rp reg w out rp' reg'.
    (let e = container_ext (binary_runtime (\<lambda>b w. ((''partial'', Some ''exit status 1''), w + 7)) ''closed'')
     in config_handler e sample_params (\<lambda>_. Some sample_config) [] MethodPost [] (New, one_node head_node, 0) = (out, rp, reg, w) \<and>
        serve e sample_params 10 tagged_choices tagged_request (rp, reg, w) =
          (Return \<lparr>Code = 200, RespHeader = node_header head_node, RespBody = ''exit status 1''\<rparr>, rp', reg', 7))"
proof -
  let ?e = "container_ext (binary_runtime (\<lambda>b w. ((''partial'', Some ''exit status 1''), w + 7)) ''closed'')"
  have "rc_name sample_config = ''f''" "rc_ips sample_config \<noteq> []" by (simp_all add: sample_config_def)
  then obtain rp' reg' where "serve ?e sample_params 10 tagged_choices tagged_request
      (New\<lparr>hosts := [''f'' \<mapsto> [''172.18.0.2'']]\<rparr>, set_funcs (store_Set ''f'' \<lparr>fd_env = ''go'', fd_threads = 1,
         fd_envs = Map.empty, fd_zip = ''PK''\<rparr>) (one_node head_node), 0) =
      (Return \<lparr>Code = 200, RespHeader = node_header head_node, RespBody = ''exit status 1''\<rparr>, rp', reg', 7)"
    using failed_functions_answer_200 [OF refl _ _ _ config_on_head ballI [OF container_runs] head_served tagged_asks,
        of "\<lambda>b w. ((''partial'', Some ''exit status 1''), w + 7)" "''partial''" "''exit status 1''" 7 "''closed''"]
    by auto
  then show ?thesis using config_on_head [of ?e] unfolding Let_def by blast
qed

section \<open>The management process\<close>







end
